theory Spec2Isabelle
  imports Main "HOL-Library.List_Lexorder" "HOL-Library.Char_ord"
begin

chapter \<open>The C# backend of the binding generator\<close>

text \<open>
  The development follows the Go source of package \<^verbatim>\<open>bind\<close> held in
  \<^verbatim>\<open>src/bind/csharp/seq_windows.h\<close> (the methods of \<^verbatim>\<open>CSharpGen\<close>); line
  numbers are those of that file. The generator's own functions are embedded as HOL
  functions. The C# text that the generator prints is read as the program it is: the
  reference runtime of \<^verbatim>\<open>genSeqSupport\<close> as functions over an explicit state, the
  wrappers and trampolines as statement lists with an evaluator.
  Go strings are byte sequences, so they are \<^typ>\<open>string\<close> here.
\<close>

section \<open>Identifier sanitizer\<close>

text \<open>The table passed to \<^verbatim>\<open>newNameSanitizer\<close> (lines 67-79).\<close>

definition csharpKeywords :: "string list" where
  "csharpKeywords = [
    ''abstract'', ''as'', ''base'', ''bool'', ''break'', ''byte'', ''case'', ''catch'', ''char'',
    ''checked'', ''class'', ''const'', ''continue'', ''decimal'', ''default'', ''delegate'', ''do'',
    ''double'', ''else'', ''enum'', ''event'', ''explicit'', ''extern'', ''false'', ''finally'',
    ''fixed'', ''float'', ''for'', ''foreach'', ''goto'', ''if'', ''implicit'', ''in'', ''int'',
    ''interface'', ''internal'', ''is'', ''lock'', ''long'', ''namespace'', ''new'', ''null'',
    ''object'', ''operator'', ''out'', ''override'', ''params'', ''private'', ''protected'',
    ''public'', ''readonly'', ''ref'', ''return'', ''sbyte'', ''sealed'', ''short'', ''sizeof'',
    ''stackalloc'', ''static'', ''string'', ''struct'', ''switch'', ''this'', ''throw'', ''true'',
    ''try'', ''typeof'', ''uint'', ''ulong'', ''unchecked'', ''unsafe'', ''ushort'', ''using'',
    ''virtual'', ''void'', ''volatile'', ''while'', ''record'', ''init'', ''when'', ''yield'', ''add'',
    ''remove'', ''value'', ''var'', ''dynamic'']"

text \<open>
  Modelled from the spec: \<^verbatim>\<open>newNameSanitizer\<close> is declared in a file of the
  repository that is not among the sources. The spec (4.B, step 1) says: "If the name
  matches a reserved managed keyword, suffix it deterministically." The suffix is not
  given there, so it is a parameter; any other name is returned as it is.
\<close>

definition newNameSanitizer :: "string \<Rightarrow> string list \<Rightarrow> string \<Rightarrow> string" where
  "newNameSanitizer suffix res s = (if s \<in> set res then s @ suffix else s)"

text \<open>Letters of the ASCII range, where \<^verbatim>\<open>unicode.IsLetter\<close> is A-Z and a-z.\<close>

definition isAsciiLetter :: "char \<Rightarrow> bool" where
  "isAsciiLetter c =
     (let n = (of_char c :: nat) in (65 \<le> n \<and> n \<le> 90) \<or> (97 \<le> n \<and> n \<le> 122))"

text \<open>The complement of the class of \<^verbatim>\<open>csharpIdentifierRe = [^A-Za-z0-9_]\<close> (line 65).\<close>

definition isIdentByte :: "char \<Rightarrow> bool" where
  "isIdentByte c =
     (let n = (of_char c :: nat)
      in (65 \<le> n \<and> n \<le> 90) \<or> (97 \<le> n \<and> n \<le> 122) \<or> (48 \<le> n \<and> n \<le> 57) \<or> n = 95)"

text \<open>
  The regexp reads its input rune by rune. A byte below 128 is a rune of width 1; for any
  other leading byte the width is what the UTF-8 decoder of the Go library says
  (\<open>W\<close>, a parameter: 1 for an undecodable byte, 2 to 4 for an encoded rune), which is
  at least 1 and at most the bytes that are left.
\<close>

definition runeWidth :: "(string \<Rightarrow> nat) \<Rightarrow> string \<Rightarrow> nat" where
  "runeWidth W s =
     (case s of
        [] \<Rightarrow> 0
      | c # cs \<Rightarrow> if (of_char c :: nat) < 128 then 1 else max 1 (min (W s) (length s)))"

text \<open>
  \<^verbatim>\<open>csharpIdentifierRe.ReplaceAllString(name, "_")\<close>: every rune outside the class
  becomes one underscore, every other byte is copied.
\<close>

fun ReplaceAllString :: "(string \<Rightarrow> nat) \<Rightarrow> string \<Rightarrow> string" where
  "ReplaceAllString W [] = []"
| "ReplaceAllString W (c # cs) =
     (if isIdentByte c then c # ReplaceAllString W cs
      else CHR ''_'' # ReplaceAllString W (drop (runeWidth W (c # cs) - 1) cs))"

text \<open>
  \<^verbatim>\<open>unicode.IsLetter\<close> of the first rune of a non-empty string. For a first byte
  of 128 or more the answer is the Go library's (\<open>L\<close>, a parameter).
\<close>

definition firstRuneIsLetter :: "(string \<Rightarrow> bool) \<Rightarrow> string \<Rightarrow> bool" where
  "firstRuneIsLetter L s =
     (case s of
        [] \<Rightarrow> False
      | c # cs \<Rightarrow> if (of_char c :: nat) < 128 then isAsciiLetter c else L s)"

text \<open>
  \<^verbatim>\<open>csIdentifier\<close> (lines 138-152). The first rune is \<^verbatim>\<open>'_'\<close> exactly when
  the first byte is.
\<close>

definition csIdentifier ::
  "(string \<Rightarrow> string) \<Rightarrow> (string \<Rightarrow> nat) \<Rightarrow> (string \<Rightarrow> bool) \<Rightarrow> string \<Rightarrow> string" where
  "csIdentifier csharpNameReplacer W L name =
     (if name = [] then name
      else let name1 = csharpNameReplacer name;
               name2 = ReplaceAllString W name1
           in if name2 = [] then ''_''
              else if hd name2 \<noteq> CHR ''_'' \<and> \<not> firstRuneIsLetter L name2 then ''_'' @ name2
              else name2)"

text \<open>A valid managed identifier, as the claim spells it out.\<close>

definition csValidIdentifier :: "string \<Rightarrow> bool" where
  "csValidIdentifier s =
     (s \<noteq> [] \<and> list_all isIdentByte s \<and> (hd s = CHR ''_'' \<or> isAsciiLetter (hd s)))"

text \<open>The keyword suffix does its work: no suffixed keyword is a keyword after replacement.\<close>

definition suffixAvoidsKeywords :: "(string \<Rightarrow> nat) \<Rightarrow> string \<Rightarrow> bool" where
  "suffixAvoidsKeywords W suffix =
     list_all (\<lambda>k. ReplaceAllString W (k @ suffix) \<notin> set csharpKeywords) csharpKeywords"

text \<open>Concrete stand-ins for the library parameters, used where a statement is evaluated.\<close>

definition sampleWidth :: "string \<Rightarrow> nat" where
  "sampleWidth s = 1"

definition sampleIsLetter :: "string \<Rightarrow> bool" where
  "sampleIsLetter s = False"

definition sampleReplacer :: "string \<Rightarrow> string" where
  "sampleReplacer s = []"

section \<open>Reference runtime: refnums and the tracker\<close>

text \<open>
  The class \<^verbatim>\<open>Seq\<close> printed by \<^verbatim>\<open>genSeqSupport\<close> (lines 1513-1754). A managed
  object is known by its reference identity (\<^verbatim>\<open>ReferenceEqualityComparer\<close>), here a
  number; \<^verbatim>\<open>null\<close> is \<open>None\<close>. A C# exception is a value of \<open>exn\<close>, and a method
  that may throw returns its outcome together with the state it leaves behind.
  A refnum is a C# \<^verbatim>\<open>int\<close>: an integer with the 32-bit wrap-around of \<open>++\<close> and
  \<open>--\<close> written out.
\<close>

type_synonym objref = nat

text \<open>
  A managed value of a reference type: \<^verbatim>\<open>null\<close>, a proxy object holding a refnum
  (\<^verbatim>\<open>new Proxy(refnum)\<close>), or another object.
\<close>

datatype managed = MNull | MProxy int | MObject objref

datatype exn =
    InvalidOperationException string
  | ObjectDisposedException
  | InvalidCastException
  | ArgumentNullException
  | GoException managed
  | ManagedException string

definition NullRefNum :: int where
  "NullRefNum = 41"

definition RefOffset :: int where
  "RefOffset = 42"

definition int_MaxValue :: int where
  "int_MaxValue = 2147483647"

definition wrap32 :: "int \<Rightarrow> int" where
  "wrap32 x = (x + 2147483648) mod 4294967296 - 2147483648"

text \<open>The class \<^verbatim>\<open>Ref\<close> (lines 1719-1727).\<close>

record Ref =
  Value :: objref
  Count :: int

definition Ref_Inc :: "Ref \<Rightarrow> exn + Ref" where
  "Ref_Inc e =
     (if Count e = int_MaxValue then Inl (InvalidOperationException ''Ref: refcount overflow'')
      else Inr (e\<lparr>Count := wrap32 (Count e + 1)\<rparr>))"

definition Ref_Dec :: "Ref \<Rightarrow> Ref" where
  "Ref_Dec e = e\<lparr>Count := wrap32 (Count e - 1)\<rparr>"

text \<open>The class \<^verbatim>\<open>RefTracker\<close> (lines 1639-1717): a counter and two dictionaries.\<close>

record RefTracker =
  nextRefnum :: int
  refs :: "int \<rightharpoonup> Ref"
  objectRefs :: "objref \<rightharpoonup> int"

definition RefTracker_new :: RefTracker where
  "RefTracker_new = \<lparr>nextRefnum = RefOffset, refs = Map.empty, objectRefs = Map.empty\<rparr>"

text \<open>\<^verbatim>\<open>RefTracker.Inc\<close> (lines 1646-1669).\<close>

definition RefTracker_Inc :: "RefTracker \<Rightarrow> objref option \<Rightarrow> (exn + int) \<times> RefTracker" where
  "RefTracker_Inc t value =
     (case value of
        None \<Rightarrow> (Inr NullRefNum, t)
      | Some v \<Rightarrow>
          (case (case objectRefs t v of
                   None \<Rightarrow>
                     if nextRefnum t = int_MaxValue
                     then Inl (InvalidOperationException ''RefTracker: refnum overflow'')
                     else Inr (nextRefnum t,
                               t\<lparr>nextRefnum := wrap32 (nextRefnum t + 1),
                                 objectRefs := (objectRefs t)(v \<mapsto> nextRefnum t)\<rparr>)
                 | Some r \<Rightarrow> Inr (r, t)) of
             Inl e \<Rightarrow> (Inl e, t)
           | Inr (refnum, t1) \<Rightarrow>
               (let (entry, t2) =
                      (case refs t1 refnum of
                         None \<Rightarrow> (\<lparr>Value = v, Count = 0\<rparr>,
                                  t1\<lparr>refs := (refs t1)(refnum \<mapsto> \<lparr>Value = v, Count = 0\<rparr>)\<rparr>)
                       | Some e \<Rightarrow> (e, t1))
                in case Ref_Inc entry of
                     Inl e \<Rightarrow> (Inl e, t2)
                   | Inr entry' \<Rightarrow> (Inr refnum, t2\<lparr>refs := (refs t2)(refnum \<mapsto> entry')\<rparr>))))"

text \<open>\<^verbatim>\<open>RefTracker.IncRefnum\<close> (lines 1671-1685).\<close>

definition RefTracker_IncRefnum :: "RefTracker \<Rightarrow> int \<Rightarrow> (exn + unit) \<times> RefTracker" where
  "RefTracker_IncRefnum t refnum =
     (if refnum \<le> 0 \<or> refnum = NullRefNum then (Inr (), t)
      else case refs t refnum of
             None \<Rightarrow> (Inl (InvalidOperationException ''unknown reference''), t)
           | Some entry \<Rightarrow>
               (case Ref_Inc entry of
                  Inl e \<Rightarrow> (Inl e, t)
                | Inr entry' \<Rightarrow> (Inr (), t\<lparr>refs := (refs t)(refnum \<mapsto> entry')\<rparr>)))"

text \<open>\<^verbatim>\<open>RefTracker.DecRefnum\<close> (lines 1687-1703); it never throws.\<close>

definition RefTracker_DecRefnum :: "RefTracker \<Rightarrow> int \<Rightarrow> RefTracker" where
  "RefTracker_DecRefnum t refnum =
     (if refnum \<le> 0 \<or> refnum = NullRefNum then t
      else case refs t refnum of
             None \<Rightarrow> t
           | Some entry \<Rightarrow>
               (let entry' = Ref_Dec entry;
                    t1 = t\<lparr>refs := (refs t)(refnum \<mapsto> entry')\<rparr>
                in if Count entry' \<le> 0
                   then t1\<lparr>refs := (refs t1)(refnum := None),
                           objectRefs := (objectRefs t1)(Value entry' := None)\<rparr>
                   else t1))"

text \<open>\<^verbatim>\<open>RefTracker.GetRef\<close> (lines 1705-1715); it does not change the tracker.\<close>

definition RefTracker_GetRef :: "RefTracker \<Rightarrow> int \<Rightarrow> exn + objref option" where
  "RefTracker_GetRef t refnum =
     (if refnum = NullRefNum then Inr None
      else case refs t refnum of
             None \<Rightarrow> Inl (InvalidOperationException ''unknown reference'')
           | Some entry \<Rightarrow> Inr (Some (Value entry)))"

text \<open>
  \<^verbatim>\<open>FromRefnum\<close> of an interface proxy class (lines 1196-1202). The result is
  \<^verbatim>\<open>null\<close>, a new proxy object holding the refnum, or the object the tracker holds.
  The cast to the interface type fails for an object that does not implement the
  interface (\<open>implements\<close>, a property of the object).
\<close>

definition Proxy_FromRefnum :: "(objref \<Rightarrow> bool) \<Rightarrow> RefTracker \<Rightarrow> int \<Rightarrow> exn + managed" where
  "Proxy_FromRefnum implements t refnum =
     (if refnum = NullRefNum then Inr MNull
      else if refnum < 0 then Inr (MProxy refnum)
      else case RefTracker_GetRef t refnum of
             Inl e \<Rightarrow> Inl e
           | Inr None \<Rightarrow> Inr MNull
           | Inr (Some v) \<Rightarrow> if implements v then Inr (MObject v) else Inl InvalidCastException)"

subsection \<open>Schedules of tracker operations\<close>

text \<open>
  A schedule is a list of calls. Each call is observed: an increment is an \<open>Inc\<close> of an
  object or an \<open>IncRefnum\<close> that returned (its refnum is recorded); a decrement is a
  \<open>DecRefnum\<close> that found its entry. A \<open>DecRefnum\<close> whose refnum has no entry returns
  without any effect (line 1692) and is recorded as \<open>EvDecUnknown\<close>; a call on
  \<^verbatim>\<open>null\<close>, on a refnum that is not positive or on the sentinel returns at once
  (\<open>EvSkip\<close>); a call that throws is \<open>EvThrow\<close>.
\<close>

datatype tracker_op = OpInc "objref option" | OpIncRefnum int | OpDecRefnum int

datatype tracker_event = EvInc int | EvDec int | EvDecUnknown int | EvSkip | EvThrow exn

definition tracker_step :: "RefTracker \<Rightarrow> tracker_op \<Rightarrow> tracker_event \<times> RefTracker" where
  "tracker_step t op =
     (case op of
        OpInc value \<Rightarrow>
          (case RefTracker_Inc t value of
             (Inl e, t') \<Rightarrow> (EvThrow e, t')
           | (Inr r, t') \<Rightarrow> (if value = None then EvSkip else EvInc r, t'))
      | OpIncRefnum r \<Rightarrow>
          (case RefTracker_IncRefnum t r of
             (Inl e, t') \<Rightarrow> (EvThrow e, t')
           | (Inr u, t') \<Rightarrow> (if r \<le> 0 \<or> r = NullRefNum then EvSkip else EvInc r, t'))
      | OpDecRefnum r \<Rightarrow>
          (if r \<le> 0 \<or> r = NullRefNum then EvSkip
           else if refs t r = None then EvDecUnknown r else EvDec r,
           RefTracker_DecRefnum t r))"

fun tracker_run :: "RefTracker \<Rightarrow> tracker_op list \<Rightarrow> tracker_event list \<times> RefTracker" where
  "tracker_run t [] = ([], t)"
| "tracker_run t (op # ops) =
     (case tracker_step t op of
        (ev, t') \<Rightarrow> (case tracker_run t' ops of (evs, t'') \<Rightarrow> (ev # evs, t'')))"

definition increments :: "tracker_event list \<Rightarrow> int \<Rightarrow> int" where
  "increments evs r = int (count_list evs (EvInc r))"

definition decrements :: "tracker_event list \<Rightarrow> int \<Rightarrow> int" where
  "decrements evs r = int (count_list evs (EvDec r))"

text \<open>What holds of every tracker a schedule can reach.\<close>

definition tracker_inv :: "RefTracker \<Rightarrow> bool" where
  "tracker_inv t =
     (RefOffset \<le> nextRefnum t \<and> nextRefnum t \<le> int_MaxValue \<and>
      (\<forall>r e. refs t r = Some e \<longrightarrow>
         RefOffset \<le> r \<and> r < nextRefnum t \<and> 1 \<le> Count e \<and> Count e \<le> int_MaxValue \<and>
         objectRefs t (Value e) = Some r) \<and>
      (\<forall>v r. objectRefs t v = Some r \<longrightarrow> (\<exists>e. refs t r = Some e \<and> Value e = v)))"

definition cnt :: "RefTracker \<Rightarrow> int \<Rightarrow> int" where
  "cnt t r = (case refs t r of None \<Rightarrow> 0 | Some e \<Rightarrow> Count e)"

fun delta :: "tracker_event \<Rightarrow> int \<Rightarrow> int" where
  "delta (EvInc r') r = (if r = r' then 1 else 0)"
| "delta (EvDec r') r = (if r = r' then -1 else 0)"
| "delta _ r = 0"

text \<open>Concrete schedules and trackers, used where a statement is evaluated.\<close>

definition sampleImplements :: "objref \<Rightarrow> bool" where
  "sampleImplements v = True"

definition sampleOps :: "tracker_op list" where
  "sampleOps = [OpInc (Some 7), OpIncRefnum 42, OpInc (Some 7), OpDecRefnum 42, OpInc (Some 9),
                OpDecRefnum 42, OpDecRefnum 42, OpDecRefnum 43]"

definition sampleOpsOpen :: "tracker_op list" where
  "sampleOpsOpen = [OpInc (Some 7), OpIncRefnum 42, OpDecRefnum 42]"

definition fullTracker :: RefTracker where
  "fullTracker = \<lparr>nextRefnum = int_MaxValue, refs = Map.empty, objectRefs = Map.empty\<rparr>"

definition saturatedTracker :: RefTracker where
  "saturatedTracker =
     \<lparr>nextRefnum = 43, refs = [42 \<mapsto> \<lparr>Value = 7, Count = int_MaxValue\<rparr>], objectRefs = [7 \<mapsto> 42]\<rparr>"

section \<open>Reference runtime: strings and byte slices\<close>

text \<open>
  The wire structs of lines 400-414; an \<^verbatim>\<open>IntPtr\<close> is an address, \<^verbatim>\<open>IntPtr.Zero\<close>
  is 0. A managed \<^verbatim>\<open>string\<close> or \<^verbatim>\<open>byte[]\<close> is a reference that may be
  \<^verbatim>\<open>null\<close> (\<open>None\<close>).
\<close>

record NString =
  s_ptr :: nat
  s_len :: int

record NByteslice =
  b_ptr :: nat
  b_len :: int

text \<open>
  What the helpers call and the program does not define: the Go allocator behind
  \<^verbatim>\<open>Native.GoSeqAlloc\<close> and \<^verbatim>\<open>Native.GoSeqFree\<close>, the two directions of
  \<^verbatim>\<open>Marshal.Copy\<close>, and the UTF-8 coding of the .NET library. Native memory is of
  an arbitrary type \<open>'h\<close>; each of them is a parameter.
\<close>

record 'h natives =
  GoSeqAlloc :: "'h \<Rightarrow> int \<Rightarrow> nat \<times> 'h"
  GoSeqFree :: "'h \<Rightarrow> nat \<Rightarrow> 'h"
  Marshal_CopyTo :: "'h \<Rightarrow> string \<Rightarrow> nat \<Rightarrow> exn + 'h"
  Marshal_CopyFrom :: "'h \<Rightarrow> nat \<Rightarrow> int \<Rightarrow> exn + string"
  UTF8_GetBytes :: "string \<Rightarrow> string"
  PtrToStringUTF8 :: "'h \<Rightarrow> nat \<Rightarrow> int \<Rightarrow> exn + string option"

text \<open>\<^verbatim>\<open>Seq.Free\<close> (line 1532).\<close>

definition Seq_Free :: "'h natives \<Rightarrow> 'h \<Rightarrow> nat \<Rightarrow> 'h" where
  "Seq_Free N h p = (if p \<noteq> 0 then GoSeqFree N h p else h)"

text \<open>\<^verbatim>\<open>Seq.StringToNString\<close> (lines 1534-1542).\<close>

definition StringToNString :: "'h natives \<Rightarrow> 'h \<Rightarrow> string option \<Rightarrow> (exn + NString) \<times> 'h" where
  "StringToNString N h value =
     (if value = None \<or> value = Some [] then (Inr \<lparr>s_ptr = 0, s_len = 0\<rparr>, h)
      else let bytes = UTF8_GetBytes N (case value of Some s \<Rightarrow> s | None \<Rightarrow> []);
               (p, h1) = GoSeqAlloc N h (int (length bytes))
           in case Marshal_CopyTo N h1 bytes p of
                Inl e \<Rightarrow> (Inl e, h1)
              | Inr h2 \<Rightarrow> (Inr \<lparr>s_ptr = p, s_len = int (length bytes)\<rparr>, h2))"

text \<open>\<^verbatim>\<open>Seq.NStringToString\<close> (lines 1544-1551).\<close>

definition NStringToString :: "'h natives \<Rightarrow> 'h \<Rightarrow> NString \<Rightarrow> (exn + string option) \<times> 'h" where
  "NStringToString N h value =
     (if s_ptr value = 0 \<or> s_len value = 0 then (Inr (Some []), h)
      else case PtrToStringUTF8 N h (s_ptr value) (s_len value) of
             Inl e \<Rightarrow> (Inl e, h)
           | Inr result \<Rightarrow>
               (Inr (Some (case result of None \<Rightarrow> [] | Some s \<Rightarrow> s)), Seq_Free N h (s_ptr value)))"

text \<open>\<^verbatim>\<open>Seq.BytesToNByteslice\<close> (lines 1553-1560).\<close>

definition BytesToNByteslice :: "'h natives \<Rightarrow> 'h \<Rightarrow> string option \<Rightarrow> (exn + NByteslice) \<times> 'h" where
  "BytesToNByteslice N h value =
     (if value = None \<or> value = Some [] then (Inr \<lparr>b_ptr = 0, b_len = 0\<rparr>, h)
      else let bytes = (case value of Some s \<Rightarrow> s | None \<Rightarrow> []);
               (p, h1) = GoSeqAlloc N h (int (length bytes))
           in case Marshal_CopyTo N h1 bytes p of
                Inl e \<Rightarrow> (Inl e, h1)
              | Inr h2 \<Rightarrow> (Inr \<lparr>b_ptr = p, b_len = int (length bytes)\<rparr>, h2))"

text \<open>\<^verbatim>\<open>Seq.NBytesliceToBytes\<close> (lines 1562-1570).\<close>

definition NBytesliceToBytes ::
  "'h natives \<Rightarrow> 'h \<Rightarrow> NByteslice \<Rightarrow> bool \<Rightarrow> (exn + string option) \<times> 'h" where
  "NBytesliceToBytes N h value free =
     (if b_ptr value = 0 \<or> b_len value = 0 then (Inr (Some []), h)
      else case Marshal_CopyFrom N h (b_ptr value) (b_len value) of
             Inl e \<Rightarrow> (Inl e, h)
           | Inr result \<Rightarrow> (Inr (Some result), if free then Seq_Free N h (b_ptr value) else h))"

text \<open>A concrete instance of the parameters: memory as a table of blocks.\<close>

definition sampleNatives :: "(nat \<rightharpoonup> string) natives" where
  "sampleNatives =
     \<lparr>GoSeqAlloc = (\<lambda>h n. (Suc (card (dom h)), h)),
      GoSeqFree = (\<lambda>h p. h(p := None)),
      Marshal_CopyTo = (\<lambda>h bs p. if p = 0 then Inl ArgumentNullException else Inr (h(p \<mapsto> bs))),
      Marshal_CopyFrom = (\<lambda>h p n. case h p of
                                    None \<Rightarrow> Inl ArgumentNullException
                                  | Some bs \<Rightarrow> Inr (take (nat n) bs)),
      UTF8_GetBytes = (\<lambda>s. s),
      PtrToStringUTF8 = (\<lambda>h p n. case h p of
                                   None \<Rightarrow> Inl ArgumentNullException
                                 | Some bs \<Rightarrow> Inr (Some (take (nat n) bs)))\<rparr>"

section \<open>Go types and what the generator reads\<close>

text \<open>
  The types of \<^verbatim>\<open>go/types\<close> as far as the backend looks into them: the kind of a
  basic type, slices, pointers, and a named type with the package path of its object
  (\<open>None\<close> for the universe), its name and its underlying type. Of a struct type
  nothing more is read here; of an interface type only whether managed code may
  implement it (\<^verbatim>\<open>makeIfaceSummary(iface).implementable\<close>, computed outside the
  sources). Every other type (map, channel, array, signature, ...) is \<open>OtherType\<close>.
\<close>

datatype basic_kind =
    KInvalid | KBool | KInt | KInt8 | KInt16 | KInt32 | KInt64
  | KUint | KUint8 | KUint16 | KUint32 | KUint64 | KUintptr
  | KFloat32 | KFloat64 | KComplex64 | KComplex128 | KString | KUnsafePointer
  | KUntypedBool | KUntypedInt | KUntypedRune | KUntypedFloat | KUntypedComplex
  | KUntypedString | KUntypedNil

datatype gotype =
    Basic basic_kind
  | Slice gotype
  | Pointer gotype
  | Named "string option" string gotype
  | StructType
  | InterfaceType bool
  | OtherType

text \<open>
  Modelled from the spec: \<^verbatim>\<open>isErrorType\<close> is declared outside the sources. The spec
  (4.A): "The special unexported named \<open>error\<close> (package-less)"; lines 155, 162 and 215
  test for it in the same way.
\<close>

definition isErrorType :: "gotype \<Rightarrow> bool" where
  "isErrorType t = (case t of Named None n u \<Rightarrow> n = ''error'' | _ \<Rightarrow> False)"

text \<open>
  \<^verbatim>\<open>csNativeType\<close> (lines 233-274), the wire type. Where the source calls
  \<^verbatim>\<open>g.errorf\<close> it records a diagnostic and goes on to \<^verbatim>\<open>return "int"\<close>; the
  diagnostic is not part of the value.
\<close>

definition csNativeType :: "gotype \<Rightarrow> string" where
  "csNativeType t =
     (case t of
        Basic k \<Rightarrow>
          (case k of
             KBool \<Rightarrow> ''byte'' | KUntypedBool \<Rightarrow> ''byte''
           | KInt \<Rightarrow> ''long''
           | KInt8 \<Rightarrow> ''sbyte''
           | KInt16 \<Rightarrow> ''short''
           | KInt32 \<Rightarrow> ''int'' | KUntypedRune \<Rightarrow> ''int''
           | KInt64 \<Rightarrow> ''long'' | KUntypedInt \<Rightarrow> ''long''
           | KUint8 \<Rightarrow> ''byte''
           | KFloat32 \<Rightarrow> ''float''
           | KFloat64 \<Rightarrow> ''double'' | KUntypedFloat \<Rightarrow> ''double''
           | KString \<Rightarrow> ''NString'' | KUntypedString \<Rightarrow> ''NString''
           | _ \<Rightarrow> ''int'')
      | Slice elem \<Rightarrow> (case elem of Basic KUint8 \<Rightarrow> ''NByteslice'' | _ \<Rightarrow> ''int'')
      | Pointer e \<Rightarrow> ''int''
      | Named p n u \<Rightarrow> ''int''
      | _ \<Rightarrow> ''int'')"

text \<open>\<^verbatim>\<open>indirectNamed\<close> (lines 850-859).\<close>

fun indirectNamed :: "gotype \<Rightarrow> gotype option" where
  "indirectNamed (Pointer e) = indirectNamed e"
| "indirectNamed (Named p n u) = Some (Named p n u)"
| "indirectNamed t = None"

text \<open>\<^verbatim>\<open>isRefnumType\<close> (lines 863-875).\<close>

definition isRefnumType :: "gotype \<Rightarrow> bool" where
  "isRefnumType t =
     (case t of
        Pointer e \<Rightarrow> (case e of Named p n u \<Rightarrow> True | _ \<Rightarrow> False)
      | Named p n u \<Rightarrow> (case u of InterfaceType i \<Rightarrow> True | StructType \<Rightarrow> True | _ \<Rightarrow> False)
      | _ \<Rightarrow> False)"

text \<open>
  A function or method: its Go name, its parameters and the types of its results. The
  name of a parameter is what \<^verbatim>\<open>g.paramName(params, i)\<close> returns for it.
\<close>

record gofunc =
  fname :: string
  fparams :: "(string \<times> gotype) list"
  fresults :: "gotype list"

text \<open>
  A struct of \<^verbatim>\<open>g.structs\<close> with its exported fields and the exported methods of
  its pointer type (\<^verbatim>\<open>exportedFields\<close>, \<^verbatim>\<open>exportedMethodSet\<close>), and an interface
  of \<^verbatim>\<open>g.interfaces\<close> with \<^verbatim>\<open>iface.summary.callable\<close>.
\<close>

record structInfo =
  sname :: string
  sfields :: "(string \<times> gotype) list"
  smethods :: "gofunc list"

record interfaceInfo =
  iname :: string
  callable :: "gofunc list"

text \<open>
  What the backend reads of the embedded \<^verbatim>\<open>*Generator\<close>. Its methods
  \<^verbatim>\<open>isSupported\<close>, \<^verbatim>\<open>isSigSupported\<close> and \<^verbatim>\<open>constructorType\<close> are declared
  outside the sources: they are fields here, that is parameters of everything below.
  \<^verbatim>\<open>constructorType\<close> gives the name of the struct a function constructs.
\<close>

record Generator =
  pkgPrefix :: string
  funcs :: "gofunc list"
  vars :: "(string \<times> gotype) list"
  structs :: "structInfo list"
  interfaces :: "interfaceInfo list"
  isSupported :: "gotype \<Rightarrow> bool"
  isSigSupported :: "gofunc \<Rightarrow> bool"
  constructorType :: "gofunc \<Rightarrow> string option"

text \<open>\<^verbatim>\<open>proxyFuncName\<close> (lines 319-321) and the name of a callback (lines 444, 1332).\<close>

definition proxyFuncName :: "Generator \<Rightarrow> string \<Rightarrow> string \<Rightarrow> string" where
  "proxyFuncName g objName funcName = ''proxy'' @ pkgPrefix g @ ''_'' @ objName @ ''_'' @ funcName"

definition cproxyName :: "Generator \<Rightarrow> string \<Rightarrow> string \<Rightarrow> string" where
  "cproxyName g ifaceName methodName =
     ''cproxy'' @ pkgPrefix g @ ''_'' @ ifaceName @ ''_'' @ methodName"

subsection \<open>Constructors of a struct class\<close>

text \<open>\<^verbatim>\<open>isConsSigSupported\<close> (lines 326-341).\<close>

definition isConsSigSupported :: "Generator \<Rightarrow> gofunc \<Rightarrow> bool" where
  "isConsSigSupported g f =
     (if \<not> isSigSupported g f then False
      else case fparams f of
             [p] \<Rightarrow>
               (case snd p of
                  Basic k \<Rightarrow> (case k of KInt32 \<Rightarrow> False | KUint32 \<Rightarrow> False | _ \<Rightarrow> True)
                | _ \<Rightarrow> True)
           | _ \<Rightarrow> True)"

text \<open>
  The loop of \<^verbatim>\<open>genStructClass\<close> that collects the constructors (lines 885-897):
  the list and \<^verbatim>\<open>hasDefaultConstructor\<close>. One public constructor is then printed
  for each function of the list (lines 910-912).
\<close>

fun collectConstructors ::
  "Generator \<Rightarrow> structInfo \<Rightarrow> gofunc list \<Rightarrow> gofunc list \<times> bool \<Rightarrow> gofunc list \<times> bool" where
  "collectConstructors g s [] acc = acc"
| "collectConstructors g s (f # fs) (constructors, hasDefaultConstructor) =
     (if constructorType g f = Some (sname s)
      then if \<not> isConsSigSupported g f
           then collectConstructors g s fs (constructors, hasDefaultConstructor)
           else collectConstructors g s fs
                  (constructors @ [f], hasDefaultConstructor \<or> fparams f = [])
      else collectConstructors g s fs (constructors, hasDefaultConstructor))"

definition publicConstructors :: "Generator \<Rightarrow> structInfo \<Rightarrow> gofunc list" where
  "publicConstructors g s = fst (collectConstructors g s (funcs g) ([], False))"

text \<open>The parameter list that the exclusion is about.\<close>

definition singleInt32Param :: "gofunc \<Rightarrow> bool" where
  "singleInt32Param f =
     (case fparams f of
        [p] \<Rightarrow> snd p = Basic KInt32 \<or> snd p = Basic KUint32
      | _ \<Rightarrow> False)"

subsection \<open>Return-shape collector\<close>

text \<open>
  \<^verbatim>\<open>collectReturnStructs\<close> (lines 417-448). The Go map is a list of pairs with
  distinct keys. The calls of \<^verbatim>\<open>collectStruct\<close> are made in the order of
  \<open>registrations\<close>.
\<close>

definition collectStruct ::
  "string \<Rightarrow> gotype list \<Rightarrow> (string \<times> gotype list) list \<Rightarrow> (string \<times> gotype list) list" where
  "collectStruct cName res returnStructs =
     (if length res \<le> 1 then returnStructs
      else if map_of returnStructs cName \<noteq> None then returnStructs
      else returnStructs @ [(cName, res)])"

definition registrations :: "Generator \<Rightarrow> (string \<times> gotype list) list" where
  "registrations g =
     map (\<lambda>f. (proxyFuncName g [] (fname f), fresults f)) (funcs g) @
     concat (map (\<lambda>s. map (\<lambda>m. (proxyFuncName g (sname s) (fname m), fresults m)) (smethods s))
               (structs g)) @
     concat (map (\<lambda>i. concat (map (\<lambda>m. [(proxyFuncName g (iname i) (fname m), fresults m),
                                          (cproxyName g (iname i) (fname m), fresults m)])
                               (callable i)))
               (interfaces g))"

definition collectReturnStructs :: "Generator \<Rightarrow> (string \<times> gotype list) list" where
  "collectReturnStructs g = foldl (\<lambda>rs (cName, res). collectStruct cName res rs) [] (registrations g)"

text \<open>
  \<^verbatim>\<open>emitReturnStructs\<close> (lines 450-468). A printed struct is its name and its
  fields, each \<^verbatim>\<open>public <type> r<i>;\<close>. \<^verbatim>\<open>sort.Strings\<close> orders byte by byte, as
  the order of \<^typ>\<open>string\<close> does. \<^verbatim>\<open>csReturnStructName\<close> (lines 276-278) sanitizes
  the name; the sanitizer is the parameter \<open>ident\<close> here.
\<close>

record returnStruct =
  canonical :: string
  structName :: string
  rfields :: "(string \<times> nat) list"

definition csReturnStructName :: "(string \<Rightarrow> string) \<Rightarrow> string \<Rightarrow> string" where
  "csReturnStructName ident cName = ident (''CProxy_'' @ cName @ ''_Return'')"

definition emitReturnStructs ::
  "(string \<Rightarrow> string) \<Rightarrow> (string \<times> gotype list) list \<Rightarrow> returnStruct list" where
  "emitReturnStructs ident returnStructs =
     map (\<lambda>name.
            \<lparr>canonical = name,
             structName = csReturnStructName ident name,
             rfields = (case map_of returnStructs name of
                         None \<Rightarrow> []
                       | Some fs \<Rightarrow> map (\<lambda>(i, field). (csNativeType field, i)) (enumerate 0 fs))\<rparr>)
         (sort (map fst returnStructs))"

text \<open>The first registration of a name that has more than one result.\<close>

definition firstRegistration :: "Generator \<Rightarrow> string \<Rightarrow> gotype list option" where
  "firstRegistration g cName =
     map_option snd (find (\<lambda>(c, res). c = cName \<and> 1 < length res) (registrations g))"

text \<open>A concrete package, used where a statement is evaluated.\<close>

definition errorType :: gotype where
  "errorType = Named None ''error'' (InterfaceType True)"

definition fooType :: gotype where
  "fooType = Pointer (Named (Some ''example/pkg'') ''Foo'' StructType)"

definition sampleSupported :: "gotype \<Rightarrow> bool" where
  "sampleSupported t =
     (case t of
        Basic k \<Rightarrow> k \<in> set [KBool, KInt, KInt8, KInt16, KInt32, KInt64, KUint8, KFloat32, KFloat64,
                             KString, KUntypedBool, KUntypedInt, KUntypedRune, KUntypedFloat,
                             KUntypedString]
      | Slice e \<Rightarrow> e = Basic KUint8
      | Pointer e \<Rightarrow> (case e of Named p n u \<Rightarrow> True | _ \<Rightarrow> False)
      | Named p n u \<Rightarrow> (case u of InterfaceType i \<Rightarrow> True | StructType \<Rightarrow> True | _ \<Rightarrow> False)
      | _ \<Rightarrow> False)"

definition sampleSigSupported :: "gofunc \<Rightarrow> bool" where
  "sampleSigSupported f =
     (list_all (\<lambda>p. sampleSupported (snd p)) (fparams f) \<and> list_all sampleSupported (fresults f))"

definition sampleConstructorType :: "gofunc \<Rightarrow> string option" where
  "sampleConstructorType f =
     (case fresults f of
        Pointer (Named p n u) # rest \<Rightarrow> if take 3 (fname f) = ''New'' then Some n else None
      | _ \<Rightarrow> None)"

definition newFoo32 :: gofunc where
  "newFoo32 = \<lparr>fname = ''NewFoo'', fparams = [(''id'', Basic KInt32)], fresults = [fooType]\<rparr>"

definition newFoo64 :: gofunc where
  "newFoo64 = \<lparr>fname = ''NewFooWide'', fparams = [(''id'', Basic KInt64)], fresults = [fooType]\<rparr>"

definition newFooNamed :: gofunc where
  "newFooNamed =
     \<lparr>fname = ''NewFooNamed'', fparams = [(''name'', Basic KString), (''n'', Basic KInt32)],
      fresults = [fooType, errorType]\<rparr>"

definition parseFunc :: gofunc where
  "parseFunc = \<lparr>fname = ''Parse'', fparams = [(''s'', Basic KString)],
                fresults = [Basic KInt, errorType]\<rparr>"

definition pingFunc :: gofunc where
  "pingFunc = \<lparr>fname = ''Ping'', fparams = [], fresults = []\<rparr>"

definition loadMethod :: gofunc where
  "loadMethod = \<lparr>fname = ''Load'', fparams = [(''key'', Basic KString)],
                 fresults = [fooType, errorType]\<rparr>"

definition pushMethod :: gofunc where
  "pushMethod = \<lparr>fname = ''Push'', fparams = [(''n'', Basic KInt)], fresults = []\<rparr>"

definition fooStruct :: structInfo where
  "fooStruct = \<lparr>sname = ''Foo'', sfields = [(''Size'', Basic KInt)], smethods = [loadMethod]\<rparr>"

definition sinkIface :: interfaceInfo where
  "sinkIface = \<lparr>iname = ''Sink'', callable = [pushMethod, loadMethod]\<rparr>"

definition samplePkg :: Generator where
  "samplePkg =
     \<lparr>pkgPrefix = ''pkg'',
      funcs = [newFoo32, parseFunc, newFoo64, newFooNamed, pingFunc],
      vars = [(''Level'', Basic KInt)],
      structs = [fooStruct],
      interfaces = [sinkIface],
      isSupported = sampleSupported,
      isSigSupported = sampleSigSupported,
      constructorType = sampleConstructorType\<rparr>"

definition sampleIdent :: "string \<Rightarrow> string" where
  "sampleIdent = csIdentifier (newNameSanitizer ''_'' csharpKeywords) sampleWidth sampleIsLetter"

section \<open>The C# that the generator prints\<close>

text \<open>
  The generator prints C# with \<^verbatim>\<open>g.Printf\<close>. A printed statement is a value of
  \<open>cs_stmt\<close>, one constructor for each statement form the backend prints inside a
  method body; the namespace prefix, indentation and the signature line carry no
  behaviour and are left out. Operands that the source passes as text (\<^verbatim>\<open>"res"\<close>,
  \<^verbatim>\<open>"res.r0"\<close>, a parameter name) are \<open>EVar\<close> and \<open>EField\<close>.
  \<^item> \<open>ECastNative t e\<close> is \<^verbatim>\<open>(T)e\<close> with \<^verbatim>\<open>T = csNativeType(t)\<close>,
    \<open>ECastManaged t e\<close> the same with \<^verbatim>\<open>T = csType(t)\<close>.
  \<^item> \<open>EFromRefnum k n e\<close> is \<^verbatim>\<open>C.FromRefnum(e)\<close> where \<open>C\<close> is the proxy class of
    the interface named \<open>n\<close> (\<open>InterfaceProxy\<close>) or the class of the struct named \<open>n\<close>.
  \<^item> \<open>SEnsureRegistered n\<close> is \<^verbatim>\<open>P.EnsureRegistered();\<close> for the proxy class \<open>P\<close>
    of the interface named \<open>n\<close>.
  \<^item> \<open>ERecord c e0 e1\<close> is \<^verbatim>\<open>new S { r0 = e0, r1 = e1 }\<close> where \<open>S\<close> is the return
    struct of the callable with canonical name \<open>c\<close>.
  \<^item> \<open>STryNoCatch\<close> is a \<^verbatim>\<open>try\<close> block closed without a \<^verbatim>\<open>catch\<close>, which is
    not C#.
\<close>

datatype proxy_kind = InterfaceProxy | StructClass

datatype cs_expr =
    EVar string
  | EField string nat
  | EBoolToByte cs_expr
  | EStringToNString cs_expr
  | EBytesToNByteslice cs_expr
  | EIncRef cs_expr
  | ECastNative gotype cs_expr
  | ECastManaged gotype cs_expr
  | ENotZero cs_expr
  | ENStringToString cs_expr
  | ENBytesliceToBytes cs_expr bool
  | EFromRefnum proxy_kind string cs_expr
  | ENull
  | ENullRefNum
  | EZero
  | ENewNString
  | ENewNByteslice
  | ENative string "string list"
  | ECall string "string list"
  | EGetRef string
  | EIncRefNewGoError
  | ERecord string cs_expr cs_expr

datatype cs_stmt =
    SThrowIfDisposed
  | SThrowIfPendingException
  | SIncGoRef
  | SEnsureRegistered string
  | SVarDecl string cs_expr
  | SExpr cs_expr
  | SFreeNativeParam string
  | SIfNotNullRefNum cs_expr "cs_stmt list"
  | SDestroyRef cs_expr
  | SThrowIfError cs_expr
  | SAssignRefnum cs_expr
  | SReturn cs_expr
  | SReturnVoid
  | SReportUnhandledException string
  | STryCatch "cs_stmt list" "cs_stmt list"
  | STryNoCatch "cs_stmt list"

record cs_method =
  m_name :: string
  m_body :: "cs_stmt list"

datatype varMode = modeTransient | modeRetained

definition isBoolKind :: "basic_kind \<Rightarrow> bool" where
  "isBoolKind k = (k = KBool \<or> k = KUntypedBool)"

definition isStringKind :: "basic_kind \<Rightarrow> bool" where
  "isStringKind k = (k = KString \<or> k = KUntypedString)"

text \<open>\<^verbatim>\<open>nativeParamName\<close> (lines 734-736).\<close>

definition nativeParamName :: "string \<Rightarrow> string" where
  "nativeParamName name = ''_'' @ name"

text \<open>
  The test of lines 753-757 and 770-774: the type is, behind pointers, a named type
  whose underlying type is an interface that managed code may implement. The result is
  the name of the interface.
\<close>

definition implementableInterface :: "gotype \<Rightarrow> string option" where
  "implementableInterface t =
     (case indirectNamed t of
        Some (Named p n u) \<Rightarrow> (case u of InterfaceType True \<Rightarrow> Some n | _ \<Rightarrow> None)
      | _ \<Rightarrow> None)"

text \<open>\<^verbatim>\<open>emitToNativeParam\<close> (lines 738-767); the mode changes nothing in it.\<close>

definition emitToNativeParam :: "string \<Rightarrow> gotype \<Rightarrow> varMode \<Rightarrow> cs_stmt list" where
  "emitToNativeParam name t mode =
     (case t of
        Basic k \<Rightarrow>
          if isBoolKind k then [SVarDecl (nativeParamName name) (EBoolToByte (EVar name))]
          else if isStringKind k then [SVarDecl (nativeParamName name) (EStringToNString (EVar name))]
          else [SVarDecl (nativeParamName name) (ECastNative t (EVar name))]
      | Slice e \<Rightarrow> [SVarDecl (nativeParamName name) (EBytesToNByteslice (EVar name))]
      | Pointer e \<Rightarrow>
          (case implementableInterface t of Some n \<Rightarrow> [SEnsureRegistered n] | None \<Rightarrow> []) @
          [SVarDecl (nativeParamName name) (EIncRef (EVar name))]
      | Named p n u \<Rightarrow>
          (case implementableInterface t of Some n \<Rightarrow> [SEnsureRegistered n] | None \<Rightarrow> []) @
          [SVarDecl (nativeParamName name) (EIncRef (EVar name))]
      | _ \<Rightarrow> [SVarDecl (nativeParamName name) (ECastNative t (EVar name))])"

text \<open>\<^verbatim>\<open>emitEnsureRegisteredForReturn\<close> (lines 769-775).\<close>

definition emitEnsureRegisteredForReturn :: "gotype \<Rightarrow> cs_stmt list" where
  "emitEnsureRegisteredForReturn t =
     (case implementableInterface t of Some n \<Rightarrow> [SEnsureRegistered n] | None \<Rightarrow> [])"

text \<open>\<^verbatim>\<open>shouldFreeAfterCall\<close> (lines 777-790) and \<^verbatim>\<open>emitFreeNativeParam\<close> (792-795).\<close>

definition shouldFreeAfterCall :: "gotype \<Rightarrow> varMode \<Rightarrow> bool" where
  "shouldFreeAfterCall t mode =
     (if mode = modeRetained then False
      else case t of
             Slice e \<Rightarrow> (case e of Basic k \<Rightarrow> k = KUint8 | _ \<Rightarrow> False)
           | _ \<Rightarrow> False)"

definition emitFreeNativeParam :: "string \<Rightarrow> cs_stmt" where
  "emitFreeNativeParam name = SFreeNativeParam (nativeParamName name)"

text \<open>\<^verbatim>\<open>managedFromNativeExpr\<close> (lines 805-830) and its two callers (797-803).\<close>

definition managedFromNativeExpr :: "cs_expr \<Rightarrow> gotype \<Rightarrow> bool \<Rightarrow> cs_expr" where
  "managedFromNativeExpr source t freeBytes =
     (case t of
        Basic k \<Rightarrow>
          if isBoolKind k then ENotZero source
          else if isStringKind k then ENStringToString source
          else ECastManaged t source
      | Slice e \<Rightarrow> ENBytesliceToBytes source freeBytes
      | Pointer e \<Rightarrow>
          (case indirectNamed t of
             Some (Named p n u) \<Rightarrow>
               (case u of
                  InterfaceType i \<Rightarrow> EFromRefnum InterfaceProxy n source
                | _ \<Rightarrow> EFromRefnum StructClass n source)
           | _ \<Rightarrow> ENull)
      | Named p n u \<Rightarrow>
          (case u of
             InterfaceType i \<Rightarrow> EFromRefnum InterfaceProxy n source
           | _ \<Rightarrow> EFromRefnum StructClass n source)
      | _ \<Rightarrow> ENull)"

definition emitFromNativeReturn :: "cs_expr \<Rightarrow> gotype \<Rightarrow> bool \<Rightarrow> cs_stmt" where
  "emitFromNativeReturn source t freeBytes = SReturn (managedFromNativeExpr source t freeBytes)"

definition emitFromNativeValue :: "string \<Rightarrow> cs_expr \<Rightarrow> gotype \<Rightarrow> bool \<Rightarrow> cs_stmt" where
  "emitFromNativeValue target source t freeBytes =
     SVarDecl target (managedFromNativeExpr source t freeBytes)"

subsection \<open>Wrappers that call into Go\<close>

text \<open>
  The \<^verbatim>\<open>switch res.Len()\<close> of a package function and of a struct method (lines
  643-664, 981-1002): \<open>None\<close> where the member is given up with a diagnostic, else
  \<^verbatim>\<open>returnsError\<close>. The switch of an interface method (lines 1214-1232) has no
  \<^verbatim>\<open>default\<close> case.
\<close>

definition callableShape :: "gotype list \<Rightarrow> bool option" where
  "callableShape res =
     (case res of
        [] \<Rightarrow> Some False
      | [t] \<Rightarrow> Some (isErrorType t)
      | [t, e] \<Rightarrow> if isErrorType e then Some True else None
      | _ \<Rightarrow> None)"

definition interfaceCallableShape :: "gotype list \<Rightarrow> bool option" where
  "interfaceCallableShape res =
     (case res of
        [] \<Rightarrow> Some False
      | [t] \<Rightarrow> Some (isErrorType t)
      | [t, e] \<Rightarrow> if isErrorType e then Some True else None
      | _ \<Rightarrow> Some False)"

text \<open>
  The statements up to and including the native call and the frees after it, as
  \<^verbatim>\<open>emitPackageFunctions\<close> prints them (lines 675-695); a method passes
  \<^verbatim>\<open>refnum\<close> first (lines 1015-1032, 1244-1261).
\<close>

definition nativeCall :: "string \<Rightarrow> bool \<Rightarrow> gofunc \<Rightarrow> cs_stmt list" where
  "nativeCall cName withRefnum f =
     concat (map (\<lambda>p. emitToNativeParam (fst p) (snd p) modeTransient) (fparams f)) @
     [let args = (if withRefnum then [''refnum''] else []) @
                 map (\<lambda>p. nativeParamName (fst p)) (fparams f)
      in if fresults f \<noteq> [] then SVarDecl ''res'' (ENative cName args)
         else SExpr (ENative cName args)] @
     map (\<lambda>p. emitFreeNativeParam (fst p))
       (filter (\<lambda>p. shouldFreeAfterCall (snd p) modeTransient) (fparams f))"

text \<open>
  What follows the call (lines 697-728; lines 1034-1065 and 1263-1294 are the same
  text).
\<close>

definition resultTail :: "gotype list \<Rightarrow> bool \<Rightarrow> cs_stmt list" where
  "resultTail res returnsError =
     (if res = [] then []
      else if length res = 1 \<and> \<not> returnsError
      then [emitFromNativeReturn (EVar ''res'') (res ! 0) True]
      else if returnsError
      then if length res = 2
           then (if isRefnumType (res ! 0)
                 then [SIfNotNullRefNum (EField ''res'' 1)
                         [SDestroyRef (EField ''res'' 0), SThrowIfError (EField ''res'' 1)]]
                 else []) @
                [emitFromNativeValue ''value'' (EField ''res'' 0) (res ! 0) True] @
                (if \<not> isRefnumType (res ! 0) then [SThrowIfError (EField ''res'' 1)] else []) @
                [SReturn (EVar ''value'')]
           else [SThrowIfError (EVar ''res'')]
      else [])"

text \<open>One round of the loop of \<^verbatim>\<open>emitPackageFunctions\<close> (lines 632-733).\<close>

definition emitPackageFunction :: "Generator \<Rightarrow> gofunc \<Rightarrow> cs_method option" where
  "emitPackageFunction g f =
     (if \<not> isSigSupported g f then None
      else case callableShape (fresults f) of
             None \<Rightarrow> None
           | Some returnsError \<Rightarrow>
               Some \<lparr>m_name = fname f,
                     m_body = nativeCall (proxyFuncName g [] (fname f)) False f @
                              resultTail (fresults f) returnsError\<rparr>)"

definition emitPackageFunctions :: "Generator \<Rightarrow> cs_method list" where
  "emitPackageFunctions g = List.map_filter (emitPackageFunction g) (funcs g)"

text \<open>
  One round of the loop of \<^verbatim>\<open>emitPackageVariables\<close> (lines 607-630): the getter and
  the setter of the property.
\<close>

definition emitPackageVariable :: "Generator \<Rightarrow> string \<times> gotype \<Rightarrow> (cs_method \<times> cs_method) option" where
  "emitPackageVariable g v =
     (if \<not> isSupported g (snd v) then None
      else Some
        (\<lparr>m_name = fst v,
          m_body = [SVarDecl ''res'' (ENative (''var_get'' @ pkgPrefix g @ ''_'' @ fst v) []),
                    emitFromNativeReturn (EVar ''res'') (snd v) True]\<rparr>,
         \<lparr>m_name = fst v,
          m_body = emitToNativeParam ''value'' (snd v) modeRetained @
                   [SExpr (ENative (''var_set'' @ pkgPrefix g @ ''_'' @ fst v)
                             [nativeParamName ''value''])]\<rparr>))"

definition emitPackageVariables :: "Generator \<Rightarrow> (cs_method \<times> cs_method) list" where
  "emitPackageVariables g = List.map_filter (emitPackageVariable g) (vars g)"

text \<open>The head of every instance member (lines 952-953, 960-961, 1013-1014, 1242-1243).\<close>

definition instancePrologue :: "cs_stmt list" where
  "instancePrologue = [SThrowIfDisposed, SThrowIfPendingException, SIncGoRef]"

text \<open>\<^verbatim>\<open>genStructClass\<close>: a field (lines 943-968) and a method (lines 971-1069).\<close>

definition genStructField ::
  "Generator \<Rightarrow> structInfo \<Rightarrow> string \<times> gotype \<Rightarrow> (cs_method \<times> cs_method) option" where
  "genStructField g s fld =
     (if \<not> isSupported g (snd fld) then None
      else Some
        (\<lparr>m_name = fst fld,
          m_body = instancePrologue @
                   [SVarDecl ''res'' (ENative (proxyFuncName g (sname s) (fst fld) @ ''_Get'')
                                        [''refnum'']),
                    emitFromNativeReturn (EVar ''res'') (snd fld) True]\<rparr>,
         \<lparr>m_name = fst fld,
          m_body = instancePrologue @
                   emitToNativeParam ''value'' (snd fld) modeRetained @
                   [SExpr (ENative (proxyFuncName g (sname s) (fst fld) @ ''_Set'')
                             [''refnum'', nativeParamName ''value''])]\<rparr>))"

definition genStructMethod :: "Generator \<Rightarrow> structInfo \<Rightarrow> gofunc \<Rightarrow> cs_method option" where
  "genStructMethod g s m =
     (if \<not> isSigSupported g m then None
      else case callableShape (fresults m) of
             None \<Rightarrow> None
           | Some returnsError \<Rightarrow>
               Some \<lparr>m_name = fname m,
                     m_body = instancePrologue @
                              nativeCall (proxyFuncName g (sname s) (fname m)) True m @
                              resultTail (fresults m) returnsError\<rparr>)"

text \<open>\<^verbatim>\<open>genConstructorFromFunc\<close> (lines 1075-1124), called for each public constructor.\<close>

definition genConstructorFromFunc :: "Generator \<Rightarrow> string \<Rightarrow> gofunc \<Rightarrow> cs_method" where
  "genConstructorFromFunc g className f =
     (let res = fresults f;
          returnsError = (length res = 2 \<and> isErrorType (res ! 1))
      in \<lparr>m_name = className,
          m_body =
            concat (map (\<lambda>p. emitToNativeParam (fst p) (snd p) modeTransient) (fparams f)) @
            [SVarDecl ''res'' (ENative (proxyFuncName g [] (fname f))
                                 (map (\<lambda>p. nativeParamName (fst p)) (fparams f)))] @
            map (\<lambda>p. emitFreeNativeParam (fst p))
              (filter (\<lambda>p. shouldFreeAfterCall (snd p) modeTransient) (fparams f)) @
            (if returnsError
             then [SAssignRefnum (EField ''res'' 0),
                   SIfNotNullRefNum (EField ''res'' 1)
                     [SDestroyRef (EVar ''refnum''), SThrowIfError (EField ''res'' 1)]]
             else [SAssignRefnum (EVar ''res'')])\<rparr>)"

text \<open>The loop that prints a constructor for each collected function (lines 910-912).\<close>

definition genConstructors :: "Generator \<Rightarrow> structInfo \<Rightarrow> cs_method list" where
  "genConstructors g s = map (genConstructorFromFunc g (sname s)) (publicConstructors g s)"

text \<open>\<^verbatim>\<open>genInterface\<close>: a method of the proxy class that calls Go (lines 1205-1297).\<close>

definition genProxyMethod :: "Generator \<Rightarrow> interfaceInfo \<Rightarrow> gofunc \<Rightarrow> cs_method option" where
  "genProxyMethod g i m =
     (if \<not> isSigSupported g m then None
      else case interfaceCallableShape (fresults m) of
             None \<Rightarrow> None
           | Some returnsError \<Rightarrow>
               Some \<lparr>m_name = fname m,
                     m_body = instancePrologue @
                              nativeCall (proxyFuncName g (iname i) (fname m)) True m @
                              resultTail (fresults m) returnsError\<rparr>)"

subsection \<open>Callback trampolines\<close>

text \<open>\<^verbatim>\<open>emitFromNativeParam\<close> (lines 1432-1458) and \<^verbatim>\<open>callArgs\<close> (1460-1467).\<close>

definition emitFromNativeParam :: "string \<Rightarrow> gotype \<Rightarrow> cs_stmt" where
  "emitFromNativeParam name t =
     SVarDecl (name @ ''Value'')
       (case t of
          Basic k \<Rightarrow>
            if isBoolKind k then ENotZero (EVar name)
            else if isStringKind k then ENStringToString (EVar name)
            else ECastManaged t (EVar name)
        | Slice e \<Rightarrow> ENBytesliceToBytes (EVar name) False
        | Pointer e \<Rightarrow>
            (case indirectNamed t of
               Some (Named p n u) \<Rightarrow>
                 (case u of
                    InterfaceType i \<Rightarrow> EFromRefnum InterfaceProxy n (EVar name)
                  | _ \<Rightarrow> EFromRefnum StructClass n (EVar name))
             | _ \<Rightarrow> ECastManaged t (EVar name))
        | Named p n u \<Rightarrow>
            (case u of
               InterfaceType i \<Rightarrow> EFromRefnum InterfaceProxy n (EVar name)
             | _ \<Rightarrow> EFromRefnum StructClass n (EVar name))
        | _ \<Rightarrow> ECastManaged t (EVar name))"

definition callArgs :: "(string \<times> gotype) list \<Rightarrow> string list" where
  "callArgs params = map (\<lambda>p. fst p @ ''Value'') params"

text \<open>\<^verbatim>\<open>nativeValueExpression\<close> (lines 1469-1487) and \<^verbatim>\<open>emitToNativeReturn\<close>.\<close>

definition nativeValueExpression :: "string \<Rightarrow> gotype \<Rightarrow> cs_expr" where
  "nativeValueExpression name t =
     (case t of
        Basic k \<Rightarrow>
          if isBoolKind k then EBoolToByte (EVar name)
          else if isStringKind k then EStringToNString (EVar name)
          else ECastNative t (EVar name)
      | Slice e \<Rightarrow> EBytesToNByteslice (EVar name)
      | Pointer e \<Rightarrow> EIncRef (EVar name)
      | Named p n u \<Rightarrow> EIncRef (EVar name)
      | _ \<Rightarrow> ECastNative t (EVar name))"

definition emitToNativeReturn :: "string \<Rightarrow> gotype \<Rightarrow> cs_stmt" where
  "emitToNativeReturn name t = SReturn (nativeValueExpression name t)"

text \<open>\<^verbatim>\<open>defaultNativeReturn\<close> (lines 1493-1511).\<close>

definition defaultNativeReturn :: "gotype \<Rightarrow> cs_expr" where
  "defaultNativeReturn t =
     (case t of
        Basic k \<Rightarrow>
          if isBoolKind k then EZero
          else if isStringKind k then ENewNString
          else EZero
      | Slice e \<Rightarrow> ENewNByteslice
      | Pointer e \<Rightarrow> ENullRefNum
      | Named p n u \<Rightarrow> ENullRefNum
      | _ \<Rightarrow> EZero)"

text \<open>
  The body of a trampoline, one round of the last loop of \<^verbatim>\<open>genInterface\<close> (lines
  1315-1426). \<^verbatim>\<open>ProxyError\<close> is the proxy class of the interface \<^verbatim>\<open>error\<close>.
\<close>

definition trampolinePrologue :: "interfaceInfo \<Rightarrow> gofunc \<Rightarrow> cs_stmt list" where
  "trampolinePrologue i m =
     SVarDecl ''instance'' (EGetRef (iname i)) #
     map (\<lambda>p. emitFromNativeParam (fst p) (snd p)) (fparams m)"

definition genTrampoline :: "Generator \<Rightarrow> interfaceInfo \<Rightarrow> gofunc \<Rightarrow> cs_method option" where
  "genTrampoline g i m =
     (if \<not> isSigSupported g m then None
      else
        let res = fresults m;
            callExpr = ECall (fname m) (callArgs (fparams m));
            methodName = iname i @ ''.'' @ fname m;
            returnsErrorOnly = (length res = 1 \<and> isErrorType (res ! 0));
            returnsValueAndError = (length res = 2 \<and> isErrorType (res ! 1));
            cName = cproxyName g (iname i) (fname m)
        in Some \<lparr>m_name = ''Callback_'' @ fname m @ ''Impl'',
                 m_body =
                   (if res = []
                    then [STryCatch (trampolinePrologue i m @ [SExpr callExpr])
                            [SReportUnhandledException methodName],
                          SReturnVoid]
                    else if returnsErrorOnly
                    then [STryCatch
                            (trampolinePrologue i m @ [SExpr callExpr, SReturn ENullRefNum])
                            [SEnsureRegistered ''error'', SReturn EIncRefNewGoError]]
                    else if length res = 1
                    then [STryCatch
                            (trampolinePrologue i m @
                             emitEnsureRegisteredForReturn (res ! 0) @
                             [SVarDecl ''result'' callExpr, emitToNativeReturn ''result'' (res ! 0)])
                            [SReportUnhandledException methodName,
                             SReturn (defaultNativeReturn (res ! 0))]]
                    else if returnsValueAndError
                    then [STryCatch
                            (trampolinePrologue i m @
                             emitEnsureRegisteredForReturn (res ! 0) @
                             [SVarDecl ''value'' callExpr,
                              SVarDecl ''error'' ENullRefNum,
                              SReturn (ERecord cName
                                         (nativeValueExpression ''value'' (res ! 0))
                                         (EVar ''error''))])
                            [SEnsureRegistered ''error'',
                             SVarDecl ''error'' EIncRefNewGoError,
                             SReturn (ERecord cName (defaultNativeReturn (res ! 0))
                                        (EVar ''error''))]]
                    else [STryNoCatch (trampolinePrologue i m)])\<rparr>)"

section \<open>What the printed C# does\<close>

text \<open>
  The values that cross the boundary or live in a local variable: an integer (a refnum,
  a byte, a number), a managed reference, the two wire structs, a return record, and any
  other managed value (a string, an array), of which nothing is known.
\<close>

datatype wire =
    WUnit
  | WInt int
  | WRef managed
  | WNStr NString
  | WNBytes NByteslice
  | WRecord wire wire
  | WData nat

text \<open>
  What the runtime does outside itself: calls of \<^verbatim>\<open>Native\<close>, the user's handler,
  the console, \<^verbatim>\<open>Environment.FailFast\<close>.
\<close>

datatype effect =
    FxNative string
  | FxDestroyRef int
  | FxIncGoRef int
  | FxEnsureRegistered string
  | FxHandler exn string
  | FxConsoleError exn string
  | FxFailFast exn string
  | FxFree nat

text \<open>
  The state of the class \<^verbatim>\<open>Seq\<close> (lines 1518, 1597-1604): the tracker, the queue
  of pending exceptions, the user's handler (\<open>Some e\<close> when it throws \<open>e\<close>) and the
  fail-fast switch. \<open>nextObject\<close> is the identity the next \<^verbatim>\<open>new\<close> object gets and
  \<open>goErrors\<close> the message held by each \<^verbatim>\<open>GoError\<close> (lines 1747-1753).
\<close>

record rt =
  tracker :: RefTracker
  pendingExceptions :: "(exn \<times> string) list"
  UnhandledCallbackException :: "(exn \<Rightarrow> string \<Rightarrow> exn option) option"
  FailFastOnUnhandledCallbackException :: bool
  nextObject :: objref
  goErrors :: "objref \<rightharpoonup> string"
  effects :: "effect list"

definition addEffect :: "effect \<Rightarrow> rt \<Rightarrow> rt" where
  "addEffect x s = s\<lparr>effects := effects s @ [x]\<rparr>"

text \<open>How a statement ends: it goes on, returns, throws, ends the process, or is not C#.\<close>

datatype flow = Next | Return wire | Throw exn | Exit | Ill

datatype eres = Val wire | Exc exn | Stuck

text \<open>
  \<^verbatim>\<open>Seq.ThrowIfPendingException\<close> (lines 1616-1624). \<open>msg\<close> is the property
  \<^verbatim>\<open>Message\<close> of an exception; the inner exception of the one thrown is not kept.
\<close>

definition Seq_ThrowIfPendingException :: "(exn \<Rightarrow> string) \<Rightarrow> rt \<Rightarrow> (exn + unit) \<times> rt" where
  "Seq_ThrowIfPendingException msg s =
     (case pendingExceptions s of
        [] \<Rightarrow> (Inr (), s)
      | pending # rest \<Rightarrow>
          (Inl (InvalidOperationException
                  (''Unhandled exception in previous callback '' @ snd pending @ '': '' @
                   msg (fst pending))),
           s\<lparr>pendingExceptions := rest\<rparr>))"

text \<open>\<^verbatim>\<open>Seq.ReportUnhandledException\<close> (lines 1605-1613).\<close>

definition Seq_ReportUnhandledException :: "rt \<Rightarrow> exn \<Rightarrow> string \<Rightarrow> flow \<times> rt" where
  "Seq_ReportUnhandledException s ex methodName =
     (let s1 = s\<lparr>pendingExceptions := pendingExceptions s @ [(ex, methodName)]\<rparr>;
          finish = (\<lambda>s2. let s3 = addEffect (FxConsoleError ex methodName) s2
                         in if FailFastOnUnhandledCallbackException s3
                            then (Exit, addEffect (FxFailFast ex methodName) s3)
                            else (Next, s3))
      in case UnhandledCallbackException s1 of
           None \<Rightarrow> finish s1
         | Some handler \<Rightarrow>
             (case handler ex methodName of
                Some e \<Rightarrow> (Throw e, addEffect (FxHandler ex methodName) s1)
              | None \<Rightarrow> finish (addEffect (FxHandler ex methodName) s1)))"

text \<open>
  What the printed code calls and does not define. \<open>native\<close> is a function of the Go
  library and \<open>userMethod\<close> a method of the user's object (its first argument is the
  instance); both may run any code, so they return a new state. \<open>convert\<close> is the
  outcome of a marshalling helper or a cast, named by the printed expression.
  \<open>implements n o\<close>: object \<open>o\<close> is of the interface named \<open>n\<close>. \<open>proxyDisposed r\<close>:
  the proxy of refnum \<open>r\<close> that is passed as an argument has been disposed.
\<close>

record world =
  native :: "string \<Rightarrow> wire list \<Rightarrow> rt \<Rightarrow> wire \<times> rt"
  userMethod :: "string \<Rightarrow> wire list \<Rightarrow> rt \<Rightarrow> (exn + wire) \<times> rt"
  convert :: "cs_expr \<Rightarrow> wire \<Rightarrow> exn + wire"
  implements :: "string \<Rightarrow> objref \<Rightarrow> bool"
  proxyDisposed :: "int \<Rightarrow> bool"
  Message :: "exn \<Rightarrow> string"

text \<open>
  The method \<^verbatim>\<open>Error()\<close> of the class \<^verbatim>\<open>ProxyError\<close>, called on a proxy that has
  not been disposed. \<^verbatim>\<open>ProxyError\<close> is the proxy class \<^verbatim>\<open>genInterface\<close> prints for
  the interface \<^verbatim>\<open>error\<close> (lines 161-166, 1167), so the method is the text of lines
  1242-1270 for a method without parameters that returns a string: the draining of the
  pending queue, \<^verbatim>\<open>IncGoRef\<close>, the native call, \<^verbatim>\<open>NStringToString\<close>. The name of
  the native function is printed with \<^verbatim>\<open>g.pkgPrefix\<close>, which is set outside the
  sources; the name is only the label of the call, and the one used here is that of an
  empty prefix.
\<close>

definition ProxyError_Error :: "world \<Rightarrow> rt \<Rightarrow> int \<Rightarrow> (exn + wire) \<times> rt" where
  "ProxyError_Error W s refnum =
     (case Seq_ThrowIfPendingException (Message W) s of
        (Inl x, s1) \<Rightarrow> (Inl x, s1)
      | (Inr u, s1) \<Rightarrow>
          (case native W ''proxy_error_Error'' [WInt refnum]
                  (addEffect (FxNative ''proxy_error_Error'')
                     (addEffect (FxIncGoRef refnum) s1)) of
             (res, s2) \<Rightarrow> (convert W (ENStringToString (EVar ''res'')) res, s2)))"

text \<open>
  \<^verbatim>\<open>new GoException(error)\<close> (line 1742): the constructor asks
  \<^verbatim>\<open>error?.Error()\<close> for the message before it stores the error. A proxy answers with
  \<open>ProxyError_Error\<close>, a \<^verbatim>\<open>GoError\<close> (lines 1747-1753) with its message, any other
  object with the user's method.
\<close>

definition GoException_new :: "world \<Rightarrow> rt \<Rightarrow> managed \<Rightarrow> (exn + exn) \<times> rt" where
  "GoException_new W s error =
     (case error of
        MNull \<Rightarrow> (Inr (GoException error), s)
      | MProxy r \<Rightarrow>
          (case ProxyError_Error W s r of
             (Inl x, s1) \<Rightarrow> (Inl x, s1)
           | (Inr v, s1) \<Rightarrow> (Inr (GoException error), s1))
      | MObject obj \<Rightarrow>
          (case goErrors s obj of
             Some msg \<Rightarrow> (Inr (GoException error), s)
           | None \<Rightarrow>
               (case userMethod W ''Error'' [WRef error] s of
                  (Inl x, s1) \<Rightarrow> (Inl x, s1)
                | (Inr v, s1) \<Rightarrow> (Inr (GoException error), s1))))"

text \<open>
  \<^verbatim>\<open>Seq.ThrowIfError\<close> (lines 1589-1595). It throws the \<^verbatim>\<open>GoException\<close>, or what
  \<^verbatim>\<open>FromRefnum\<close> or the constructor of the exception throws.
\<close>

definition Seq_ThrowIfError :: "world \<Rightarrow> rt \<Rightarrow> int \<Rightarrow> flow \<times> rt" where
  "Seq_ThrowIfError W s refnum =
     (if refnum = NullRefNum then (Next, s)
      else case Proxy_FromRefnum (implements W ''error'') (tracker s) refnum of
             Inl e \<Rightarrow> (Throw e, s)
           | Inr error \<Rightarrow>
               (case GoException_new W s error of
                  (Inl x, s1) \<Rightarrow> (Throw x, s1)
                | (Inr ex, s1) \<Rightarrow> (Throw ex, s1)))"

text \<open>\<^verbatim>\<open>Seq.IncRef\<close> (lines 1572-1578); a proxy answers with \<^verbatim>\<open>IncRefnum\<close> (line 933).\<close>

definition Seq_IncRef :: "world \<Rightarrow> rt \<Rightarrow> managed \<Rightarrow> eres \<times> rt" where
  "Seq_IncRef W s value =
     (case value of
        MNull \<Rightarrow> (Val (WInt NullRefNum), s)
      | MProxy r \<Rightarrow>
          if proxyDisposed W r then (Exc ObjectDisposedException, s)
          else (Val (WInt r), addEffect (FxIncGoRef r) s)
      | MObject obj \<Rightarrow>
          (case RefTracker_Inc (tracker s) (Some obj) of
             (Inl e, t') \<Rightarrow> (Exc e, s\<lparr>tracker := t'\<rparr>)
           | (Inr r, t') \<Rightarrow> (Val (WInt r), s\<lparr>tracker := t'\<rparr>)))"

text \<open>\<^verbatim>\<open>Seq.IncRef(new GoError(ex))\<close> (lines 1381, 1415).\<close>

definition Seq_IncRef_GoError :: "world \<Rightarrow> rt \<Rightarrow> exn \<Rightarrow> eres \<times> rt" where
  "Seq_IncRef_GoError W s ex =
     Seq_IncRef W (s\<lparr>nextObject := Suc (nextObject s),
                     goErrors := (goErrors s)(nextObject s \<mapsto> Message W ex)\<rparr>)
       (MObject (nextObject s))"

text \<open>
  The local variables of a running method, the exception a \<^verbatim>\<open>catch\<close> block has caught,
  and whether \<^verbatim>\<open>this\<close> has been disposed.
\<close>

record env =
  vars :: "string \<rightharpoonup> wire"
  caught :: "exn option"
  disposed :: bool

definition converted :: "world \<Rightarrow> cs_expr \<Rightarrow> eres \<times> rt \<Rightarrow> eres \<times> rt" where
  "converted W e r =
     (case r of
        (Val v, s) \<Rightarrow> (case convert W e v of Inl x \<Rightarrow> (Exc x, s) | Inr w \<Rightarrow> (Val w, s))
      | other \<Rightarrow> other)"

definition argValues :: "env \<Rightarrow> string list \<Rightarrow> wire list option" where
  "argValues E names =
     (if list_all (\<lambda>n. vars E n \<noteq> None) names
      then Some (map (\<lambda>n. case vars E n of Some v \<Rightarrow> v | None \<Rightarrow> WUnit) names)
      else None)"

fun eval :: "world \<Rightarrow> env \<Rightarrow> cs_expr \<Rightarrow> rt \<Rightarrow> eres \<times> rt" where
  "eval W E (EVar x) s = (case vars E x of None \<Rightarrow> (Stuck, s) | Some v \<Rightarrow> (Val v, s))"
| "eval W E (EField x i) s =
     (case vars E x of
        Some (WRecord a b) \<Rightarrow> (if i = 0 then Val a else if i = 1 then Val b else Stuck, s)
      | _ \<Rightarrow> (Stuck, s))"
| "eval W E (EBoolToByte e) s = converted W (EBoolToByte e) (eval W E e s)"
| "eval W E (EStringToNString e) s = converted W (EStringToNString e) (eval W E e s)"
| "eval W E (EBytesToNByteslice e) s = converted W (EBytesToNByteslice e) (eval W E e s)"
| "eval W E (ECastNative t e) s = converted W (ECastNative t e) (eval W E e s)"
| "eval W E (ECastManaged t e) s = converted W (ECastManaged t e) (eval W E e s)"
| "eval W E (ENotZero e) s = converted W (ENotZero e) (eval W E e s)"
| "eval W E (ENStringToString e) s = converted W (ENStringToString e) (eval W E e s)"
| "eval W E (ENBytesliceToBytes e free) s =
     converted W (ENBytesliceToBytes e free) (eval W E e s)"
| "eval W E (EIncRef e) s =
     (case eval W E e s of
        (Val v, s1) \<Rightarrow> (case v of WRef m \<Rightarrow> Seq_IncRef W s1 m | _ \<Rightarrow> (Stuck, s1))
      | other \<Rightarrow> other)"
| "eval W E (EFromRefnum k n e) s =
     (case eval W E e s of
        (Val v, s1) \<Rightarrow>
          (case v of
             WInt r \<Rightarrow>
               (case k of
                  StructClass \<Rightarrow> (Val (WRef (if r = NullRefNum then MNull else MProxy r)), s1)
                | InterfaceProxy \<Rightarrow>
                    (case Proxy_FromRefnum (implements W n) (tracker s1) r of
                       Inl x \<Rightarrow> (Exc x, s1)
                     | Inr m \<Rightarrow> (Val (WRef m), s1)))
           | _ \<Rightarrow> (Stuck, s1))
      | other \<Rightarrow> other)"
| "eval W E ENull s = (Val (WRef MNull), s)"
| "eval W E ENullRefNum s = (Val (WInt NullRefNum), s)"
| "eval W E EZero s = (Val (WInt 0), s)"
| "eval W E ENewNString s = (Val (WNStr \<lparr>s_ptr = 0, s_len = 0\<rparr>), s)"
| "eval W E ENewNByteslice s = (Val (WNBytes \<lparr>b_ptr = 0, b_len = 0\<rparr>), s)"
| "eval W E (ENative f args) s =
     (case argValues E args of
        None \<Rightarrow> (Stuck, s)
      | Some vs \<Rightarrow> (case native W f vs (addEffect (FxNative f) s) of (w, s1) \<Rightarrow> (Val w, s1)))"
| "eval W E (ECall m args) s =
     (case argValues E (''instance'' # args) of
        None \<Rightarrow> (Stuck, s)
      | Some vs \<Rightarrow>
          (case userMethod W m vs s of
             (Inl x, s1) \<Rightarrow> (Exc x, s1)
           | (Inr w, s1) \<Rightarrow> (Val w, s1)))"
| "eval W E (EGetRef n) s =
     (case vars E ''refnum'' of
        Some (WInt r) \<Rightarrow>
          (case RefTracker_GetRef (tracker s) r of
             Inl x \<Rightarrow> (Exc x, s)
           | Inr None \<Rightarrow> (Val (WRef MNull), s)
           | Inr (Some obj) \<Rightarrow>
               if implements W n obj then (Val (WRef (MObject obj)), s)
               else (Exc InvalidCastException, s))
      | _ \<Rightarrow> (Stuck, s))"
| "eval W E EIncRefNewGoError s =
     (case caught E of None \<Rightarrow> (Stuck, s) | Some ex \<Rightarrow> Seq_IncRef_GoError W s ex)"
| "eval W E (ERecord c e0 e1) s =
     (case eval W E e0 s of
        (Val a, s1) \<Rightarrow>
          (case eval W E e1 s1 of
             (Val b, s2) \<Rightarrow> (Val (WRecord a b), s2)
           | other \<Rightarrow> other)
      | other \<Rightarrow> other)"

text \<open>The value of an operand that must be an integer.\<close>

definition evalInt :: "world \<Rightarrow> env \<Rightarrow> cs_expr \<Rightarrow> rt \<Rightarrow> (flow + int) \<times> rt" where
  "evalInt W E e s =
     (case eval W E e s of
        (Val v, s1) \<Rightarrow> (case v of WInt r \<Rightarrow> (Inr r, s1) | _ \<Rightarrow> (Inl Ill, s1))
      | (Exc x, s1) \<Rightarrow> (Inl (Throw x), s1)
      | (Stuck, s1) \<Rightarrow> (Inl Ill, s1))"

fun exec_stmt :: "world \<Rightarrow> cs_stmt \<Rightarrow> env \<Rightarrow> rt \<Rightarrow> flow \<times> env \<times> rt"
  and exec_block :: "world \<Rightarrow> cs_stmt list \<Rightarrow> env \<Rightarrow> rt \<Rightarrow> flow \<times> env \<times> rt" where
  "exec_block W [] E s = (Next, E, s)"
| "exec_block W (c # cs) E s =
     (case exec_stmt W c E s of
        (Next, E1, s1) \<Rightarrow> exec_block W cs E1 s1
      | other \<Rightarrow> other)"
| "exec_stmt W SThrowIfDisposed E s =
     (if disposed E then (Throw ObjectDisposedException, E, s) else (Next, E, s))"
| "exec_stmt W SThrowIfPendingException E s =
     (case Seq_ThrowIfPendingException (Message W) s of
        (Inl x, s1) \<Rightarrow> (Throw x, E, s1)
      | (Inr u, s1) \<Rightarrow> (Next, E, s1))"
| "exec_stmt W SIncGoRef E s =
     (case evalInt W E (EVar ''refnum'') s of
        (Inr r, s1) \<Rightarrow> (Next, E, addEffect (FxIncGoRef r) s1)
      | (Inl f, s1) \<Rightarrow> (f, E, s1))"
| "exec_stmt W (SEnsureRegistered n) E s = (Next, E, addEffect (FxEnsureRegistered n) s)"
| "exec_stmt W (SVarDecl x e) E s =
     (case eval W E e s of
        (Val v, s1) \<Rightarrow> (Next, E\<lparr>vars := (vars E)(x \<mapsto> v)\<rparr>, s1)
      | (Exc ex, s1) \<Rightarrow> (Throw ex, E, s1)
      | (Stuck, s1) \<Rightarrow> (Ill, E, s1))"
| "exec_stmt W (SExpr e) E s =
     (case eval W E e s of
        (Val v, s1) \<Rightarrow> (Next, E, s1)
      | (Exc ex, s1) \<Rightarrow> (Throw ex, E, s1)
      | (Stuck, s1) \<Rightarrow> (Ill, E, s1))"
| "exec_stmt W (SFreeNativeParam n) E s =
     (case vars E n of
        Some (WNBytes b) \<Rightarrow> (Next, E, if b_ptr b \<noteq> 0 then addEffect (FxFree (b_ptr b)) s else s)
      | _ \<Rightarrow> (Ill, E, s))"
| "exec_stmt W (SIfNotNullRefNum e body) E s =
     (case evalInt W E e s of
        (Inr r, s1) \<Rightarrow> if r \<noteq> NullRefNum then exec_block W body E s1 else (Next, E, s1)
      | (Inl f, s1) \<Rightarrow> (f, E, s1))"
| "exec_stmt W (SDestroyRef e) E s =
     (case evalInt W E e s of
        (Inr r, s1) \<Rightarrow> (Next, E, addEffect (FxDestroyRef r) s1)
      | (Inl f, s1) \<Rightarrow> (f, E, s1))"
| "exec_stmt W (SThrowIfError e) E s =
     (case evalInt W E e s of
        (Inr r, s1) \<Rightarrow>
          (case Seq_ThrowIfError W s1 r of (f, s2) \<Rightarrow> (f, E, s2))
      | (Inl f, s1) \<Rightarrow> (f, E, s1))"
| "exec_stmt W (SAssignRefnum e) E s =
     (case evalInt W E e s of
        (Inr r, s1) \<Rightarrow> (Next, E\<lparr>vars := (vars E)(''refnum'' \<mapsto> WInt r)\<rparr>, s1)
      | (Inl f, s1) \<Rightarrow> (f, E, s1))"
| "exec_stmt W (SReturn e) E s =
     (case eval W E e s of
        (Val v, s1) \<Rightarrow> (Return v, E, s1)
      | (Exc ex, s1) \<Rightarrow> (Throw ex, E, s1)
      | (Stuck, s1) \<Rightarrow> (Ill, E, s1))"
| "exec_stmt W SReturnVoid E s = (Return WUnit, E, s)"
| "exec_stmt W (SReportUnhandledException m) E s =
     (case caught E of
        None \<Rightarrow> (Ill, E, s)
      | Some ex \<Rightarrow> (case Seq_ReportUnhandledException s ex m of (f, s1) \<Rightarrow> (f, E, s1)))"
| "exec_stmt W (STryCatch body handler) E s =
     (case exec_block W body E s of
        (Throw ex, E1, s1) \<Rightarrow> exec_block W handler (E\<lparr>caught := Some ex\<rparr>) s1
      | (Next, E1, s1) \<Rightarrow> (Next, E, s1)
      | other \<Rightarrow> other)"
| "exec_stmt W (STryNoCatch body) E s = (Ill, E, s)"

text \<open>Running a method: its body from the state and the variables given.\<close>

definition run_method :: "world \<Rightarrow> cs_method \<Rightarrow> env \<Rightarrow> rt \<Rightarrow> flow \<times> rt" where
  "run_method W m E s = (case exec_block W (m_body m) E s of (f, E1, s1) \<Rightarrow> (f, s1))"

section \<open>Vocabulary of the statements about printed code\<close>

text \<open>A statement that is a declaration, an expression or a registration: it cannot return.\<close>

fun plainStmt :: "cs_stmt \<Rightarrow> bool" where
  "plainStmt (SVarDecl x e) = True"
| "plainStmt (SExpr e) = True"
| "plainStmt (SEnsureRegistered n) = True"
| "plainStmt c = False"

text \<open>The functions of the Go library that the statements of a method body call.\<close>

fun nativeOf :: "cs_stmt \<Rightarrow> string option" where
  "nativeOf (SVarDecl x (ENative n args)) = Some n"
| "nativeOf (SExpr (ENative n args)) = Some n"
| "nativeOf c = None"

definition nativeCalled :: "cs_method \<Rightarrow> string list" where
  "nativeCalled m = List.map_filter nativeOf (m_body m)"

text \<open>
  The default wire value of a result type, following the spec's words (3, 4.D): zero for
  a scalar, the zero struct for a string or a byte slice, the sentinel for a reference.
\<close>

definition defaultWire :: "gotype \<Rightarrow> wire" where
  "defaultWire t =
     (case t of
        Basic k \<Rightarrow> if isStringKind k then WNStr \<lparr>s_ptr = 0, s_len = 0\<rparr> else WInt 0
      | Slice e \<Rightarrow> WNBytes \<lparr>b_ptr = 0, b_len = 0\<rparr>
      | Pointer e \<Rightarrow> WInt NullRefNum
      | Named p n u \<Rightarrow> WInt NullRefNum
      | _ \<Rightarrow> WInt 0)"

text \<open>How a block ended and the state it left, without the local variables.\<close>

definition outcome :: "flow \<times> env \<times> rt \<Rightarrow> flow \<times> rt" where
  "outcome r = (fst r, snd (snd r))"

text \<open>The result shapes the text of a trampoline is written for: none, one, or a value and an error.\<close>

definition trampolineShape :: "gotype list \<Rightarrow> bool" where
  "trampolineShape res = (res = [] \<or> length res = 1 \<or> (length res = 2 \<and> isErrorType (res ! 1)))"

definition hasErrorChannel :: "gotype list \<Rightarrow> bool" where
  "hasErrorChannel res =
     ((length res = 1 \<and> isErrorType (res ! 0)) \<or> (length res = 2 \<and> isErrorType (res ! 1)))"

text \<open>
  The \<^verbatim>\<open>try\<close> block of a printed trampoline, and its statements up to the call of
  the managed method: the look-up of the instance, the conversion of the parameters, the
  registration of a returned interface, the call.
\<close>

definition tryBlock :: "cs_method \<Rightarrow> cs_stmt list" where
  "tryBlock m = (case m_body m of STryCatch body handler # rest \<Rightarrow> body | _ \<Rightarrow> [])"

definition managedCall :: "interfaceInfo \<Rightarrow> gofunc \<Rightarrow> cs_stmt list" where
  "managedCall i f =
     (let res = fresults f; call = ECall (fname f) (callArgs (fparams f))
      in if res = [] \<or> (length res = 1 \<and> isErrorType (res ! 0))
         then trampolinePrologue i f @ [SExpr call]
         else trampolinePrologue i f @ emitEnsureRegisteredForReturn (res ! 0) @
              [SVarDecl (if length res = 1 then ''result'' else ''value'') call])"

text \<open>
  What the \<^verbatim>\<open>try\<close> block is to do once the managed method has returned, following
  the spec's words (4.D): nothing more for a method without results, \<open>NullRefNum\<close> for
  \<open>(error)\<close>, the marshalled value for \<open>(T)\<close>, the record of the marshalled value and
  \<open>NullRefNum\<close> for \<open>(T, error)\<close>. The marshalled value is the value of the expression
  \<^verbatim>\<open>nativeValueExpression\<close> prints, and evaluating it may throw.
\<close>

definition trySpec :: "world \<Rightarrow> gotype list \<Rightarrow> flow \<times> env \<times> rt \<Rightarrow> flow \<times> rt" where
  "trySpec W res called =
     (case called of
        (Next, E0, s0) \<Rightarrow>
          if res = [] then (Next, s0)
          else if length res = 1 \<and> isErrorType (res ! 0) then (Return (WInt NullRefNum), s0)
          else (case eval W E0
                       (nativeValueExpression (if length res = 1 then ''result'' else ''value'')
                          (res ! 0)) s0 of
                  (Val w, s1) \<Rightarrow>
                    (Return (if length res = 1 then w else WRecord w (WInt NullRefNum)), s1)
                | (Exc x, s1) \<Rightarrow> (Throw x, s1)
                | (Stuck, s1) \<Rightarrow> (Ill, s1))
      | (f, E0, s0) \<Rightarrow> (f, s0))"

text \<open>
  What a trampoline is to do, following the spec's words (4.D, 4.F, 7), given how the
  \<^verbatim>\<open>try\<close> block ended. When it threw: a method without an error result reports the
  exception and returns the default wire value; a method with an error result registers
  the error proxy, wraps the exception in a \<^verbatim>\<open>GoError\<close> and returns its refnum,
  alone or as \<open>r1\<close> beside the default \<open>r0\<close>. When it did not throw, its outcome is the
  trampoline's; a method without results returns.
\<close>

definition trampolineSpec :: "world \<Rightarrow> string \<Rightarrow> gotype list \<Rightarrow> flow \<times> rt \<Rightarrow> flow \<times> rt" where
  "trampolineSpec W methodName res tried =
     (case tried of
        (Throw ex, s1) \<Rightarrow>
          if hasErrorChannel res
          then (case Seq_IncRef_GoError W (addEffect (FxEnsureRegistered ''error'') s1) ex of
                  (Val r, s2) \<Rightarrow>
                    (Return (if length res = 1 then r else WRecord (defaultWire (res ! 0)) r), s2)
                | (Exc x, s2) \<Rightarrow> (Throw x, s2)
                | (Stuck, s2) \<Rightarrow> (Ill, s2))
          else (case Seq_ReportUnhandledException s1 ex methodName of
                  (Next, s2) \<Rightarrow> (Return (if res = [] then WUnit else defaultWire (res ! 0)), s2)
                | (f, s2) \<Rightarrow> (f, s2))
      | (Next, s1) \<Rightarrow> (Return WUnit, s1)
      | (f, s1) \<Rightarrow> (f, s1))"

text \<open>A concrete world and state, used where a statement is evaluated.\<close>

definition sampleMessage :: "exn \<Rightarrow> string" where
  "sampleMessage e =
     (case e of
        ManagedException m \<Rightarrow> m
      | InvalidOperationException m \<Rightarrow> m
      | _ \<Rightarrow> ''error'')"

definition sampleWorld :: world where
  "sampleWorld =
     \<lparr>native = (\<lambda>f vs s. (if f = ''proxypkg__Ping'' then WUnit
                           else if f = ''proxy_error_Error'' then WNStr \<lparr>s_ptr = 9, s_len = 4\<rparr>
                           else WRecord (WInt (- 3)) (WInt (- 4)), s)),
      userMethod = (\<lambda>m vs s. (Inl (ManagedException ''boom''), s)),
      convert = (\<lambda>e v. Inr v),
      implements = (\<lambda>n obj. True),
      proxyDisposed = (\<lambda>r. False),
      Message = sampleMessage\<rparr>"

definition quietWorld :: world where
  "quietWorld = sampleWorld\<lparr>userMethod := (\<lambda>m vs s. (Inr (WRef MNull), s))\<rparr>"

definition sampleState :: "(exn \<times> string) list \<Rightarrow> rt" where
  "sampleState pending =
     \<lparr>tracker = snd (RefTracker_Inc RefTracker_new (Some 7)),
      pendingExceptions = pending,
      UnhandledCallbackException = None,
      FailFastOnUnhandledCallbackException = False,
      nextObject = 100,
      goErrors = Map.empty,
      effects = []\<rparr>"

definition sampleEnv :: env where
  "sampleEnv =
     \<lparr>vars = [''refnum'' \<mapsto> WInt 42, ''key'' \<mapsto> WData 1, ''n'' \<mapsto> WInt 5, ''name'' \<mapsto> WData 2],
      caught = None,
      disposed = False\<rparr>"

text \<open>Members of the sample package as they are printed.\<close>

definition loadWrapper :: cs_method where
  "loadWrapper =
     \<lparr>m_name = ''Load'',
      m_body =
        [SThrowIfDisposed, SThrowIfPendingException, SIncGoRef,
         SVarDecl ''_key'' (EStringToNString (EVar ''key'')),
         SVarDecl ''res'' (ENative ''proxypkg_Foo_Load'' [''refnum'', ''_key'']),
         SIfNotNullRefNum (EField ''res'' 1)
           [SDestroyRef (EField ''res'' 0), SThrowIfError (EField ''res'' 1)],
         SVarDecl ''value'' (EFromRefnum StructClass ''Foo'' (EField ''res'' 0)),
         SReturn (EVar ''value'')]\<rparr>"

definition pingWrapper :: cs_method where
  "pingWrapper = \<lparr>m_name = ''Ping'', m_body = [SExpr (ENative ''proxypkg__Ping'' [])]\<rparr>"

definition pushTrampoline :: cs_method where
  "pushTrampoline =
     \<lparr>m_name = ''Callback_PushImpl'',
      m_body =
        [STryCatch
           [SVarDecl ''instance'' (EGetRef ''Sink''),
            SVarDecl ''nValue'' (ECastManaged (Basic KInt) (EVar ''n'')),
            SExpr (ECall ''Push'' [''nValue''])]
           [SReportUnhandledException ''Sink.Push''],
         SReturnVoid]\<rparr>"

definition loadTrampoline :: cs_method where
  "loadTrampoline =
     \<lparr>m_name = ''Callback_LoadImpl'',
      m_body =
        [STryCatch
           [SVarDecl ''instance'' (EGetRef ''Sink''),
            SVarDecl ''keyValue'' (ENStringToString (EVar ''key'')),
            SVarDecl ''value'' (ECall ''Load'' [''keyValue'']),
            SVarDecl ''error'' ENullRefNum,
            SReturn (ERecord ''cproxypkg_Sink_Load'' (EIncRef (EVar ''value'')) (EVar ''error''))]
           [SEnsureRegistered ''error'',
            SVarDecl ''error'' EIncRefNewGoError,
            SReturn (ERecord ''cproxypkg_Sink_Load'' ENullRefNum (EVar ''error''))]]\<rparr>"

text \<open>The interface \<^verbatim>\<open>error\<close> as the generator is given it: one method, \<^verbatim>\<open>Error() string\<close>.\<close>

definition errorMethod :: gofunc where
  "errorMethod = \<lparr>fname = ''Error'', fparams = [], fresults = [Basic KString]\<rparr>"

definition errorIface :: interfaceInfo where
  "errorIface = \<lparr>iname = ''error'', callable = [errorMethod]\<rparr>"

text \<open>
  An interface with a method of two results of which the second is not an error and a
  method of three results, and the trampolines printed for them.
\<close>

definition twoMethod :: gofunc where
  "twoMethod = \<lparr>fname = ''Two'', fparams = [(''n'', Basic KInt)],
                fresults = [Basic KInt, Basic KInt]\<rparr>"

definition threeMethod :: gofunc where
  "threeMethod = \<lparr>fname = ''Three'', fparams = [],
                  fresults = [Basic KInt, Basic KInt, Basic KInt]\<rparr>"

definition pairIface :: interfaceInfo where
  "pairIface = \<lparr>iname = ''Pair'', callable = [twoMethod, threeMethod]\<rparr>"

definition pairPkg :: Generator where
  "pairPkg = samplePkg\<lparr>interfaces := [pairIface]\<rparr>"

definition twoTrampoline :: cs_method where
  "twoTrampoline =
     \<lparr>m_name = ''Callback_TwoImpl'',
      m_body =
        [STryNoCatch
           [SVarDecl ''instance'' (EGetRef ''Pair''),
            SVarDecl ''nValue'' (ECastManaged (Basic KInt) (EVar ''n''))]]\<rparr>"

definition threeTrampoline :: cs_method where
  "threeTrampoline =
     \<lparr>m_name = ''Callback_ThreeImpl'',
      m_body = [STryNoCatch [SVarDecl ''instance'' (EGetRef ''Pair'')]]\<rparr>"

definition boom :: "exn \<times> string" where
  "boom = (ManagedException ''boom'', ''Sink.Push'')"


chapter \<open>Properties\<close>

section \<open>Identifier sanitizer\<close>

lemma ReplaceAllString_all_ident: "list_all isIdentByte (ReplaceAllString W s)"
  by (induction W s rule: ReplaceAllString.induct) (auto simp: isIdentByte_def)

lemma ReplaceAllString_fixed: "list_all isIdentByte s \<Longrightarrow> ReplaceAllString W s = s"
  by (induction s) auto

lemma ReplaceAllString_nonempty: "s \<noteq> [] \<Longrightarrow> ReplaceAllString W s \<noteq> []"
  by (cases s) auto

lemma ReplaceAllString_changed:
  "ReplaceAllString W s \<noteq> s \<Longrightarrow> CHR ''_'' \<in> set (ReplaceAllString W s)"
  by (induction W s rule: ReplaceAllString.induct) (auto split: if_splits)

lemma keywords_no_underscore: "list_all (\<lambda>k. CHR ''_'' \<notin> set k) csharpKeywords"
  by (simp add: csharpKeywords_def)

lemma underscore_not_keyword: "CHR ''_'' \<in> set r \<Longrightarrow> r \<notin> set csharpKeywords"
  using keywords_no_underscore by (auto simp: list_all_iff)

lemma csIdentifier_finish:
  assumes n2: "n2 \<noteq> []" "list_all isIdentByte n2" "n2 \<notin> set csharpKeywords"
    and r: "r = (if hd n2 \<noteq> CHR ''_'' \<and> \<not> firstRuneIsLetter L n2 then ''_'' @ n2 else n2)"
  shows "csValidIdentifier r \<and> r \<notin> set csharpKeywords \<and>
         csIdentifier (newNameSanitizer suffix csharpKeywords) W L r = r"
proof -
  obtain c cs where n2_eq: "n2 = c # cs" using n2(1) by (cases n2) auto
  have ascii: "(of_char c :: nat) < 128"
    using n2(2) by (auto simp: n2_eq isIdentByte_def Let_def)
  have all_r: "list_all isIdentByte r"
    using n2(2) r by (auto simp: isIdentByte_def)
  have ne_r: "r \<noteq> []" using n2(1) r by auto
  have start: "hd r = CHR ''_'' \<or> isAsciiLetter (hd r)"
    using r ascii by (auto simp: n2_eq firstRuneIsLetter_def)
  have nokw: "r \<notin> set csharpKeywords"
    using r n2(3) underscore_not_keyword[of r] by (auto split: if_splits)
  have ascii_r: "(of_char (hd r) :: nat) < 128"
    using start by (auto simp: isAsciiLetter_def Let_def)
  have letter_r: "hd r \<noteq> CHR ''_'' \<Longrightarrow> firstRuneIsLetter L r"
    using start ascii_r ne_r by (cases r) (auto simp: firstRuneIsLetter_def)
  have "csIdentifier (newNameSanitizer suffix csharpKeywords) W L r = r"
    using ne_r nokw all_r letter_r
    by (auto simp: csIdentifier_def newNameSanitizer_def ReplaceAllString_fixed Let_def)
  with all_r ne_r start nokw show ?thesis by (simp add: csValidIdentifier_def)
qed

lemma replaced_not_keyword:
  assumes "suffixAvoidsKeywords W suffix"
  shows "ReplaceAllString W (newNameSanitizer suffix csharpKeywords name) \<notin> set csharpKeywords"
proof (cases "name \<in> set csharpKeywords")
  case True
  then show ?thesis using assms
    by (auto simp: suffixAvoidsKeywords_def list_all_iff newNameSanitizer_def)
next
  case False
  show ?thesis
  proof (cases "ReplaceAllString W name = name")
    case True
    with False show ?thesis by (simp add: newNameSanitizer_def)
  next
    case neq: False
    from ReplaceAllString_changed[OF neq] underscore_not_keyword False
    show ?thesis by (simp add: newNameSanitizer_def)
  qed
qed

lemma suffix_underscore_ok: "suffixAvoidsKeywords W ''_''"
proof -
  have "ReplaceAllString W (k @ ''_'') \<notin> set csharpKeywords" for k
  proof (cases "ReplaceAllString W (k @ ''_'') = k @ ''_''")
    case True
    then show ?thesis using underscore_not_keyword[of "k @ ''_''"] by simp
  next
    case False
    from ReplaceAllString_changed[OF False] underscore_not_keyword show ?thesis by blast
  qed
  then show ?thesis by (simp add: suffixAvoidsKeywords_def list_all_iff)
qed

text \<open>
  C3 (as amended). The empty name is returned as it is (the guard of line 139). For a
  non-empty name: whatever the name replacer is, an empty string after the replacement
  gives \<open>_\<close>; and with the replacer that suffixes reserved keywords (the suffix being
  one that keeps suffixed keywords out of the table, as \<open>_\<close> does), the result is a valid
  managed identifier (non-empty, only letters, digits and underscores, first a letter or
  an underscore), is not a reserved keyword, and is a fixed point of the sanitizer.
\<close>

theorem csIdentifier_sanitizes:
  "csIdentifier repl W L [] = [] \<and>
   (name \<noteq> [] \<and> ReplaceAllString W (repl name) = [] \<longrightarrow> csIdentifier repl W L name = ''_'') \<and>
   (name \<noteq> [] \<and> suffixAvoidsKeywords W suffix \<longrightarrow>
     (let r = csIdentifier (newNameSanitizer suffix csharpKeywords) W L name
      in csValidIdentifier r \<and> r \<notin> set csharpKeywords \<and>
         csIdentifier (newNameSanitizer suffix csharpKeywords) W L r = r))"
proof (intro conjI impI)
  show "csIdentifier repl W L [] = []" by (simp add: csIdentifier_def)
next
  assume "name \<noteq> [] \<and> ReplaceAllString W (repl name) = []"
  then show "csIdentifier repl W L name = ''_''" by (simp add: csIdentifier_def)
next
  assume h: "name \<noteq> [] \<and> suffixAvoidsKeywords W suffix"
  define n2 where "n2 = ReplaceAllString W (newNameSanitizer suffix csharpKeywords name)"
  have "newNameSanitizer suffix csharpKeywords name \<noteq> []"
    using h by (simp add: newNameSanitizer_def)
  then have ne: "n2 \<noteq> []" unfolding n2_def by (rule ReplaceAllString_nonempty)
  have all: "list_all isIdentByte n2" unfolding n2_def by (rule ReplaceAllString_all_ident)
  have nk: "n2 \<notin> set csharpKeywords"
    unfolding n2_def using h by (simp add: replaced_not_keyword)
  have r: "csIdentifier (newNameSanitizer suffix csharpKeywords) W L name =
        (if hd n2 \<noteq> CHR ''_'' \<and> \<not> firstRuneIsLetter L n2 then ''_'' @ n2 else n2)"
    using h ne by (simp add: csIdentifier_def n2_def Let_def)
  from csIdentifier_finish[OF ne all nk r]
  show "let r = csIdentifier (newNameSanitizer suffix csharpKeywords) W L name
      in csValidIdentifier r \<and> r \<notin> set csharpKeywords \<and>
         csIdentifier (newNameSanitizer suffix csharpKeywords) W L r = r"
    by (simp add: Let_def)
qed

theorem csIdentifier_sanitizes_witness:
  "''int'' \<noteq> [] \<and> ReplaceAllString sampleWidth (sampleReplacer ''int'') = [] \<and>
   csIdentifier sampleReplacer sampleWidth sampleIsLetter ''int'' = ''_'' \<and>
   suffixAvoidsKeywords sampleWidth ''_'' \<and>
   csIdentifier (newNameSanitizer ''_'' csharpKeywords) sampleWidth sampleIsLetter ''int'' = ''int_'' \<and>
   csValidIdentifier ''int_'' \<and> ''int_'' \<notin> set csharpKeywords \<and>
   csIdentifier (newNameSanitizer ''_'' csharpKeywords) sampleWidth sampleIsLetter ''int_'' = ''int_''"
proof -
  have v: "csIdentifier (newNameSanitizer ''_'' csharpKeywords) sampleWidth sampleIsLetter ''int''
             = ''int_''"
    by (simp add: csIdentifier_def newNameSanitizer_def csharpKeywords_def isIdentByte_def
        firstRuneIsLetter_def isAsciiLetter_def Let_def)
  have e: "ReplaceAllString sampleWidth (sampleReplacer ''int'') = []"
    by (simp add: sampleReplacer_def)
  from csIdentifier_sanitizes[of sampleReplacer sampleWidth sampleIsLetter "''int''" "''_''"]
    suffix_underscore_ok[of sampleWidth] v e
  show ?thesis by (simp add: Let_def)
qed

text \<open>
  The claim as stated fails at the empty name: the sanitized form of the empty string is
  the empty string, which is not an identifier.
\<close>

theorem csIdentifier_empty_counterexample:
  "csIdentifier (newNameSanitizer ''_'' csharpKeywords) sampleWidth sampleIsLetter [] = [] \<and>
   \<not> csValidIdentifier (csIdentifier (newNameSanitizer ''_'' csharpKeywords) sampleWidth sampleIsLetter [])"
  by (simp add: csIdentifier_def csValidIdentifier_def)

section \<open>The tracker\<close>

lemma wrap32_id: "- 2147483648 \<le> x \<Longrightarrow> x \<le> 2147483647 \<Longrightarrow> wrap32 x = x"
  by (simp add: wrap32_def)

lemma inv_new: "tracker_inv RefTracker_new"
  by (simp add: tracker_inv_def RefTracker_new_def RefOffset_def int_MaxValue_def)

lemma Ref_Inc_ok:
  "1 \<le> Count e \<or> Count e = 0 \<Longrightarrow> Count e < int_MaxValue \<Longrightarrow> Ref_Inc e = Inr (e\<lparr>Count := Count e + 1\<rparr>)"
  by (auto simp: Ref_Inc_def wrap32_def int_MaxValue_def)

lemma Ref_Inc_overflow:
  "Count e = int_MaxValue \<Longrightarrow> Ref_Inc e = Inl (InvalidOperationException ''Ref: refcount overflow'')"
  by (simp add: Ref_Inc_def)

lemma Ref_Dec_ok:
  "1 \<le> Count e \<Longrightarrow> Count e \<le> int_MaxValue \<Longrightarrow> Ref_Dec e = e\<lparr>Count := Count e - 1\<rparr>"
  by (auto simp: Ref_Dec_def wrap32_def int_MaxValue_def)

lemma Inc_null: "RefTracker_Inc t None = (Inr NullRefNum, t)"
  by (simp add: RefTracker_Inc_def)

lemma Inc_fresh:
  assumes inv: "tracker_inv t" and fresh: "objectRefs t v = None"
    and room: "nextRefnum t \<noteq> int_MaxValue"
  shows "RefTracker_Inc t (Some v) =
           (Inr (nextRefnum t),
            t\<lparr>nextRefnum := nextRefnum t + 1,
              objectRefs := (objectRefs t)(v \<mapsto> nextRefnum t),
              refs := (refs t)(nextRefnum t \<mapsto> \<lparr>Value = v, Count = 1\<rparr>)\<rparr>)"
proof -
  have none: "refs t (nextRefnum t) = None"
    using inv by (cases "refs t (nextRefnum t)") (auto simp: tracker_inv_def)
  have w: "wrap32 (nextRefnum t + 1) = nextRefnum t + 1"
    using inv room by (intro wrap32_id) (auto simp: tracker_inv_def RefOffset_def int_MaxValue_def)
  show ?thesis
    using fresh room none w
    by (simp add: RefTracker_Inc_def Ref_Inc_def int_MaxValue_def wrap32_def)
qed

lemma Inc_fresh_overflow:
  assumes "objectRefs t v = None" "nextRefnum t = int_MaxValue"
  shows "RefTracker_Inc t (Some v) =
           (Inl (InvalidOperationException ''RefTracker: refnum overflow''), t)"
  using assms by (simp add: RefTracker_Inc_def)

lemma Inc_known:
  assumes "objectRefs t v = Some r" "refs t r = Some e"
  shows "RefTracker_Inc t (Some v) =
           (case Ref_Inc e of
              Inl x \<Rightarrow> (Inl x, t)
            | Inr e' \<Rightarrow> (Inr r, t\<lparr>refs := (refs t)(r \<mapsto> e')\<rparr>))"
  using assms by (simp add: RefTracker_Inc_def)

lemma inv_entry:
  "tracker_inv t \<Longrightarrow> refs t r = Some e \<Longrightarrow>
     RefOffset \<le> r \<and> r < nextRefnum t \<and> 1 \<le> Count e \<and> Count e \<le> int_MaxValue \<and>
     objectRefs t (Value e) = Some r"
  by (simp add: tracker_inv_def)

lemma inv_object:
  "tracker_inv t \<Longrightarrow> objectRefs t v = Some r \<Longrightarrow> \<exists>e. refs t r = Some e \<and> Value e = v"
  by (simp add: tracker_inv_def)

lemma inv_next: "tracker_inv t \<Longrightarrow> RefOffset \<le> nextRefnum t \<and> nextRefnum t \<le> int_MaxValue"
  by (simp add: tracker_inv_def)

lemma inv_bump:
  assumes inv: "tracker_inv t" and e: "refs t r = Some e"
    and c: "1 \<le> c" "c \<le> int_MaxValue"
  shows "tracker_inv (t\<lparr>refs := (refs t)(r \<mapsto> e\<lparr>Count := c\<rparr>)\<rparr>)"
proof -
  let ?t = "t\<lparr>refs := (refs t)(r \<mapsto> e\<lparr>Count := c\<rparr>)\<rparr>"
  have a: "RefOffset \<le> nextRefnum ?t \<and> nextRefnum ?t \<le> int_MaxValue"
    using inv_next[OF inv] by simp
  have b: "RefOffset \<le> r' \<and> r' < nextRefnum ?t \<and> 1 \<le> Count e' \<and> Count e' \<le> int_MaxValue \<and>
           objectRefs ?t (Value e') = Some r'" if "refs ?t r' = Some e'" for r' e'
  proof (cases "r' = r")
    case True
    then have "e' = e\<lparr>Count := c\<rparr>" using that by simp
    then show ?thesis using inv_entry[OF inv e] c True by simp
  next
    case False
    then have "refs t r' = Some e'" using that by simp
    from inv_entry[OF inv this] show ?thesis by simp
  qed
  have d: "\<exists>e'. refs ?t r' = Some e' \<and> Value e' = v" if "objectRefs ?t v = Some r'" for v r'
  proof -
    from that have "objectRefs t v = Some r'" by simp
    from inv_object[OF inv this] obtain e0 where e0: "refs t r' = Some e0" "Value e0 = v" by blast
    show ?thesis
    proof (cases "r' = r")
      case True
      then show ?thesis using e0 e by simp
    next
      case False
      then show ?thesis using e0 by simp
    qed
  qed
  show ?thesis unfolding tracker_inv_def using a b d by blast
qed

lemma inv_fresh:
  assumes inv: "tracker_inv t" and fresh: "objectRefs t v = None"
    and room: "nextRefnum t \<noteq> int_MaxValue"
  shows "tracker_inv (t\<lparr>nextRefnum := nextRefnum t + 1,
              objectRefs := (objectRefs t)(v \<mapsto> nextRefnum t),
              refs := (refs t)(nextRefnum t \<mapsto> \<lparr>Value = v, Count = 1\<rparr>)\<rparr>)"
proof -
  let ?n = "nextRefnum t"
  let ?t = "t\<lparr>nextRefnum := ?n + 1, objectRefs := (objectRefs t)(v \<mapsto> ?n),
              refs := (refs t)(?n \<mapsto> \<lparr>Value = v, Count = 1\<rparr>)\<rparr>"
  have a: "RefOffset \<le> nextRefnum ?t \<and> nextRefnum ?t \<le> int_MaxValue"
    using inv_next[OF inv] room by simp
  have b: "RefOffset \<le> r' \<and> r' < nextRefnum ?t \<and> 1 \<le> Count e' \<and> Count e' \<le> int_MaxValue \<and>
           objectRefs ?t (Value e') = Some r'" if "refs ?t r' = Some e'" for r' e'
  proof (cases "r' = ?n")
    case True
    then have "e' = \<lparr>Value = v, Count = 1\<rparr>" using that by simp
    then show ?thesis using inv_next[OF inv] True by (simp add: int_MaxValue_def)
  next
    case False
    then have old: "refs t r' = Some e'" using that by simp
    from inv_entry[OF inv old] fresh have "Value e' \<noteq> v" by auto
    with inv_entry[OF inv old] show ?thesis by simp
  qed
  have d: "\<exists>e'. refs ?t r' = Some e' \<and> Value e' = w" if "objectRefs ?t w = Some r'" for w r'
  proof (cases "w = v")
    case True
    then show ?thesis using that by auto
  next
    case False
    then have "objectRefs t w = Some r'" using that by simp
    from inv_object[OF inv this] obtain e0 where e0: "refs t r' = Some e0" "Value e0 = w" by blast
    from inv_entry[OF inv e0(1)] have "r' \<noteq> ?n" by simp
    then show ?thesis using e0 by simp
  qed
  show ?thesis unfolding tracker_inv_def using a b d by blast
qed

lemma inv_drop:
  assumes inv: "tracker_inv t" and e: "refs t r = Some e"
  shows "tracker_inv (t\<lparr>refs := (refs t)(r := None), objectRefs := (objectRefs t)(Value e := None)\<rparr>)"
proof -
  let ?t = "t\<lparr>refs := (refs t)(r := None), objectRefs := (objectRefs t)(Value e := None)\<rparr>"
  have a: "RefOffset \<le> nextRefnum ?t \<and> nextRefnum ?t \<le> int_MaxValue"
    using inv_next[OF inv] by simp
  have b: "RefOffset \<le> r' \<and> r' < nextRefnum ?t \<and> 1 \<le> Count e' \<and> Count e' \<le> int_MaxValue \<and>
           objectRefs ?t (Value e') = Some r'" if "refs ?t r' = Some e'" for r' e'
  proof -
    from that have ne: "r' \<noteq> r" and old: "refs t r' = Some e'" by (auto split: if_splits)
    have "Value e' \<noteq> Value e"
      using inv_entry[OF inv old] inv_entry[OF inv e] ne by auto
    with inv_entry[OF inv old] show ?thesis by simp
  qed
  have d: "\<exists>e'. refs ?t r' = Some e' \<and> Value e' = w" if "objectRefs ?t w = Some r'" for w r'
  proof -
    from that have ne: "w \<noteq> Value e" and old: "objectRefs t w = Some r'" by (auto split: if_splits)
    from inv_object[OF inv old] obtain e0 where e0: "refs t r' = Some e0" "Value e0 = w" by blast
    have "r' \<noteq> r" using e0 e ne by auto
    then show ?thesis using e0 by simp
  qed
  show ?thesis unfolding tracker_inv_def using a b d by blast
qed

lemma cnt_upd: "cnt (t\<lparr>refs := (refs t)(r \<mapsto> e)\<rparr>) r' = (if r' = r then Count e else cnt t r')"
  by (simp add: cnt_def)

lemma step_Inc:
  assumes inv: "tracker_inv t" and st: "tracker_step t (OpInc value) = (ev, t')"
  shows "tracker_inv t' \<and> (\<forall>r. cnt t' r = cnt t r + delta ev r)"
proof (cases "value")
  case None
  then show ?thesis using inv st by (auto simp: tracker_step_def Inc_null)
next
  case (Some v)
  show ?thesis
  proof (cases "objectRefs t v")
    case None
    show ?thesis
    proof (cases "nextRefnum t = int_MaxValue")
      case True
      from Inc_fresh_overflow[OF None True] st Some inv show ?thesis
        by (auto simp: tracker_step_def)
    next
      case False
      have none: "refs t (nextRefnum t) = None"
        using inv by (cases "refs t (nextRefnum t)") (auto simp: tracker_inv_def)
      from Inc_fresh[OF inv None False] st Some
      have ev: "ev = EvInc (nextRefnum t)"
        and t': "t' = t\<lparr>nextRefnum := nextRefnum t + 1,
              objectRefs := (objectRefs t)(v \<mapsto> nextRefnum t),
              refs := (refs t)(nextRefnum t \<mapsto> \<lparr>Value = v, Count = 1\<rparr>)\<rparr>"
        by (auto simp: tracker_step_def)
      have "cnt t' r = cnt t r + delta ev r" for r
        using none by (simp add: t' ev cnt_def)
      with inv_fresh[OF inv None False] show ?thesis by (simp add: t')
    qed
  next
    case (Some r)
    from inv_object[OF inv Some] obtain e where e: "refs t r = Some e" "Value e = v" by blast
    note ent = inv_entry[OF inv e(1)]
    show ?thesis
    proof (cases "Count e = int_MaxValue")
      case True
      from Inc_known[OF Some e(1)] Ref_Inc_overflow[OF True] st \<open>value = Some v\<close> inv
      show ?thesis by (auto simp: tracker_step_def)
    next
      case False
      then have lt: "Count e < int_MaxValue" using ent by simp
      have ri: "Ref_Inc e = Inr (e\<lparr>Count := Count e + 1\<rparr>)"
        using ent lt by (intro Ref_Inc_ok) auto
      from Inc_known[OF Some e(1)] ri st \<open>value = Some v\<close>
      have ev: "ev = EvInc r" and t': "t' = t\<lparr>refs := (refs t)(r \<mapsto> e\<lparr>Count := Count e + 1\<rparr>)\<rparr>"
        by (auto simp: tracker_step_def)
      have "cnt t' r' = cnt t r' + delta ev r'" for r'
        using e(1) by (simp add: t' ev cnt_def)
      moreover have "tracker_inv t'"
        unfolding t' using ent lt by (intro inv_bump[OF inv e(1)]) auto
      ultimately show ?thesis by simp
    qed
  qed
qed

lemma step_IncRefnum:
  assumes inv: "tracker_inv t" and st: "tracker_step t (OpIncRefnum r) = (ev, t')"
  shows "tracker_inv t' \<and> (\<forall>r. cnt t' r = cnt t r + delta ev r)"
proof (cases "r \<le> 0 \<or> r = NullRefNum")
  case True
  then show ?thesis using inv st by (auto simp: tracker_step_def RefTracker_IncRefnum_def)
next
  case range: False
  show ?thesis
  proof (cases "refs t r")
    case None
    then show ?thesis using inv st range
      by (auto simp: tracker_step_def RefTracker_IncRefnum_def)
  next
    case (Some e)
    note ent = inv_entry[OF inv Some]
    show ?thesis
    proof (cases "Count e = int_MaxValue")
      case True
      then show ?thesis using inv st range Some Ref_Inc_overflow[OF True]
        by (auto simp: tracker_step_def RefTracker_IncRefnum_def)
    next
      case False
      then have lt: "Count e < int_MaxValue" using ent by simp
      have ri: "Ref_Inc e = Inr (e\<lparr>Count := Count e + 1\<rparr>)"
        using ent lt by (intro Ref_Inc_ok) auto
      from st range Some ri
      have ev: "ev = EvInc r" and t': "t' = t\<lparr>refs := (refs t)(r \<mapsto> e\<lparr>Count := Count e + 1\<rparr>)\<rparr>"
        by (auto simp: tracker_step_def RefTracker_IncRefnum_def)
      have "cnt t' r' = cnt t r' + delta ev r'" for r'
        using Some by (simp add: t' ev cnt_def)
      moreover have "tracker_inv t'"
        unfolding t' using ent lt by (intro inv_bump[OF inv Some]) auto
      ultimately show ?thesis by simp
    qed
  qed
qed

lemma DecRefnum_entry:
  assumes inv: "tracker_inv t" and e: "refs t r = Some e"
  shows "RefTracker_DecRefnum t r =
           (if Count e = 1
            then t\<lparr>refs := (refs t)(r := None), objectRefs := (objectRefs t)(Value e := None)\<rparr>
            else t\<lparr>refs := (refs t)(r \<mapsto> e\<lparr>Count := Count e - 1\<rparr>)\<rparr>)"
proof -
  note ent = inv_entry[OF inv e]
  have range: "\<not> (r \<le> 0 \<or> r = NullRefNum)"
    using ent by (simp add: RefOffset_def NullRefNum_def)
  have rd: "Ref_Dec e = e\<lparr>Count := Count e - 1\<rparr>"
    using ent by (intro Ref_Dec_ok) auto
  show ?thesis
    using range e rd ent by (auto simp: RefTracker_DecRefnum_def Let_def)
qed

lemma step_DecRefnum:
  assumes inv: "tracker_inv t" and st: "tracker_step t (OpDecRefnum r) = (ev, t')"
  shows "tracker_inv t' \<and> (\<forall>r. cnt t' r = cnt t r + delta ev r)"
proof (cases "r \<le> 0 \<or> r = NullRefNum")
  case True
  then show ?thesis using inv st by (auto simp: tracker_step_def RefTracker_DecRefnum_def)
next
  case range: False
  show ?thesis
  proof (cases "refs t r")
    case None
    then show ?thesis using inv st range
      by (auto simp: tracker_step_def RefTracker_DecRefnum_def)
  next
    case (Some e)
    note ent = inv_entry[OF inv Some]
    from st range Some have ev: "ev = EvDec r" and t': "t' = RefTracker_DecRefnum t r"
      by (auto simp: tracker_step_def)
    show ?thesis
    proof (cases "Count e = 1")
      case True
      have "cnt t' r' = cnt t r' + delta ev r'" for r'
        using Some True by (simp add: t' ev cnt_def DecRefnum_entry[OF inv Some])
      moreover have "tracker_inv t'"
        using True inv_drop[OF inv Some] by (simp add: t' DecRefnum_entry[OF inv Some])
      ultimately show ?thesis by simp
    next
      case False
      have "cnt t' r' = cnt t r' + delta ev r'" for r'
        using Some False by (simp add: t' ev cnt_def DecRefnum_entry[OF inv Some])
      moreover have "tracker_inv t'"
        using False ent inv_bump[OF inv Some, of "Count e - 1"]
        by (simp add: t' DecRefnum_entry[OF inv Some])
      ultimately show ?thesis by simp
    qed
  qed
qed

lemma step_inv:
  assumes "tracker_inv t" "tracker_step t op = (ev, t')"
  shows "tracker_inv t' \<and> (\<forall>r. cnt t' r = cnt t r + delta ev r)"
  using assms step_Inc step_IncRefnum step_DecRefnum by (cases op) blast+

lemma run_inv:
  "tracker_inv t \<Longrightarrow> tracker_run t ops = (evs, t') \<Longrightarrow>
     tracker_inv t' \<and> (\<forall>r. cnt t' r = cnt t r + (\<Sum>ev\<leftarrow>evs. delta ev r))"
proof (induction ops arbitrary: t evs t')
  case Nil
  then show ?case by simp
next
  case (Cons op ops)
  obtain ev t1 where s: "tracker_step t op = (ev, t1)" by (cases "tracker_step t op")
  obtain evs1 t2 where r: "tracker_run t1 ops = (evs1, t2)" by (cases "tracker_run t1 ops")
  from Cons.prems(2) s r have eq: "evs = ev # evs1" "t' = t2" by auto
  from step_inv[OF Cons.prems(1) s] have i1: "tracker_inv t1"
    and c1: "\<And>r. cnt t1 r = cnt t r + delta ev r" by auto
  from Cons.IH[OF i1 r] have i2: "tracker_inv t2"
    and c2: "\<And>r. cnt t2 r = cnt t1 r + (\<Sum>ev\<leftarrow>evs1. delta ev r)" by auto
  show ?case using i2 c1 c2 by (simp add: eq)
qed

lemma sum_delta: "(\<Sum>ev\<leftarrow>evs. delta ev r) = increments evs r - decrements evs r"
proof (induction evs)
  case Nil
  then show ?case by (simp add: increments_def decrements_def)
next
  case (Cons ev evs)
  then show ?case by (cases ev) (auto simp: increments_def decrements_def)
qed



lemma run_new:
  assumes "tracker_run RefTracker_new ops = (evs, t)"
  shows "tracker_inv t" and "cnt t r = increments evs r - decrements evs r"
proof -
  from run_inv[OF inv_new assms] show "tracker_inv t" by simp
  from run_inv[OF inv_new assms] have "cnt t r = cnt RefTracker_new r + (\<Sum>ev\<leftarrow>evs. delta ev r)"
    by simp
  then show "cnt t r = increments evs r - decrements evs r"
    by (simp add: sum_delta cnt_def RefTracker_new_def)
qed

lemma inv_empty:
  assumes inv: "tracker_inv t" and z: "\<And>r. cnt t r = 0"
  shows "refs t = Map.empty \<and> objectRefs t = Map.empty"
proof -
  have r: "refs t r = None" for r
  proof (cases "refs t r")
    case None then show ?thesis .
  next
    case (Some e)
    from inv_entry[OF inv Some] z[of r] Some show ?thesis by (simp add: cnt_def)
  qed
  have "objectRefs t v = None" for v
  proof (cases "objectRefs t v")
    case None then show ?thesis .
  next
    case (Some r')
    from inv_object[OF inv Some] r show ?thesis by auto
  qed
  with r show ?thesis by (simp add: fun_eq_iff)
qed

lemma step_keeps_entry:
  assumes inv: "tracker_inv t" and e: "refs t r = Some e"
  shows "(refs (snd (tracker_step t op)) r = None) = (op = OpDecRefnum r \<and> Count e = 1)"
    and "(objectRefs (snd (tracker_step t op)) (Value e) = None) = (op = OpDecRefnum r \<and> Count e = 1)"
proof -
  note ent = inv_entry[OF inv e]
  have both: "((refs (snd (tracker_step t op)) r = None) = (op = OpDecRefnum r \<and> Count e = 1)) \<and>
    ((objectRefs (snd (tracker_step t op)) (Value e) = None) = (op = OpDecRefnum r \<and> Count e = 1))"
  proof (cases op)
    case (OpInc val)
    show ?thesis
    proof (cases val)
      case None
      then show ?thesis using OpInc e ent by (simp add: tracker_step_def Inc_null)
    next
      case (Some v)
      show ?thesis
      proof (cases "objectRefs t v")
        case None
        show ?thesis
        proof (cases "nextRefnum t = int_MaxValue")
          case True
          from Inc_fresh_overflow[OF None True] show ?thesis
            using OpInc Some e ent by (simp add: tracker_step_def)
        next
          case False
          have "Value e \<noteq> v" using ent None by auto
          then show ?thesis
            using Inc_fresh[OF inv None False] OpInc Some e ent by (simp add: tracker_step_def)
        qed
      next
        case (Some r0)
        from inv_object[OF inv Some] obtain e0 where e0: "refs t r0 = Some e0" "Value e0 = v" by blast
        show ?thesis
          using Inc_known[OF Some e0(1)] OpInc \<open>val = Some v\<close> e ent
          by (auto simp: tracker_step_def split: sum.splits)
      qed
    qed
  next
    case (OpIncRefnum r0)
    then show ?thesis using e ent
      by (auto simp: tracker_step_def RefTracker_IncRefnum_def split: option.splits sum.splits)
  next
    case (OpDecRefnum r0)
    show ?thesis
    proof (cases "r0 \<le> 0 \<or> r0 = NullRefNum")
      case True
      then have "r0 \<noteq> r" using ent by (auto simp: RefOffset_def NullRefNum_def)
      then show ?thesis using True OpDecRefnum e ent
        by (auto simp: tracker_step_def RefTracker_DecRefnum_def)
    next
      case range: False
      show ?thesis
      proof (cases "refs t r0")
        case None
        then have "r0 \<noteq> r" using e by auto
        then show ?thesis using None range OpDecRefnum e ent
          by (auto simp: tracker_step_def RefTracker_DecRefnum_def)
      next
        case (Some e0)
        note ent0 = inv_entry[OF inv Some]
        show ?thesis
        proof (cases "r0 = r")
          case True
          then have "e0 = e" using Some e by simp
          then show ?thesis using True OpDecRefnum e ent DecRefnum_entry[OF inv e]
            by (simp add: tracker_step_def)
        next
          case False
          then have "Value e0 \<noteq> Value e" using ent ent0 by auto
          then show ?thesis using False OpDecRefnum e ent DecRefnum_entry[OF inv Some]
            by (simp add: tracker_step_def)
        qed
      qed
    qed
  qed
  from both show "(refs (snd (tracker_step t op)) r = None) = (op = OpDecRefnum r \<and> Count e = 1)"
    by simp
  from both show "(objectRefs (snd (tracker_step t op)) (Value e) = None) = (op = OpDecRefnum r \<and> Count e = 1)"
    by simp
qed

lemma Inc_interned:
  assumes inv: "tracker_inv t" and o: "objectRefs t x = Some r"
  shows "fst (RefTracker_Inc t (Some x)) = Inr r \<or>
         fst (RefTracker_Inc t (Some x)) = Inl (InvalidOperationException ''Ref: refcount overflow'')"
proof -
  from inv_object[OF inv o] obtain e where e: "refs t r = Some e" by blast
  show ?thesis using Inc_known[OF o e] by (auto simp: Ref_Inc_def)
qed

text \<open>
  C5. Refcount conservation, for every schedule of \<open>Inc\<close>, \<open>IncRefnum\<close> and
  \<open>DecRefnum\<close> run on a new tracker. An increment of \<open>r\<close> is a call that returned
  \<open>r\<close> or incremented the entry of \<open>r\<close>; a decrement of \<open>r\<close> is a \<open>DecRefnum\<close> that
  found the entry of \<open>r\<close> (a \<open>DecRefnum\<close> on a refnum without an entry does nothing
  and is no decrement of any entry).
  \<^item> The count of every entry left is its increments minus its decrements.
  \<^item> If the schedule is balanced (as many decrements as increments, for every refnum),
    both dictionaries are empty afterwards.
  \<^item> One more call removes an entry, from both dictionaries, exactly when it is the
    \<open>DecRefnum\<close> of an entry whose count is 1, so that it falls to zero.
  \<^item> While the entry of an object is there, \<open>Inc\<close> of the object returns the same
    refnum (or throws because the count is at its maximum).
\<close>

theorem RefTracker_conservation:
  "(case tracker_run RefTracker_new ops of
      (evs, t) \<Rightarrow>
        (\<forall>r e. refs t r = Some e \<longrightarrow> Count e = increments evs r - decrements evs r) \<and>
        ((\<forall>r. increments evs r = decrements evs r) \<longrightarrow>
           refs t = Map.empty \<and> objectRefs t = Map.empty) \<and>
        (\<forall>r e op. refs t r = Some e \<longrightarrow>
           ((refs (snd (tracker_step t op)) r = None) = (op = OpDecRefnum r \<and> Count e = 1)) \<and>
           ((objectRefs (snd (tracker_step t op)) (Value e) = None) =
              (op = OpDecRefnum r \<and> Count e = 1))) \<and>
        (\<forall>x r. objectRefs t x = Some r \<longrightarrow>
           fst (RefTracker_Inc t (Some x)) = Inr r \<or>
           fst (RefTracker_Inc t (Some x)) =
             Inl (InvalidOperationException ''Ref: refcount overflow'')))"
proof -
  obtain evs t where run: "tracker_run RefTracker_new ops = (evs, t)"
    by (cases "tracker_run RefTracker_new ops")
  note inv = run_new(1)[OF run] and c = run_new(2)[OF run]
  have a: "Count e = increments evs r - decrements evs r" if "refs t r = Some e" for r e
    using c[of r] that by (simp add: cnt_def)
  have b: "refs t = Map.empty \<and> objectRefs t = Map.empty"
    if "\<forall>r. increments evs r = decrements evs r"
    using that c by (intro inv_empty[OF inv]) simp
  show ?thesis
    using a b step_keeps_entry[OF inv] Inc_interned[OF inv] by (simp add: run)
qed

lemmas tracker_eval = tracker_step_def RefTracker_Inc_def RefTracker_IncRefnum_def
  RefTracker_DecRefnum_def Ref_Inc_def Ref_Dec_def wrap32_def int_MaxValue_def NullRefNum_def
  RefOffset_def RefTracker_new_def Let_def

lemma sampleOps_events:
  "fst (tracker_run RefTracker_new sampleOps) =
     [EvInc 42, EvInc 42, EvInc 42, EvDec 42, EvInc 43, EvDec 42, EvDec 42, EvDec 43]"
  by (simp add: sampleOps_def tracker_eval)

lemma sampleOpsOpen_run:
  "fst (tracker_run RefTracker_new sampleOpsOpen) = [EvInc 42, EvInc 42, EvDec 42] \<and>
   refs (snd (tracker_run RefTracker_new sampleOpsOpen)) 42 = Some \<lparr>Value = 7, Count = 1\<rparr> \<and>
   objectRefs (snd (tracker_run RefTracker_new sampleOpsOpen)) 7 = Some 42"
  by (simp add: sampleOpsOpen_def tracker_eval)

text \<open>The theorem at two schedules: a balanced one and one that leaves a reference.\<close>

theorem RefTracker_conservation_witness:
  "fst (tracker_run RefTracker_new sampleOps) =
     [EvInc 42, EvInc 42, EvInc 42, EvDec 42, EvInc 43, EvDec 42, EvDec 42, EvDec 43] \<and>
   refs (snd (tracker_run RefTracker_new sampleOps)) = Map.empty \<and>
   objectRefs (snd (tracker_run RefTracker_new sampleOps)) = Map.empty \<and>
   fst (tracker_run RefTracker_new sampleOpsOpen) = [EvInc 42, EvInc 42, EvDec 42] \<and>
   refs (snd (tracker_run RefTracker_new sampleOpsOpen)) 42 = Some \<lparr>Value = 7, Count = 1\<rparr> \<and>
   objectRefs (snd (tracker_run RefTracker_new sampleOpsOpen)) 7 = Some 42 \<and>
   increments (fst (tracker_run RefTracker_new sampleOpsOpen)) 42
     - decrements (fst (tracker_run RefTracker_new sampleOpsOpen)) 42 = 1 \<and>
   refs (snd (tracker_step (snd (tracker_run RefTracker_new sampleOpsOpen)) (OpDecRefnum 42))) 42 = None \<and>
   objectRefs (snd (tracker_step (snd (tracker_run RefTracker_new sampleOpsOpen)) (OpDecRefnum 42))) 7 = None \<and>
   fst (RefTracker_Inc (snd (tracker_run RefTracker_new sampleOpsOpen)) (Some 7)) = Inr 42"
proof -
  obtain evs t where run: "tracker_run RefTracker_new sampleOps = (evs, t)"
    by (cases "tracker_run RefTracker_new sampleOps")
  have evs: "evs = [EvInc 42, EvInc 42, EvInc 42, EvDec 42, EvInc 43, EvDec 42, EvDec 42, EvDec 43]"
    using sampleOps_events run by simp
  have bal: "\<forall>r. increments evs r = decrements evs r"
    by (simp add: evs increments_def decrements_def)
  from RefTracker_conservation[of sampleOps] bal
  have empty: "refs t = Map.empty \<and> objectRefs t = Map.empty" by (simp add: run)
  obtain evs' t' where run': "tracker_run RefTracker_new sampleOpsOpen = (evs', t')"
    by (cases "tracker_run RefTracker_new sampleOpsOpen")
  from sampleOpsOpen_run run' have o: "evs' = [EvInc 42, EvInc 42, EvDec 42]"
    "refs t' 42 = Some \<lparr>Value = 7, Count = 1\<rparr>" "objectRefs t' 7 = Some 42" by simp_all
  from RefTracker_conservation[of sampleOpsOpen]
  have T1: "\<forall>r e. refs t' r = Some e \<longrightarrow> Count e = increments evs' r - decrements evs' r"
    and T3: "\<forall>r e op. refs t' r = Some e \<longrightarrow>
           ((refs (snd (tracker_step t' op)) r = None) = (op = OpDecRefnum r \<and> Count e = 1)) \<and>
           ((objectRefs (snd (tracker_step t' op)) (Value e) = None) =
              (op = OpDecRefnum r \<and> Count e = 1))"
    and T4: "\<forall>x r. objectRefs t' x = Some r \<longrightarrow>
           fst (RefTracker_Inc t' (Some x)) = Inr r \<or>
           fst (RefTracker_Inc t' (Some x)) =
             Inl (InvalidOperationException ''Ref: refcount overflow'')"
    by (simp_all add: run')
  from T1 o(2) have c: "Count \<lparr>Value = 7, Count = 1\<rparr> = increments evs' 42 - decrements evs' 42"
    by blast
  from T3 o(2) have d: "refs (snd (tracker_step t' (OpDecRefnum 42))) 42 = None"
      "objectRefs (snd (tracker_step t' (OpDecRefnum 42))) 7 = None"
    by fastforce+
  from T4 o(3) have i: "fst (RefTracker_Inc t' (Some 7)) = Inr 42 \<or>
           fst (RefTracker_Inc t' (Some 7)) = Inl (InvalidOperationException ''Ref: refcount overflow'')"
    by blast
  have i': "fst (RefTracker_Inc t' (Some 7)) = Inr 42"
    using o(2,3) by (simp add: RefTracker_Inc_def Ref_Inc_def int_MaxValue_def wrap32_def)
  show ?thesis using evs empty o c d i' by (simp add: run run')
qed

text \<open>
  C9 (as amended). \<open>IncRefnum\<close> throws on a positive refnum, other than the sentinel,
  that has no entry; on a refnum that is zero or negative it returns without doing
  anything (the guard of line 1675). \<open>GetRef\<close> throws on every refnum without an entry
  but the sentinel. \<open>Inc\<close> of an object not yet tracked throws when the counter is at
  \<open>int.MaxValue\<close>, and incrementing an entry whose count is at \<open>int.MaxValue\<close>
  throws, through \<open>Inc\<close> and through \<open>IncRefnum\<close>. The tracker is left as it was.
\<close>

theorem runtime_invariant_errors:
  "(0 < r \<and> r \<noteq> NullRefNum \<and> refs t r = None \<longrightarrow>
      RefTracker_IncRefnum t r = (Inl (InvalidOperationException ''unknown reference''), t)) \<and>
   (r \<le> 0 \<longrightarrow> RefTracker_IncRefnum t r = (Inr (), t)) \<and>
   (r \<noteq> NullRefNum \<and> refs t r = None \<longrightarrow>
      RefTracker_GetRef t r = Inl (InvalidOperationException ''unknown reference'')) \<and>
   (objectRefs t x = None \<and> nextRefnum t = int_MaxValue \<longrightarrow>
      RefTracker_Inc t (Some x) =
        (Inl (InvalidOperationException ''RefTracker: refnum overflow''), t)) \<and>
   (objectRefs t x = Some r \<and> refs t r = Some e \<and> Count e = int_MaxValue \<longrightarrow>
      RefTracker_Inc t (Some x) =
        (Inl (InvalidOperationException ''Ref: refcount overflow''), t)) \<and>
   (0 < r \<and> r \<noteq> NullRefNum \<and> refs t r = Some e \<and> Count e = int_MaxValue \<longrightarrow>
      RefTracker_IncRefnum t r =
        (Inl (InvalidOperationException ''Ref: refcount overflow''), t))"
  by (auto simp: RefTracker_IncRefnum_def RefTracker_GetRef_def RefTracker_Inc_def Ref_Inc_def)

theorem runtime_invariant_errors_witness:
  "(0::int) < 50 \<and> 50 \<noteq> NullRefNum \<and> refs RefTracker_new 50 = None \<and>
   RefTracker_IncRefnum RefTracker_new 50 =
     (Inl (InvalidOperationException ''unknown reference''), RefTracker_new) \<and>
   RefTracker_GetRef RefTracker_new 50 = Inl (InvalidOperationException ''unknown reference'') \<and>
   objectRefs fullTracker 7 = None \<and> nextRefnum fullTracker = int_MaxValue \<and>
   RefTracker_Inc fullTracker (Some 7) =
     (Inl (InvalidOperationException ''RefTracker: refnum overflow''), fullTracker) \<and>
   objectRefs saturatedTracker 7 = Some 42 \<and>
   refs saturatedTracker 42 = Some \<lparr>Value = 7, Count = int_MaxValue\<rparr> \<and>
   RefTracker_Inc saturatedTracker (Some 7) =
     (Inl (InvalidOperationException ''Ref: refcount overflow''), saturatedTracker) \<and>
   RefTracker_IncRefnum saturatedTracker 42 =
     (Inl (InvalidOperationException ''Ref: refcount overflow''), saturatedTracker) \<and>
   RefTracker_IncRefnum saturatedTracker (- 3) = (Inr (), saturatedTracker)"
proof -
  have a: "(0::int) < 50 \<and> 50 \<noteq> NullRefNum \<and> refs RefTracker_new 50 = None"
    by (simp add: NullRefNum_def RefTracker_new_def)
  have b: "objectRefs fullTracker 7 = None \<and> nextRefnum fullTracker = int_MaxValue"
    by (simp add: fullTracker_def)
  have c: "objectRefs saturatedTracker 7 = Some 42 \<and>
           refs saturatedTracker 42 = Some \<lparr>Value = 7, Count = int_MaxValue\<rparr> \<and>
           (0::int) < 42 \<and> 42 \<noteq> NullRefNum \<and> Count \<lparr>Value = 7, Count = int_MaxValue\<rparr> = int_MaxValue"
    by (simp add: saturatedTracker_def NullRefNum_def)
  from runtime_invariant_errors[of 50 RefTracker_new 7 "\<lparr>Value = 7, Count = 1\<rparr>"] a
    runtime_invariant_errors[of 42 fullTracker 7 "\<lparr>Value = 7, Count = 1\<rparr>"] b
    runtime_invariant_errors[of 42 saturatedTracker 7 "\<lparr>Value = 7, Count = int_MaxValue\<rparr>"] c
    runtime_invariant_errors[of "- 3" saturatedTracker 7 "\<lparr>Value = 7, Count = 1\<rparr>"]
  show ?thesis by simp
qed

text \<open>
  The claim as stated fails: \<open>-7\<close> is not the sentinel and is not tracked, and
  \<open>IncRefnum\<close> returns normally on it.
\<close>

theorem IncRefnum_unknown_counterexample:
  "- 7 \<noteq> NullRefNum \<and> refs RefTracker_new (- 7) = None \<and>
   RefTracker_IncRefnum RefTracker_new (- 7) = (Inr (), RefTracker_new)"
  by (simp add: NullRefNum_def RefTracker_new_def RefTracker_IncRefnum_def)

lemma run_allocated:
  assumes "tracker_run RefTracker_new ops = (evs, t)" "objectRefs t v = Some r"
  shows "RefOffset \<le> r \<and> (\<exists>e. refs t r = Some e \<and> Value e = v)"
proof -
  note inv = run_new(1)[OF assms(1)]
  from inv_object[OF inv assms(2)] obtain e where e: "refs t r = Some e" "Value e = v" by blast
  from inv_entry[OF inv e(1)] e show ?thesis by auto
qed

text \<open>
  C1 (as amended). The signs are the other way round: a negative refnum names a Go
  object and a positive one a managed object. \<open>FromRefnum\<close> returns \<open>null\<close> on the
  sentinel, a new proxy when the refnum is negative, and otherwise the object the
  tracker holds for the refnum (it throws when there is none, or when the object is not
  of the interface type). The sentinel is 41; the tracker gives \<open>null\<close> the sentinel,
  gives the first object \<open>RefOffset = 42\<close>, and every refnum it holds after any schedule
  is positive, at least \<open>RefOffset\<close>, not the sentinel, and is mapped back by
  \<open>FromRefnum\<close> to the object it was given for.
\<close>

theorem FromRefnum_sign_convention:
  "Proxy_FromRefnum impl t NullRefNum = Inr MNull \<and>
   (r < 0 \<longrightarrow> Proxy_FromRefnum impl t r = Inr (MProxy r)) \<and>
   (0 \<le> r \<and> r \<noteq> NullRefNum \<longrightarrow>
      Proxy_FromRefnum impl t r =
        (case refs t r of
           None \<Rightarrow> Inl (InvalidOperationException ''unknown reference'')
         | Some e \<Rightarrow> if impl (Value e) then Inr (MObject (Value e)) else Inl InvalidCastException)) \<and>
   NullRefNum = 41 \<and> RefOffset = 42 \<and>
   RefTracker_Inc RefTracker_new None = (Inr NullRefNum, RefTracker_new) \<and>
   fst (RefTracker_Inc RefTracker_new (Some x)) = Inr RefOffset \<and>
   (case tracker_run RefTracker_new ops of
      (evs, t') \<Rightarrow>
        \<forall>v r'. objectRefs t' v = Some r' \<longrightarrow>
          0 < r' \<and> RefOffset \<le> r' \<and> r' \<noteq> NullRefNum \<and>
          Proxy_FromRefnum impl t' r' = (if impl v then Inr (MObject v) else Inl InvalidCastException))"
proof -
  have a: "Proxy_FromRefnum impl t NullRefNum = Inr MNull"
    by (simp add: Proxy_FromRefnum_def)
  have b: "r < 0 \<longrightarrow> Proxy_FromRefnum impl t r = Inr (MProxy r)"
    by (simp add: Proxy_FromRefnum_def NullRefNum_def)
  have c: "0 \<le> r \<and> r \<noteq> NullRefNum \<longrightarrow>
      Proxy_FromRefnum impl t r =
        (case refs t r of
           None \<Rightarrow> Inl (InvalidOperationException ''unknown reference'')
         | Some e \<Rightarrow> if impl (Value e) then Inr (MObject (Value e)) else Inl InvalidCastException)"
    by (auto simp: Proxy_FromRefnum_def RefTracker_GetRef_def split: option.splits)
  have d: "fst (RefTracker_Inc RefTracker_new (Some x)) = Inr RefOffset"
    by (simp add: RefTracker_Inc_def RefTracker_new_def Ref_Inc_def RefOffset_def int_MaxValue_def)
  obtain evs t' where run: "tracker_run RefTracker_new ops = (evs, t')"
    by (cases "tracker_run RefTracker_new ops")
  have e: "0 < r' \<and> RefOffset \<le> r' \<and> r' \<noteq> NullRefNum \<and>
          Proxy_FromRefnum impl t' r' = (if impl v then Inr (MObject v) else Inl InvalidCastException)"
    if "objectRefs t' v = Some r'" for v r'
    using run_allocated[OF run that]
    by (auto simp: Proxy_FromRefnum_def RefTracker_GetRef_def RefOffset_def NullRefNum_def)
  show ?thesis using a b c d e
    by (simp add: run Inc_null NullRefNum_def RefOffset_def)
qed

theorem FromRefnum_sign_convention_witness:
  "(- 5 :: int) < 0 \<and> Proxy_FromRefnum sampleImplements RefTracker_new (- 5) = Inr (MProxy (- 5)) \<and>
   (0::int) \<le> 42 \<and> 42 \<noteq> NullRefNum \<and>
   objectRefs (snd (tracker_run RefTracker_new sampleOpsOpen)) 7 = Some 42 \<and>
   Proxy_FromRefnum sampleImplements (snd (tracker_run RefTracker_new sampleOpsOpen)) 42
     = Inr (MObject 7) \<and>
   Proxy_FromRefnum sampleImplements RefTracker_new 42
     = Inl (InvalidOperationException ''unknown reference'')"
proof -
  obtain evs' t' where run': "tracker_run RefTracker_new sampleOpsOpen = (evs', t')"
    by (cases "tracker_run RefTracker_new sampleOpsOpen")
  from sampleOpsOpen_run run' have o: "objectRefs t' 7 = Some 42" by simp
  from FromRefnum_sign_convention[of sampleImplements RefTracker_new "- 5" 7 sampleOpsOpen]
  have n: "Proxy_FromRefnum sampleImplements RefTracker_new (- 5) = Inr (MProxy (- 5))"
    and T: "\<forall>v r'. objectRefs t' v = Some r' \<longrightarrow>
          0 < r' \<and> RefOffset \<le> r' \<and> r' \<noteq> NullRefNum \<and>
          Proxy_FromRefnum sampleImplements t' r' =
            (if sampleImplements v then Inr (MObject v) else Inl InvalidCastException)"
    by (simp_all add: run')
  from T o have p: "Proxy_FromRefnum sampleImplements t' 42 = Inr (MObject 7)"
    by (auto simp: sampleImplements_def)
  have h: "(0::int) \<le> 42 \<and> 42 \<noteq> NullRefNum" and h': "refs RefTracker_new 42 = None"
    by (simp_all add: NullRefNum_def RefTracker_new_def)
  from FromRefnum_sign_convention[of sampleImplements RefTracker_new 42 7 sampleOpsOpen]
  have "0 \<le> (42::int) \<and> 42 \<noteq> NullRefNum \<longrightarrow>
      Proxy_FromRefnum sampleImplements RefTracker_new 42 =
        (case refs RefTracker_new 42 of
           None \<Rightarrow> Inl (InvalidOperationException ''unknown reference'')
         | Some e \<Rightarrow> if sampleImplements (Value e) then Inr (MObject (Value e))
                     else Inl InvalidCastException)"
    by blast
  with h h' have u: "Proxy_FromRefnum sampleImplements RefTracker_new 42
     = Inl (InvalidOperationException ''unknown reference'')"
    by simp
  show ?thesis using n o p u by (simp add: run' NullRefNum_def)
qed

text \<open>
  The claim as stated fails: on the negative refnum \<open>-1\<close> the result is a new proxy,
  not an instance of the tracker; on the positive refnum 42, which the tracker gave to
  object 7, it is that object and not a new proxy.
\<close>

theorem FromRefnum_sign_counterexample:
  "Proxy_FromRefnum sampleImplements RefTracker_new (- 1) = Inr (MProxy (- 1)) \<and>
   fst (RefTracker_Inc RefTracker_new (Some 7)) = Inr 42 \<and>
   Proxy_FromRefnum sampleImplements (snd (RefTracker_Inc RefTracker_new (Some 7))) 42
     = Inr (MObject 7)"
  by (simp add: Proxy_FromRefnum_def RefTracker_GetRef_def sampleImplements_def tracker_eval)

section \<open>Strings and byte slices\<close>

text \<open>
  C10. \<open>BytesToNByteslice\<close> maps a null or zero-length array to the all-zero wire
  struct, and \<open>NBytesliceToBytes\<close> maps a wire value with zero pointer or zero length
  to an empty array; \<open>StringToNString\<close> maps a null or empty string to the zero wire
  struct and \<open>NStringToString\<close> maps it back to the empty string. Neither of the two
  helpers that produce a managed value ever returns \<^verbatim>\<open>null\<close>. So a null array or
  string that is sent and comes back with the same wire value arrives as the empty
  array or string. Native memory is not touched on any of these paths.
\<close>

theorem marshal_null_empty:
  "(bs = None \<or> bs = Some [] \<longrightarrow>
      BytesToNByteslice N h bs = (Inr \<lparr>b_ptr = 0, b_len = 0\<rparr>, h)) \<and>
   (b_ptr w = 0 \<or> b_len w = 0 \<longrightarrow> NBytesliceToBytes N h w free = (Inr (Some []), h)) \<and>
   fst (NBytesliceToBytes N h w free) \<noteq> Inr None \<and>
   (str = None \<or> str = Some [] \<longrightarrow>
      StringToNString N h str = (Inr \<lparr>s_ptr = 0, s_len = 0\<rparr>, h)) \<and>
   (s_ptr v = 0 \<or> s_len v = 0 \<longrightarrow> NStringToString N h v = (Inr (Some []), h)) \<and>
   fst (NStringToString N h v) \<noteq> Inr None \<and>
   (case BytesToNByteslice N h None of
      (Inr x, h1) \<Rightarrow> NBytesliceToBytes N h1 x free = (Inr (Some []), h)
    | (Inl e, h1) \<Rightarrow> False) \<and>
   (case StringToNString N h None of
      (Inr x, h1) \<Rightarrow> NStringToString N h1 x = (Inr (Some []), h)
    | (Inl e, h1) \<Rightarrow> False)"
  by (auto simp: BytesToNByteslice_def NBytesliceToBytes_def StringToNString_def
      NStringToString_def split: sum.splits)

theorem marshal_null_empty_witness:
  "BytesToNByteslice sampleNatives Map.empty None = (Inr \<lparr>b_ptr = 0, b_len = 0\<rparr>, Map.empty) \<and>
   BytesToNByteslice sampleNatives Map.empty (Some []) = (Inr \<lparr>b_ptr = 0, b_len = 0\<rparr>, Map.empty) \<and>
   NBytesliceToBytes sampleNatives Map.empty \<lparr>b_ptr = 0, b_len = 5\<rparr> True = (Inr (Some []), Map.empty) \<and>
   NBytesliceToBytes sampleNatives Map.empty \<lparr>b_ptr = 3, b_len = 0\<rparr> False = (Inr (Some []), Map.empty) \<and>
   StringToNString sampleNatives Map.empty None = (Inr \<lparr>s_ptr = 0, s_len = 0\<rparr>, Map.empty) \<and>
   StringToNString sampleNatives Map.empty (Some []) = (Inr \<lparr>s_ptr = 0, s_len = 0\<rparr>, Map.empty) \<and>
   NStringToString sampleNatives Map.empty \<lparr>s_ptr = 0, s_len = 5\<rparr> = (Inr (Some []), Map.empty) \<and>
   NStringToString sampleNatives Map.empty \<lparr>s_ptr = 3, s_len = 0\<rparr> = (Inr (Some []), Map.empty)"
proof -
  have z: "b_ptr \<lparr>b_ptr = 0, b_len = 5\<rparr> = 0" "b_len \<lparr>b_ptr = 3, b_len = 0\<rparr> = 0"
    "s_ptr \<lparr>s_ptr = 0, s_len = 5\<rparr> = 0" "s_len \<lparr>s_ptr = 3, s_len = 0\<rparr> = 0"
    by simp_all
  from marshal_null_empty[of None sampleNatives Map.empty "\<lparr>b_ptr = 0, b_len = 5\<rparr>" True None
      "\<lparr>s_ptr = 0, s_len = 5\<rparr>"]
    marshal_null_empty[of "Some []" sampleNatives Map.empty "\<lparr>b_ptr = 3, b_len = 0\<rparr>" False "Some []"
      "\<lparr>s_ptr = 3, s_len = 0\<rparr>"]
    z
  show ?thesis by simp
qed

section \<open>Constructors and return shapes\<close>

lemma collectConstructors_filter:
  "collectConstructors g s fs (cs, d) =
     (cs @ filter (\<lambda>f. constructorType g f = Some (sname s) \<and> isConsSigSupported g f) fs,
      d \<or> list_ex (\<lambda>f. constructorType g f = Some (sname s) \<and> isConsSigSupported g f \<and> fparams f = []) fs)"
  by (induction fs arbitrary: cs d) auto

lemma publicConstructors_set:
  "set (publicConstructors g s) =
     {f \<in> set (funcs g). constructorType g f = Some (sname s) \<and> isConsSigSupported g f}"
  by (simp add: publicConstructors_def collectConstructors_filter)

lemma isConsSigSupported_iff:
  "isConsSigSupported g f = (isSigSupported g f \<and> \<not> singleInt32Param f)"
  by (auto simp: isConsSigSupported_def singleInt32Param_def
      split: list.splits gotype.splits basic_kind.splits)

lemma emitToNativeParam_nativeOf: "c \<in> set (emitToNativeParam n t mode) \<Longrightarrow> nativeOf c = None"
  by (cases t) (auto simp: emitToNativeParam_def split: option.splits if_splits)

lemma map_filter_append_list:
  "List.map_filter h (xs @ ys) = List.map_filter h xs @ List.map_filter h ys"
  by (simp add: List.map_filter_def)

lemma map_filter_none: "(\<And>c. c \<in> set xs \<Longrightarrow> h c = None) \<Longrightarrow> List.map_filter h xs = []"
  by (induction xs) (simp_all add: List.map_filter_def)

lemma nativeCalled_constructor:
  "nativeCalled (genConstructorFromFunc g c f) = [proxyFuncName g [] (fname f)]"
proof -
  have a: "List.map_filter nativeOf
             (concat (map (\<lambda>p. emitToNativeParam (fst p) (snd p) modeTransient) (fparams f))) = []"
    by (rule map_filter_none) (auto dest: emitToNativeParam_nativeOf)
  have b: "List.map_filter nativeOf
             (map (\<lambda>p. emitFreeNativeParam (fst p))
                (filter (\<lambda>p. shouldFreeAfterCall (snd p) modeTransient) (fparams f))) = []"
    by (rule map_filter_none) (auto simp: emitFreeNativeParam_def)
  show ?thesis
    by (simp add: nativeCalled_def genConstructorFromFunc_def Let_def map_filter_append_list a b)
qed

lemma genConstructors_filter:
  "genConstructors g s =
     map (genConstructorFromFunc g (sname s))
       (filter (\<lambda>f. constructorType g f = Some (sname s) \<and> isSigSupported g f \<and>
                     \<not> singleInt32Param f) (funcs g))"
  by (simp add: genConstructors_def publicConstructors_def collectConstructors_filter
      isConsSigSupported_iff)

lemma genConstructors_natives:
  "concat (map nativeCalled (genConstructors g s)) =
     map (\<lambda>f. proxyFuncName g [] (fname f))
       (filter (\<lambda>f. constructorType g f = Some (sname s) \<and> isSigSupported g f \<and>
                     \<not> singleInt32Param f) (funcs g))"
proof -
  have "concat (map nativeCalled (map (genConstructorFromFunc g c) fs)) =
          map (\<lambda>f. proxyFuncName g [] (fname f)) fs" for c fs
    by (induction fs) (simp_all add: nativeCalled_constructor)
  then show ?thesis unfolding genConstructors_filter by simp
qed


text \<open>
  C7. The public constructors of the class of struct \<open>s\<close> that are printed from
  functions of the package are, in the order of the package, the constructors of the
  functions that construct \<open>s\<close>, are supported (\<^verbatim>\<open>isSigSupported\<close>, which every
  emitter asks before it prints a member) and do not have exactly one parameter of basic
  type \<open>int32\<close> or \<open>uint32\<close>; each printed constructor calls the Go function it is
  printed for and no other. So for a function \<open>f\<close> that constructs \<open>s\<close>: if its
  signature has exactly one parameter and that is a basic \<open>int32\<close> or \<open>uint32\<close>, it is
  not collected and, the functions of a package having distinct names, no printed
  constructor calls it; with any other parameter list (a single \<open>int64\<close> among them) its
  constructor is printed. The last line says both at once for the collected list.
\<close>

theorem constructor_clash_exclusion:
  "genConstructors g s =
     map (genConstructorFromFunc g (sname s))
       (filter (\<lambda>f. constructorType g f = Some (sname s) \<and> isSigSupported g f \<and>
                     \<not> singleInt32Param f) (funcs g)) \<and>
   concat (map nativeCalled (genConstructors g s)) =
     map (\<lambda>f. proxyFuncName g [] (fname f))
       (filter (\<lambda>f. constructorType g f = Some (sname s) \<and> isSigSupported g f \<and>
                     \<not> singleInt32Param f) (funcs g)) \<and>
   nativeCalled (genConstructorFromFunc g (sname s) f) = [proxyFuncName g [] (fname f)] \<and>
   (f \<in> set (publicConstructors g s) \<longrightarrow>
      f \<in> set (funcs g) \<and> constructorType g f = Some (sname s)) \<and>
   (f \<in> set (funcs g) \<and> constructorType g f = Some (sname s) \<longrightarrow>
      (singleInt32Param f \<longrightarrow>
         f \<notin> set (publicConstructors g s) \<and>
         (distinct (map fname (funcs g)) \<longrightarrow>
            proxyFuncName g [] (fname f) \<notin> set (concat (map nativeCalled (genConstructors g s))))) \<and>
      (\<not> singleInt32Param f \<and> isSigSupported g f \<longrightarrow>
         f \<in> set (publicConstructors g s) \<and>
         genConstructorFromFunc g (sname s) f \<in> set (genConstructors g s) \<and>
         proxyFuncName g [] (fname f) \<in> set (concat (map nativeCalled (genConstructors g s)))) \<and>
      (f \<in> set (publicConstructors g s)) = (isSigSupported g f \<and> \<not> singleInt32Param f))"
proof -
  let ?P = "\<lambda>f. constructorType g f = Some (sname s) \<and> isSigSupported g f \<and> \<not> singleInt32Param f"
  have neg: "proxyFuncName g [] (fname f) \<notin> set (concat (map nativeCalled (genConstructors g s)))"
    if f: "f \<in> set (funcs g)" and sp: "singleInt32Param f" and d: "distinct (map fname (funcs g))"
  proof
    assume "proxyFuncName g [] (fname f) \<in> set (concat (map nativeCalled (genConstructors g s)))"
    then obtain f' where f': "f' \<in> set (funcs g)" "?P f'"
      and eq: "proxyFuncName g [] (fname f) = proxyFuncName g [] (fname f')"
      unfolding genConstructors_natives by auto
    from eq have "fname f = fname f'" by (simp add: proxyFuncName_def)
    moreover from d have "inj_on fname (set (funcs g))" by (simp add: distinct_map)
    ultimately have "f = f'" using f f'(1) by (auto dest: inj_onD)
    with sp f'(2) show False by simp
  qed
  have pos: "genConstructorFromFunc g (sname s) f \<in> set (genConstructors g s) \<and>
             proxyFuncName g [] (fname f) \<in> set (concat (map nativeCalled (genConstructors g s)))"
    if "f \<in> set (funcs g)" "?P f"
    using that unfolding genConstructors_natives by (auto simp: genConstructors_filter)
  show ?thesis
    using neg pos
    by (auto simp: genConstructors_filter[symmetric] genConstructors_natives[symmetric]
        nativeCalled_constructor publicConstructors_set isConsSigSupported_iff)
qed


text \<open>
  \<open>NewFoo(int32)\<close> is left out; the constructors of \<open>NewFooWide(int64)\<close> and of a
  function of two parameters are the two that are printed.
\<close>

theorem constructor_clash_exclusion_witness:
  "newFoo32 \<in> set (funcs samplePkg) \<and> constructorType samplePkg newFoo32 = Some (sname fooStruct) \<and>
   singleInt32Param newFoo32 \<and> isSigSupported samplePkg newFoo32 \<and>
   distinct (map fname (funcs samplePkg)) \<and>
   newFoo32 \<notin> set (publicConstructors samplePkg fooStruct) \<and>
   ''proxypkg__NewFoo'' \<notin> set (concat (map nativeCalled (genConstructors samplePkg fooStruct))) \<and>
   newFoo64 \<in> set (funcs samplePkg) \<and> constructorType samplePkg newFoo64 = Some (sname fooStruct) \<and>
   \<not> singleInt32Param newFoo64 \<and> isSigSupported samplePkg newFoo64 \<and>
   newFoo64 \<in> set (publicConstructors samplePkg fooStruct) \<and>
   genConstructorFromFunc samplePkg ''Foo'' newFoo64 \<in> set (genConstructors samplePkg fooStruct) \<and>
   newFooNamed \<in> set (funcs samplePkg) \<and>
   constructorType samplePkg newFooNamed = Some (sname fooStruct) \<and>
   \<not> singleInt32Param newFooNamed \<and> isSigSupported samplePkg newFooNamed \<and>
   newFooNamed \<in> set (publicConstructors samplePkg fooStruct) \<and>
   genConstructors samplePkg fooStruct =
     [genConstructorFromFunc samplePkg ''Foo'' newFoo64,
      genConstructorFromFunc samplePkg ''Foo'' newFooNamed] \<and>
   concat (map nativeCalled (genConstructors samplePkg fooStruct)) =
     [''proxypkg__NewFooWide'', ''proxypkg__NewFooNamed'']"
proof -
  have a: "newFoo32 \<in> set (funcs samplePkg) \<and>
           constructorType samplePkg newFoo32 = Some (sname fooStruct) \<and>
           singleInt32Param newFoo32 \<and> isSigSupported samplePkg newFoo32"
    by (simp add: samplePkg_def newFoo32_def fooStruct_def sampleConstructorType_def fooType_def
        singleInt32Param_def sampleSigSupported_def sampleSupported_def)
  have b: "newFoo64 \<in> set (funcs samplePkg) \<and>
           constructorType samplePkg newFoo64 = Some (sname fooStruct) \<and>
           \<not> singleInt32Param newFoo64 \<and> isSigSupported samplePkg newFoo64"
    by (simp add: samplePkg_def newFoo64_def fooStruct_def sampleConstructorType_def fooType_def
        singleInt32Param_def sampleSigSupported_def sampleSupported_def)
  have c: "newFooNamed \<in> set (funcs samplePkg) \<and>
           constructorType samplePkg newFooNamed = Some (sname fooStruct) \<and>
           \<not> singleInt32Param newFooNamed \<and> isSigSupported samplePkg newFooNamed"
    by (simp add: samplePkg_def newFooNamed_def fooStruct_def sampleConstructorType_def fooType_def
        singleInt32Param_def sampleSigSupported_def sampleSupported_def errorType_def)
  have d: "distinct (map fname (funcs samplePkg))"
    by (simp add: samplePkg_def newFoo32_def newFoo64_def newFooNamed_def parseFunc_def
        pingFunc_def)
  have n: "sname fooStruct = ''Foo''" "proxyFuncName samplePkg [] (fname newFoo32) = ''proxypkg__NewFoo''"
    by (simp_all add: fooStruct_def proxyFuncName_def samplePkg_def newFoo32_def)
  have fl: "filter (\<lambda>f. constructorType samplePkg f = Some ''Foo'' \<and>
                        isSigSupported samplePkg f \<and> \<not> singleInt32Param f) (funcs samplePkg) =
            [newFoo64, newFooNamed]"
    by (simp add: samplePkg_def newFoo32_def newFoo64_def newFooNamed_def parseFunc_def
        pingFunc_def fooStruct_def sampleConstructorType_def fooType_def errorType_def
        singleInt32Param_def sampleSigSupported_def sampleSupported_def)
  have pn: "map (\<lambda>f. proxyFuncName samplePkg [] (fname f)) [newFoo64, newFooNamed] =
            [''proxypkg__NewFooWide'', ''proxypkg__NewFooNamed'']"
    by (simp add: proxyFuncName_def samplePkg_def newFoo64_def newFooNamed_def)
  note t32 = constructor_clash_exclusion[of samplePkg fooStruct newFoo32, unfolded n]
  note t64 = constructor_clash_exclusion[of samplePkg fooStruct newFoo64, unfolded n]
  note tnm = constructor_clash_exclusion[of samplePkg fooStruct newFooNamed, unfolded n]
  from t32 a d have r32: "newFoo32 \<notin> set (publicConstructors samplePkg fooStruct) \<and>
      ''proxypkg__NewFoo'' \<notin> set (concat (map nativeCalled (genConstructors samplePkg fooStruct)))"
    unfolding n by blast
  from t64 b have r64: "newFoo64 \<in> set (publicConstructors samplePkg fooStruct) \<and>
      genConstructorFromFunc samplePkg ''Foo'' newFoo64 \<in> set (genConstructors samplePkg fooStruct)"
    unfolding n by blast
  from tnm c have rnm: "newFooNamed \<in> set (publicConstructors samplePkg fooStruct)"
    unfolding n by blast
  from conjunct1[OF t32] have l: "genConstructors samplePkg fooStruct =
     [genConstructorFromFunc samplePkg ''Foo'' newFoo64,
      genConstructorFromFunc samplePkg ''Foo'' newFooNamed]"
    by (simp add: fl)
  from conjunct1[OF conjunct2[OF t32]]
  have k: "concat (map nativeCalled (genConstructors samplePkg fooStruct)) =
     [''proxypkg__NewFooWide'', ''proxypkg__NewFooNamed'']"
    unfolding fl pn .
  show ?thesis using a b c d r32 r64 rnm l k by blast
qed

subsection \<open>Return-shape collector\<close>

lemma collectStruct_map_of:
  "map_of (collectStruct c res rs) c' =
     (case map_of rs c' of
        Some x \<Rightarrow> Some x
      | None \<Rightarrow> if c' = c \<and> 1 < length res then Some res else None)"
  by (auto simp: collectStruct_def map_add_def split: option.splits)

lemma collectStruct_distinct:
  "distinct (map fst rs) \<Longrightarrow> distinct (map fst (collectStruct c res rs))"
  by (auto simp: collectStruct_def map_of_eq_None_iff)

lemma collect_fold:
  "distinct (map fst rs) \<Longrightarrow>
   distinct (map fst (foldl (\<lambda>rs (cName, res). collectStruct cName res rs) rs regs)) \<and>
   (\<forall>c. map_of (foldl (\<lambda>rs (cName, res). collectStruct cName res rs) rs regs) c =
      (case map_of rs c of
         Some x \<Rightarrow> Some x
       | None \<Rightarrow> map_option snd (find (\<lambda>(c', res). c' = c \<and> 1 < length res) regs)))"
proof (induction regs arbitrary: rs)
  case Nil
  then show ?case by (auto split: option.splits)
next
  case (Cons a regs)
  obtain c res where a: "a = (c, res)" by (cases a)
  from Cons.prems have d: "distinct (map fst (collectStruct c res rs))"
    by (rule collectStruct_distinct)
  from Cons.IH[OF d] show ?case
    by (auto simp: a collectStruct_map_of split: option.splits)
qed

lemma collectReturnStructs_props:
  "distinct (map fst (collectReturnStructs g))"
  "map_of (collectReturnStructs g) c = firstRegistration g c"
  using collect_fold[of "[]" "registrations g"]
  by (simp_all add: collectReturnStructs_def firstRegistration_def)

lemma enumerate_fields:
  "length (map (\<lambda>(i, field). (csNativeType field, i)) (enumerate 0 fs)) = length fs \<and>
   (\<forall>i<length fs. map (\<lambda>(i, field). (csNativeType field, i)) (enumerate 0 fs) ! i
        = (csNativeType (fs ! i), i))"
  by (simp add: nth_enumerate_eq)

lemma find_SomeD: "find P xs = Some x \<Longrightarrow> x \<in> set xs \<and> P x"
  by (induction xs) (auto split: if_splits)

text \<open>
  C8. The collected records have distinct canonical names; the record under a name is
  the result list of the first registration of that name with more than one result, and
  there is none when no registration of the name has more than one result. The records
  are printed in the lexicographic order of their canonical names, one for each collected
  name, and the fields of a record are \<open>r0, r1, ...\<close>, field \<open>i\<close> of the wire type of
  result \<open>i\<close>.
\<close>

theorem return_shape_collection:
  "distinct (map fst (collectReturnStructs g)) \<and>
   map_of (collectReturnStructs g) cName = firstRegistration g cName \<and>
   (\<forall>res. (cName, res) \<in> set (collectReturnStructs g) \<longrightarrow>
      1 < length res \<and> (cName, res) \<in> set (registrations g)) \<and>
   map canonical (emitReturnStructs ident (collectReturnStructs g))
     = sort (map fst (collectReturnStructs g)) \<and>
   sorted (map canonical (emitReturnStructs ident (collectReturnStructs g))) \<and>
   distinct (map canonical (emitReturnStructs ident (collectReturnStructs g))) \<and>
   set (map canonical (emitReturnStructs ident (collectReturnStructs g)))
     = {c. firstRegistration g c \<noteq> None} \<and>
   (\<forall>r \<in> set (emitReturnStructs ident (collectReturnStructs g)).
      structName r = csReturnStructName ident (canonical r) \<and>
      (\<exists>res. firstRegistration g (canonical r) = Some res \<and>
         length (rfields r) = length res \<and>
         (\<forall>i<length res. rfields r ! i = (csNativeType (res ! i), i))))"
proof -
  let ?rs = "collectReturnStructs g"
  note d = collectReturnStructs_props(1)[of g]
  note m = collectReturnStructs_props(2)[of g]
  have mem: "1 < length res \<and> (cName, res) \<in> set (registrations g)"
    if "(cName, res) \<in> set ?rs" for res
  proof -
    from that d have "map_of ?rs cName = Some res" by simp
    then have "firstRegistration g cName = Some res" by (simp add: m)
    then obtain x where x: "find (\<lambda>(c', res). c' = cName \<and> 1 < length res) (registrations g) = Some x"
      "snd x = res"
      by (auto simp: firstRegistration_def)
    have "x \<in> set (registrations g) \<and> fst x = cName \<and> 1 < length (snd x)"
      using find_SomeD[OF x(1)] by (auto split: prod.splits)
    with x(2) show ?thesis by (cases x) auto
  qed
  have can: "map canonical (emitReturnStructs ident ?rs) = sort (map fst ?rs)"
    by (simp add: emitReturnStructs_def comp_def)
  have dom: "set (map fst ?rs) = {c. firstRegistration g c \<noteq> None}"
  proof -
    have "c \<in> set (map fst ?rs) \<longleftrightarrow> firstRegistration g c \<noteq> None" for c
      using m[of c] by (metis map_of_eq_None_iff set_map)
    then show ?thesis by blast
  qed
  have fld: "structName r = csReturnStructName ident (canonical r) \<and>
      (\<exists>res. firstRegistration g (canonical r) = Some res \<and>
         length (rfields r) = length res \<and>
         (\<forall>i<length res. rfields r ! i = (csNativeType (res ! i), i)))"
    if "r \<in> set (emitReturnStructs ident ?rs)" for r
  proof -
    from that obtain name where n: "name \<in> set (map fst ?rs)"
      and r: "r = \<lparr>canonical = name, structName = csReturnStructName ident name,
             rfields = (case map_of ?rs name of
                         None \<Rightarrow> []
                       | Some fs \<Rightarrow> map (\<lambda>(i, field). (csNativeType field, i)) (enumerate 0 fs))\<rparr>"
      by (auto simp: emitReturnStructs_def)
    from n dom obtain res where res: "firstRegistration g name = Some res" by auto
    then have "map_of ?rs name = Some res" by (simp add: m)
    then show ?thesis using r res enumerate_fields[of res] by simp
  qed
  show ?thesis
    using d m mem can dom fld by (simp add: distinct_sort del: set_map) 
qed

text \<open>The sample package: five records, none for \<open>Ping\<close> or the one-result constructors.\<close>

lemma samplePkg_collected:
  "collectReturnStructs samplePkg =
     [(''proxypkg__Parse'', [Basic KInt, errorType]),
      (''proxypkg__NewFooNamed'', [fooType, errorType]),
      (''proxypkg_Foo_Load'', [fooType, errorType]),
      (''proxypkg_Sink_Load'', [fooType, errorType]),
      (''cproxypkg_Sink_Load'', [fooType, errorType])]"
  by (simp add: collectReturnStructs_def registrations_def samplePkg_def collectStruct_def
      proxyFuncName_def cproxyName_def newFoo32_def newFoo64_def newFooNamed_def parseFunc_def
      pingFunc_def fooStruct_def sinkIface_def loadMethod_def pushMethod_def)

lemma samplePkg_sorted:
  "sort [''proxypkg__Parse'', ''proxypkg__NewFooNamed'', ''proxypkg_Foo_Load'',
         ''proxypkg_Sink_Load'', ''cproxypkg_Sink_Load''] =
     [''cproxypkg_Sink_Load'', ''proxypkg_Foo_Load'', ''proxypkg_Sink_Load'',
      ''proxypkg__NewFooNamed'', ''proxypkg__Parse'']"
  by simp

theorem return_shape_collection_witness:
  "(''proxypkg__Parse'', [Basic KInt, errorType]) \<in> set (collectReturnStructs samplePkg) \<and>
   (''proxypkg__Parse'', [Basic KInt, errorType]) \<in> set (registrations samplePkg) \<and>
   firstRegistration samplePkg ''proxypkg__Parse'' = Some [Basic KInt, errorType] \<and>
   firstRegistration samplePkg ''proxypkg__Ping'' = None \<and>
   map canonical (emitReturnStructs sampleIdent (collectReturnStructs samplePkg)) =
     [''cproxypkg_Sink_Load'', ''proxypkg_Foo_Load'', ''proxypkg_Sink_Load'',
      ''proxypkg__NewFooNamed'', ''proxypkg__Parse''] \<and>
   \<lparr>canonical = ''proxypkg__Parse'', structName = ''CProxy_proxypkg__Parse_Return'',
     rfields = [(''long'', 0), (''int'', 1)]\<rparr>
     \<in> set (emitReturnStructs sampleIdent (collectReturnStructs samplePkg)) \<and>
   csReturnStructName sampleIdent ''proxypkg__Parse'' = ''CProxy_proxypkg__Parse_Return''"
proof -
  have mem: "(''proxypkg__Parse'', [Basic KInt, errorType]) \<in> set (collectReturnStructs samplePkg)"
    by (simp add: samplePkg_collected)
  have nm: "csReturnStructName sampleIdent ''proxypkg__Parse'' = ''CProxy_proxypkg__Parse_Return''"
    by (simp add: csReturnStructName_def sampleIdent_def csIdentifier_def newNameSanitizer_def
        csharpKeywords_def isIdentByte_def firstRuneIsLetter_def isAsciiLetter_def Let_def)
  have r: "\<lparr>canonical = ''proxypkg__Parse'', structName = ''CProxy_proxypkg__Parse_Return'',
     rfields = [(''long'', 0), (''int'', 1)]\<rparr>
     \<in> set (emitReturnStructs sampleIdent (collectReturnStructs samplePkg))"
    by (simp add: emitReturnStructs_def samplePkg_collected nm csNativeType_def errorType_def
        del: sort_key_simps) 
  from return_shape_collection[of samplePkg "''proxypkg__Parse''" sampleIdent]
  have T: "map_of (collectReturnStructs samplePkg) ''proxypkg__Parse''
             = firstRegistration samplePkg ''proxypkg__Parse''"
    and U: "\<forall>res. (''proxypkg__Parse'', res) \<in> set (collectReturnStructs samplePkg) \<longrightarrow>
      1 < length res \<and> (''proxypkg__Parse'', res) \<in> set (registrations samplePkg)"
    and V: "map canonical (emitReturnStructs sampleIdent (collectReturnStructs samplePkg))
              = sort (map fst (collectReturnStructs samplePkg))"
    by blast+
  from U mem have reg: "(''proxypkg__Parse'', [Basic KInt, errorType]) \<in> set (registrations samplePkg)"
    by blast
  from T have f: "firstRegistration samplePkg ''proxypkg__Parse'' = Some [Basic KInt, errorType]"
    by (simp add: samplePkg_collected)
  from return_shape_collection[of samplePkg "''proxypkg__Ping''" sampleIdent]
  have "map_of (collectReturnStructs samplePkg) ''proxypkg__Ping''
             = firstRegistration samplePkg ''proxypkg__Ping''" by blast
  then have p: "firstRegistration samplePkg ''proxypkg__Ping'' = None"
    by (simp add: samplePkg_collected)
  from V have s: "map canonical (emitReturnStructs sampleIdent (collectReturnStructs samplePkg)) =
     [''cproxypkg_Sink_Load'', ''proxypkg_Foo_Load'', ''proxypkg_Sink_Load'',
      ''proxypkg__NewFooNamed'', ''proxypkg__Parse'']"
    using samplePkg_sorted by (simp add: samplePkg_collected del: sort_key_simps)
  show ?thesis using mem reg f p s r nm by blast
qed

section \<open>Printed wrappers\<close>

lemma exec_block_append:
  "exec_block W (xs @ ys) E s =
     (case exec_block W xs E s of
        (Next, E1, s1) \<Rightarrow> exec_block W ys E1 s1
      | other \<Rightarrow> other)"
proof (induction xs arbitrary: E s)
  case Nil
  then show ?case by simp
next
  case (Cons c xs)
  obtain f E1 s1 where c: "exec_stmt W c E s = (f, E1, s1)" by (cases "exec_stmt W c E s")
  show ?case using Cons.IH by (cases f) (simp_all add: c)
qed

lemma plain_stmt_flow:
  "plainStmt c \<Longrightarrow> exec_stmt W c E s = (f, E1, s1) \<Longrightarrow> f = Next \<or> (\<exists>x. f = Throw x) \<or> f = Ill"
  by (cases c) (auto split: prod.splits eres.splits)

lemma plain_block_flow:
  "list_all plainStmt cs \<Longrightarrow> exec_block W cs E s = (f, E1, s1) \<Longrightarrow>
     f = Next \<or> (\<exists>x. f = Throw x) \<or> f = Ill"
proof (induction cs arbitrary: E s)
  case Nil
  then show ?case by simp
next
  case (Cons c cs)
  obtain f0 E0 s0 where c: "exec_stmt W c E s = (f0, E0, s0)" by (cases "exec_stmt W c E s")
  from Cons.prems(1) have pc: "plainStmt c" and pcs: "list_all plainStmt cs" by simp_all
  from plain_stmt_flow[OF pc c] consider "f0 = Next" | "f0 \<noteq> Next" "f0 = f" 
    using Cons.prems(2) c by (cases f0) auto
  then show ?case
  proof cases
    case 1
    then have "exec_block W cs E0 s0 = (f, E1, s1)" using Cons.prems(2) c by simp
    from Cons.IH[OF pcs this] show ?thesis .
  next
    case 2
    then show ?thesis using plain_stmt_flow[OF pc c] by auto
  qed
qed

subsection \<open>Draining the pending-exception queue\<close>

lemma instancePrologue_drains:
  assumes "\<not> disposed E" "pendingExceptions s = p # ps"
  shows "exec_block W (instancePrologue @ rest) E s =
           (Throw (InvalidOperationException
                     (''Unhandled exception in previous callback '' @ snd p @ '': '' @
                      Message W (fst p))),
            E, s\<lparr>pendingExceptions := ps\<rparr>)"
  using assms by (simp add: instancePrologue_def Seq_ThrowIfPendingException_def)

lemma instancePrologue_disposed:
  assumes "disposed E"
  shows "exec_block W (instancePrologue @ rest) E s = (Throw ObjectDisposedException, E, s)"
  using assms by (simp add: instancePrologue_def)

text \<open>
  \<open>ThrowIfPendingException\<close> returns when the queue is empty and otherwise takes one
  entry, the oldest, from the queue and throws. Every instance member that calls Go (the
  getter and the setter of a struct field, a struct method, a method of an interface
  proxy) begins with the check for disposal, the draining and \<open>IncGoRef\<close>, in this
  order: called on a disposed proxy it throws before the draining; otherwise, when an
  exception is pending, it throws with one entry taken from the queue and has done
  nothing else (no effect, no native call).
\<close>

lemma instance_members_drain:
  "(pendingExceptions s = [] \<longrightarrow> Seq_ThrowIfPendingException msg s = (Inr (), s)) \<and>
   (pendingExceptions s = p # ps \<longrightarrow>
      Seq_ThrowIfPendingException msg s =
        (Inl (InvalidOperationException
                (''Unhandled exception in previous callback '' @ snd p @ '': '' @ msg (fst p))),
         s\<lparr>pendingExceptions := ps\<rparr>)) \<and>
   (genStructMethod g st f = Some m \<or> genProxyMethod g i f = Some m \<or>
    genStructField g st fld = Some (m, setter) \<or> genStructField g st fld = Some (getter, m) \<longrightarrow>
      take 3 (m_body m) = [SThrowIfDisposed, SThrowIfPendingException, SIncGoRef] \<and>
      (disposed E \<longrightarrow> run_method W m E s = (Throw ObjectDisposedException, s)) \<and>
      (\<not> disposed E \<and> pendingExceptions s = p # ps \<longrightarrow>
         run_method W m E s =
           (Throw (InvalidOperationException
                     (''Unhandled exception in previous callback '' @ snd p @ '': '' @
                      Message W (fst p))),
            s\<lparr>pendingExceptions := ps\<rparr>)))"
proof (intro conjI impI)
  show "Seq_ThrowIfPendingException msg s = (Inr (), s)" if "pendingExceptions s = []"
    using that by (simp add: Seq_ThrowIfPendingException_def)
next
  show "Seq_ThrowIfPendingException msg s =
        (Inl (InvalidOperationException
                (''Unhandled exception in previous callback '' @ snd p @ '': '' @ msg (fst p))),
         s\<lparr>pendingExceptions := ps\<rparr>)" if "pendingExceptions s = p # ps"
    using that by (simp add: Seq_ThrowIfPendingException_def)
next
  assume h: "genStructMethod g st f = Some m \<or> genProxyMethod g i f = Some m \<or>
    genStructField g st fld = Some (m, setter) \<or> genStructField g st fld = Some (getter, m)"
  then obtain rest where b: "m_body m = instancePrologue @ rest"
    by (auto simp: genStructMethod_def genProxyMethod_def genStructField_def
        split: if_splits option.splits)
  show "take 3 (m_body m) = [SThrowIfDisposed, SThrowIfPendingException, SIncGoRef]"
    by (simp add: b instancePrologue_def)
  show "run_method W m E s = (Throw ObjectDisposedException, s)" if "disposed E"
    using instancePrologue_disposed[OF that] by (simp add: run_method_def b)
  show "run_method W m E s =
           (Throw (InvalidOperationException
                     (''Unhandled exception in previous callback '' @ snd p @ '': '' @
                      Message W (fst p))),
            s\<lparr>pendingExceptions := ps\<rparr>)"
    if "\<not> disposed E \<and> pendingExceptions s = p # ps"
    using instancePrologue_drains[of E s p ps W rest] that by (simp add: run_method_def b)
qed

lemmas sample_defs = samplePkg_def fooStruct_def sinkIface_def loadMethod_def pushMethod_def
  parseFunc_def pingFunc_def newFoo32_def newFoo64_def newFooNamed_def fooType_def errorType_def
  sampleSigSupported_def sampleSupported_def

lemmas emit_defs = genStructMethod_def genProxyMethod_def emitPackageFunction_def
  callableShape_def interfaceCallableShape_def nativeCall_def resultTail_def
  emitToNativeParam_def emitFromNativeValue_def emitFromNativeReturn_def managedFromNativeExpr_def
  emitFreeNativeParam_def shouldFreeAfterCall_def instancePrologue_def proxyFuncName_def
  nativeParamName_def isErrorType_def isRefnumType_def isBoolKind_def isStringKind_def
  implementableInterface_def

lemmas exec_defs = argValues_def converted_def evalInt_def addEffect_def
  Seq_ThrowIfPendingException_def sampleWorld_def sampleEnv_def sampleState_def

lemma sample_loadWrapper: "genStructMethod samplePkg fooStruct loadMethod = Some loadWrapper"
  by (simp add: sample_defs emit_defs loadWrapper_def)

lemma sample_pingWrapper: "emitPackageFunction samplePkg pingFunc = Some pingWrapper"
  by (simp add: sample_defs emit_defs pingWrapper_def)

text \<open>
  C2. Every crossing from managed code into Go is to drain one pending exception before
  it does its work. The wrapper printed for a package function does not. With the
  exception of the callback \<open>Sink.Push\<close> pending, the wrapper of the package function
  \<open>Ping\<close> makes its native call and returns, and the exception is still in the queue.
  The method \<open>Load\<close> of the struct class, called in the same state, throws the pending
  exception, leaves the queue empty and has not called Go.
\<close>

theorem package_function_skips_drain:
  "emitPackageFunction samplePkg pingFunc = Some pingWrapper \<and>
   m_body pingWrapper = [SExpr (ENative ''proxypkg__Ping'' [])] \<and>
   pendingExceptions (sampleState [boom]) = [boom] \<and>
   run_method sampleWorld pingWrapper sampleEnv (sampleState [boom]) =
     (Next, (sampleState [boom])\<lparr>effects := [FxNative ''proxypkg__Ping'']\<rparr>) \<and>
   pendingExceptions ((sampleState [boom])\<lparr>effects := [FxNative ''proxypkg__Ping'']\<rparr>) = [boom] \<and>
   genStructMethod samplePkg fooStruct loadMethod = Some loadWrapper \<and>
   run_method sampleWorld loadWrapper sampleEnv (sampleState [boom]) =
     (Throw (InvalidOperationException
               ''Unhandled exception in previous callback Sink.Push: boom''),
      sampleState [])"
proof -
  have p: "run_method sampleWorld pingWrapper sampleEnv (sampleState [boom]) =
     (Next, (sampleState [boom])\<lparr>effects := [FxNative ''proxypkg__Ping'']\<rparr>)"
    by (simp add: run_method_def pingWrapper_def argValues_def sampleWorld_def addEffect_def
        sampleState_def)
  have l: "run_method sampleWorld loadWrapper sampleEnv (sampleState [boom]) =
     (Throw (InvalidOperationException
               ''Unhandled exception in previous callback Sink.Push: boom''),
      sampleState [])"
    by (simp add: run_method_def loadWrapper_def exec_defs boom_def sampleMessage_def)
  show ?thesis using sample_pingWrapper sample_loadWrapper p l
    by (simp add: sampleState_def pingWrapper_def)
qed

subsection \<open>Cleanup of a returned refnum on the error path\<close>

lemma evalInt_field:
  "vars E x = Some (WRecord (WInt a) (WInt b)) \<Longrightarrow>
     evalInt W E (EField x 0) s = (Inr a, s) \<and> evalInt W E (EField x 1) s = (Inr b, s)"
  by (simp add: evalInt_def)

lemma Seq_ThrowIfError_throws:
  "r \<noteq> NullRefNum \<Longrightarrow> \<exists>x. fst (Seq_ThrowIfError W s r) = Throw x"
  by (auto simp: Seq_ThrowIfError_def split: sum.splits prod.splits)

lemma Seq_ThrowIfError_proxy:
  "r < 0 \<Longrightarrow>
     Seq_ThrowIfError W s r =
       (case ProxyError_Error W s r of
          (Inl x, s2) \<Rightarrow> (Throw x, s2)
        | (Inr v, s2) \<Rightarrow> (Throw (GoException (MProxy r)), s2))"
  by (auto simp: Seq_ThrowIfError_def Proxy_FromRefnum_def GoException_new_def NullRefNum_def
      split: sum.splits prod.splits)

lemma ProxyError_Error_quiet:
  "pendingExceptions s = [] \<Longrightarrow>
     ProxyError_Error W s r =
       (case native W ''proxy_error_Error'' [WInt r]
               (s\<lparr>effects := effects s @ [FxIncGoRef r, FxNative ''proxy_error_Error'']\<rparr>) of
          (res, s2) \<Rightarrow> (convert W (ENStringToString (EVar ''res'')) res, s2))"
  by (simp add: ProxyError_Error_def Seq_ThrowIfPendingException_def addEffect_def)

lemma ProxyError_Error_pending:
  "pendingExceptions s = p # ps \<Longrightarrow>
     ProxyError_Error W s r =
       (Inl (InvalidOperationException
               (''Unhandled exception in previous callback '' @ snd p @ '': '' @
                Message W (fst p))),
        s\<lparr>pendingExceptions := ps\<rparr>)"
  by (simp add: ProxyError_Error_def Seq_ThrowIfPendingException_def)

text \<open>
  The method \<open>Error\<close> that \<^verbatim>\<open>genInterface\<close> prints for the proxy of the interface
  \<open>error\<close>, run on a proxy that is not disposed, is \<open>ProxyError_Error\<close>.
\<close>

lemma ProxyError_Error_printed:
  assumes "pkgPrefix g = []" "genProxyMethod g errorIface errorMethod = Some m"
  shows "run_method W m \<lparr>vars = [''refnum'' \<mapsto> WInt r], caught = None, disposed = False\<rparr> s =
           (case ProxyError_Error W s r of
              (Inl x, s2) \<Rightarrow> (Throw x, s2)
            | (Inr v, s2) \<Rightarrow> (Return v, s2))"
proof -
  from assms have b: "m_body m =
      [SThrowIfDisposed, SThrowIfPendingException, SIncGoRef,
       SVarDecl ''res'' (ENative ''proxy_error_Error'' [''refnum'']),
       SReturn (ENStringToString (EVar ''res''))]"
    by (auto simp: emit_defs errorIface_def errorMethod_def split: if_splits)
  show ?thesis
    by (auto simp: run_method_def b ProxyError_Error_def evalInt_def argValues_def converted_def
        split: prod.splits sum.splits)
qed

lemma resultTail_error_exec:
  assumes res: "vars E ''res'' = Some (WRecord (WInt r0) (WInt r1))"
    and r1: "r1 \<noteq> NullRefNum" and T: "isRefnumType T" and e: "isErrorType e"
  shows "outcome (exec_block W (resultTail [T, e] True) E s) =
           Seq_ThrowIfError W (addEffect (FxDestroyRef r0) s) r1"
proof -
  obtain f s2 where t: "Seq_ThrowIfError W (addEffect (FxDestroyRef r0) s) r1 = (f, s2)"
    by (cases "Seq_ThrowIfError W (addEffect (FxDestroyRef r0) s) r1")
  from Seq_ThrowIfError_throws[OF r1, of W "addEffect (FxDestroyRef r0) s"] t
  obtain x where f: "f = Throw x" by auto
  show ?thesis
    using r1 T evalInt_field[OF res, of W]
    by (simp add: resultTail_def outcome_def t f)
qed

lemma constructorTail_error_exec:
  assumes res: "vars E ''res'' = Some (WRecord (WInt r0) (WInt r1))"
    and r1: "r1 \<noteq> NullRefNum"
  shows "outcome (exec_block W
           [SAssignRefnum (EField ''res'' 0),
            SIfNotNullRefNum (EField ''res'' 1)
              [SDestroyRef (EVar ''refnum''), SThrowIfError (EField ''res'' 1)]] E s) =
           Seq_ThrowIfError W (addEffect (FxDestroyRef r0) s) r1"
proof -
  let ?E = "E\<lparr>vars := (vars E)(''refnum'' \<mapsto> WInt r0)\<rparr>"
  have res': "vars ?E ''res'' = Some (WRecord (WInt r0) (WInt r1))" using res by simp
  have rn: "evalInt W ?E (EVar ''refnum'') s' = (Inr r0, s')" for s'
    by (simp add: evalInt_def)
  obtain f s2 where t: "Seq_ThrowIfError W (addEffect (FxDestroyRef r0) s) r1 = (f, s2)"
    by (cases "Seq_ThrowIfError W (addEffect (FxDestroyRef r0) s) r1")
  from Seq_ThrowIfError_throws[OF r1, of W "addEffect (FxDestroyRef r0) s"] t
  obtain x where f: "f = Throw x" by auto
  show ?thesis
    using r1 evalInt_field[OF res, of W] evalInt_field[OF res', of W] rn
    by (simp add: outcome_def t f)
qed

lemma run_split:
  assumes "m_body m = pre @ tail" "exec_block W pre E s = (Next, E1, s1)"
  shows "run_method W m E s = outcome (exec_block W tail E1 s1)"
  using assms by (simp add: run_method_def exec_block_append outcome_def split: prod.splits)

text \<open>
  C4. A call of result shape \<open>(T, error)\<close> with \<open>T\<close> represented by a refnum, in each
  of the wrappers the generator prints (package function, struct method, method of an
  interface proxy, constructor): once the statements up to the native call and the frees
  have run and \<open>res\<close> holds the refnums \<open>(r0, r1)\<close> with \<open>r1\<close> not the sentinel, the
  wrapper issues \<open>DestroyRef r0\<close> and then ends as \<open>ThrowIfError r1\<close> ends in the
  state that \<open>DestroyRef\<close> left; the value is never turned into a proxy.
  \<open>ThrowIfError\<close> always throws there. For a negative (Go-side) \<open>r1\<close> it builds the
  \<open>GoException\<close> around the proxy of \<open>r1\<close>, and the constructor of the exception asks
  the proxy for the message of the error: with nothing pending that is \<open>IncGoRef\<close> and a
  native call, both after the \<open>DestroyRef\<close>, and the \<open>GoException\<close> is thrown unless
  the conversion of the message throws; with an exception pending, the pending exception
  is thrown in its place.
\<close>

theorem refnum_error_cleanup:
  "fresults f = [T, e] \<and> isErrorType e \<and> isRefnumType T \<and>
   vars E1 ''res'' = Some (WRecord (WInt r0) (WInt r1)) \<and> r1 \<noteq> NullRefNum \<longrightarrow>
     (emitPackageFunction g f = Some m \<and>
      exec_block W (nativeCall (proxyFuncName g [] (fname f)) False f) E s = (Next, E1, s1) \<longrightarrow>
        run_method W m E s = Seq_ThrowIfError W (addEffect (FxDestroyRef r0) s1) r1) \<and>
     (genStructMethod g st f = Some m \<and>
      exec_block W (instancePrologue @ nativeCall (proxyFuncName g (sname st) (fname f)) True f) E s
        = (Next, E1, s1) \<longrightarrow>
        run_method W m E s = Seq_ThrowIfError W (addEffect (FxDestroyRef r0) s1) r1) \<and>
     (genProxyMethod g i f = Some m \<and>
      exec_block W (instancePrologue @ nativeCall (proxyFuncName g (iname i) (fname f)) True f) E s
        = (Next, E1, s1) \<longrightarrow>
        run_method W m E s = Seq_ThrowIfError W (addEffect (FxDestroyRef r0) s1) r1) \<and>
     (m = genConstructorFromFunc g cn f \<and>
      exec_block W (nativeCall (proxyFuncName g [] (fname f)) False f) E s = (Next, E1, s1) \<longrightarrow>
        run_method W m E s = Seq_ThrowIfError W (addEffect (FxDestroyRef r0) s1) r1) \<and>
     effects (addEffect (FxDestroyRef r0) s1) = effects s1 @ [FxDestroyRef r0] \<and>
     (\<exists>x. fst (Seq_ThrowIfError W (addEffect (FxDestroyRef r0) s1) r1) = Throw x) \<and>
     (r1 < 0 \<and> pendingExceptions s1 = [] \<longrightarrow>
        Seq_ThrowIfError W (addEffect (FxDestroyRef r0) s1) r1 =
          (case native W ''proxy_error_Error'' [WInt r1]
                  (s1\<lparr>effects := effects s1 @ [FxDestroyRef r0, FxIncGoRef r1,
                                               FxNative ''proxy_error_Error'']\<rparr>) of
             (res, s2) \<Rightarrow>
               (case convert W (ENStringToString (EVar ''res'')) res of
                  Inl x \<Rightarrow> (Throw x, s2)
                | Inr v \<Rightarrow> (Throw (GoException (MProxy r1)), s2)))) \<and>
     (r1 < 0 \<and> pendingExceptions s1 = p # ps \<longrightarrow>
        Seq_ThrowIfError W (addEffect (FxDestroyRef r0) s1) r1 =
          (Throw (InvalidOperationException
                    (''Unhandled exception in previous callback '' @ snd p @ '': '' @
                     Message W (fst p))),
           s1\<lparr>pendingExceptions := ps, effects := effects s1 @ [FxDestroyRef r0]\<rparr>))"
proof (intro impI)
  assume h: "fresults f = [T, e] \<and> isErrorType e \<and> isRefnumType T \<and>
   vars E1 ''res'' = Some (WRecord (WInt r0) (WInt r1)) \<and> r1 \<noteq> NullRefNum"
  then have fr: "fresults f = [T, e]" and e: "isErrorType e" and T: "isRefnumType T"
    and res: "vars E1 ''res'' = Some (WRecord (WInt r0) (WInt r1))" and r1: "r1 \<noteq> NullRefNum"
    by simp_all
  let ?s = "addEffect (FxDestroyRef r0) s1"
  note tail = resultTail_error_exec[OF res r1 T e, of W s1]
  have shape: "callableShape (fresults f) = Some True" "interfaceCallableShape (fresults f) = Some True"
    using fr e by (simp_all add: callableShape_def interfaceCallableShape_def)
  have a: "run_method W m E s = Seq_ThrowIfError W ?s r1"
    if "emitPackageFunction g f = Some m \<and>
      exec_block W (nativeCall (proxyFuncName g [] (fname f)) False f) E s = (Next, E1, s1)"
  proof -
    from that shape have "m_body m = nativeCall (proxyFuncName g [] (fname f)) False f @
        resultTail [T, e] True"
      by (auto simp: emitPackageFunction_def fr split: if_splits)
    from run_split[OF this] that tail show ?thesis by simp
  qed
  have b: "run_method W m E s = Seq_ThrowIfError W ?s r1"
    if "genStructMethod g st f = Some m \<and>
      exec_block W (instancePrologue @ nativeCall (proxyFuncName g (sname st) (fname f)) True f) E s
        = (Next, E1, s1)"
  proof -
    from that shape have "m_body m =
        (instancePrologue @ nativeCall (proxyFuncName g (sname st) (fname f)) True f) @
        resultTail [T, e] True"
      by (auto simp: genStructMethod_def fr split: if_splits)
    from run_split[OF this] that tail show ?thesis by simp
  qed
  have c: "run_method W m E s = Seq_ThrowIfError W ?s r1"
    if "genProxyMethod g i f = Some m \<and>
      exec_block W (instancePrologue @ nativeCall (proxyFuncName g (iname i) (fname f)) True f) E s
        = (Next, E1, s1)"
  proof -
    from that shape have "m_body m =
        (instancePrologue @ nativeCall (proxyFuncName g (iname i) (fname f)) True f) @
        resultTail [T, e] True"
      by (auto simp: genProxyMethod_def fr split: if_splits)
    from run_split[OF this] that tail show ?thesis by simp
  qed
  have d: "run_method W m E s = Seq_ThrowIfError W ?s r1"
    if "m = genConstructorFromFunc g cn f \<and>
      exec_block W (nativeCall (proxyFuncName g [] (fname f)) False f) E s = (Next, E1, s1)"
  proof -
    from that have "m_body m = nativeCall (proxyFuncName g [] (fname f)) False f @
           [SAssignRefnum (EField ''res'' 0),
            SIfNotNullRefNum (EField ''res'' 1)
              [SDestroyRef (EVar ''refnum''), SThrowIfError (EField ''res'' 1)]]"
      using fr e by (simp add: genConstructorFromFunc_def nativeCall_def Let_def)
    from run_split[OF this] that constructorTail_error_exec[OF res r1, of W s1]
    show ?thesis by simp
  qed
  have t: "\<exists>x. fst (Seq_ThrowIfError W ?s r1) = Throw x"
    by (rule Seq_ThrowIfError_throws[OF r1])
  have q: "Seq_ThrowIfError W ?s r1 =
          (case native W ''proxy_error_Error'' [WInt r1]
                  (s1\<lparr>effects := effects s1 @ [FxDestroyRef r0, FxIncGoRef r1,
                                               FxNative ''proxy_error_Error'']\<rparr>) of
             (res, s2) \<Rightarrow>
               (case convert W (ENStringToString (EVar ''res'')) res of
                  Inl x \<Rightarrow> (Throw x, s2)
                | Inr v \<Rightarrow> (Throw (GoException (MProxy r1)), s2)))"
    if "r1 < 0 \<and> pendingExceptions s1 = []"
  proof -
    have "pendingExceptions ?s = []" using that by (simp add: addEffect_def)
    from ProxyError_Error_quiet[OF this, of W r1] Seq_ThrowIfError_proxy[of r1 W ?s] that
    show ?thesis by (auto simp: addEffect_def split: prod.splits sum.splits)
  qed
  have u: "Seq_ThrowIfError W ?s r1 =
          (Throw (InvalidOperationException
                    (''Unhandled exception in previous callback '' @ snd p @ '': '' @
                     Message W (fst p))),
           s1\<lparr>pendingExceptions := ps, effects := effects s1 @ [FxDestroyRef r0]\<rparr>)"
    if "r1 < 0 \<and> pendingExceptions s1 = p # ps"
  proof -
    have "pendingExceptions ?s = p # ps" using that by (simp add: addEffect_def)
    from ProxyError_Error_pending[OF this, of W r1] Seq_ThrowIfError_proxy[of r1 W ?s] that
    show ?thesis by (simp add: addEffect_def)
  qed
  show "(emitPackageFunction g f = Some m \<and>
      exec_block W (nativeCall (proxyFuncName g [] (fname f)) False f) E s = (Next, E1, s1) \<longrightarrow>
        run_method W m E s = Seq_ThrowIfError W (addEffect (FxDestroyRef r0) s1) r1) \<and>
     (genStructMethod g st f = Some m \<and>
      exec_block W (instancePrologue @ nativeCall (proxyFuncName g (sname st) (fname f)) True f) E s
        = (Next, E1, s1) \<longrightarrow>
        run_method W m E s = Seq_ThrowIfError W (addEffect (FxDestroyRef r0) s1) r1) \<and>
     (genProxyMethod g i f = Some m \<and>
      exec_block W (instancePrologue @ nativeCall (proxyFuncName g (iname i) (fname f)) True f) E s
        = (Next, E1, s1) \<longrightarrow>
        run_method W m E s = Seq_ThrowIfError W (addEffect (FxDestroyRef r0) s1) r1) \<and>
     (m = genConstructorFromFunc g cn f \<and>
      exec_block W (nativeCall (proxyFuncName g [] (fname f)) False f) E s = (Next, E1, s1) \<longrightarrow>
        run_method W m E s = Seq_ThrowIfError W (addEffect (FxDestroyRef r0) s1) r1) \<and>
     effects (addEffect (FxDestroyRef r0) s1) = effects s1 @ [FxDestroyRef r0] \<and>
     (\<exists>x. fst (Seq_ThrowIfError W (addEffect (FxDestroyRef r0) s1) r1) = Throw x) \<and>
     (r1 < 0 \<and> pendingExceptions s1 = [] \<longrightarrow>
        Seq_ThrowIfError W (addEffect (FxDestroyRef r0) s1) r1 =
          (case native W ''proxy_error_Error'' [WInt r1]
                  (s1\<lparr>effects := effects s1 @ [FxDestroyRef r0, FxIncGoRef r1,
                                               FxNative ''proxy_error_Error'']\<rparr>) of
             (res, s2) \<Rightarrow>
               (case convert W (ENStringToString (EVar ''res'')) res of
                  Inl x \<Rightarrow> (Throw x, s2)
                | Inr v \<Rightarrow> (Throw (GoException (MProxy r1)), s2)))) \<and>
     (r1 < 0 \<and> pendingExceptions s1 = p # ps \<longrightarrow>
        Seq_ThrowIfError W (addEffect (FxDestroyRef r0) s1) r1 =
          (Throw (InvalidOperationException
                    (''Unhandled exception in previous callback '' @ snd p @ '': '' @
                     Message W (fst p))),
           s1\<lparr>pendingExceptions := ps, effects := effects s1 @ [FxDestroyRef r0]\<rparr>))"
    using a b c d t q u by (intro conjI) (simp_all add: addEffect_def)
qed

text \<open>The method \<open>Load\<close> of the sample struct when Go answers \<open>(-3, -4)\<close>.\<close>

lemma sample_load_call:
  "fst (exec_block sampleWorld
          (instancePrologue @
           nativeCall (proxyFuncName samplePkg (sname fooStruct) (fname loadMethod)) True loadMethod)
          sampleEnv (sampleState [])) = Next \<and>
   vars (fst (snd (exec_block sampleWorld
          (instancePrologue @
           nativeCall (proxyFuncName samplePkg (sname fooStruct) (fname loadMethod)) True loadMethod)
          sampleEnv (sampleState [])))) ''res'' = Some (WRecord (WInt (- 3)) (WInt (- 4))) \<and>
   snd (snd (exec_block sampleWorld
          (instancePrologue @
           nativeCall (proxyFuncName samplePkg (sname fooStruct) (fname loadMethod)) True loadMethod)
          sampleEnv (sampleState []))) =
     (sampleState [])\<lparr>effects := [FxIncGoRef 42, FxNative ''proxypkg_Foo_Load'']\<rparr>"
  by (simp add: sample_defs emit_defs exec_defs)

theorem refnum_error_cleanup_witness:
  "fresults loadMethod = [fooType, errorType] \<and> isErrorType errorType \<and> isRefnumType fooType \<and>
   genStructMethod samplePkg fooStruct loadMethod = Some loadWrapper \<and>
   - 4 \<noteq> NullRefNum \<and>
   run_method sampleWorld loadWrapper sampleEnv (sampleState []) =
     (Throw (GoException (MProxy (- 4))),
      (sampleState [])\<lparr>effects := [FxIncGoRef 42, FxNative ''proxypkg_Foo_Load'',
                                   FxDestroyRef (- 3), FxIncGoRef (- 4),
                                   FxNative ''proxy_error_Error'']\<rparr>)"
proof -
  let ?pre = "instancePrologue @
           nativeCall (proxyFuncName samplePkg (sname fooStruct) (fname loadMethod)) True loadMethod"
  let ?X = "exec_block sampleWorld ?pre sampleEnv (sampleState [])"
  let ?E1 = "fst (snd ?X)"
  let ?s1 = "snd (snd ?X)"
  have X: "?X = (Next, ?E1, ?s1)"
    using sample_load_call by (metis prod.collapse)
  have res: "vars ?E1 ''res'' = Some (WRecord (WInt (- 3)) (WInt (- 4)))"
    using sample_load_call by blast
  have s1: "?s1 = (sampleState [])\<lparr>effects := [FxIncGoRef 42, FxNative ''proxypkg_Foo_Load'']\<rparr>"
    using sample_load_call by blast
  have h: "fresults loadMethod = [fooType, errorType] \<and> isErrorType errorType \<and>
           isRefnumType fooType \<and> - 4 \<noteq> NullRefNum"
    by (simp add: loadMethod_def errorType_def fooType_def isErrorType_def isRefnumType_def
        NullRefNum_def)
  have pe: "(- 4::int) < 0 \<and> pendingExceptions ?s1 = []"
    unfolding s1 by (simp add: sampleState_def)
  from refnum_error_cleanup[of loadMethod fooType errorType ?E1 "- 3" "- 4" samplePkg loadWrapper
      sampleWorld sampleEnv "sampleState []" ?s1 fooStruct sinkIface "''Foo''"]
    h res X sample_loadWrapper pe
  have R: "run_method sampleWorld loadWrapper sampleEnv (sampleState []) =
             Seq_ThrowIfError sampleWorld (addEffect (FxDestroyRef (- 3)) ?s1) (- 4)"
    and G: "Seq_ThrowIfError sampleWorld (addEffect (FxDestroyRef (- 3)) ?s1) (- 4) =
          (case native sampleWorld ''proxy_error_Error'' [WInt (- 4)]
                  (?s1\<lparr>effects := effects ?s1 @ [FxDestroyRef (- 3), FxIncGoRef (- 4),
                                               FxNative ''proxy_error_Error'']\<rparr>) of
             (res, s2) \<Rightarrow>
               (case convert sampleWorld (ENStringToString (EVar ''res'')) res of
                  Inl x \<Rightarrow> (Throw x, s2)
                | Inr v \<Rightarrow> (Throw (GoException (MProxy (- 4))), s2)))"
    by simp_all
  have fin: "(case native sampleWorld ''proxy_error_Error'' [WInt (- 4)]
                  (?s1\<lparr>effects := effects ?s1 @ [FxDestroyRef (- 3), FxIncGoRef (- 4),
                                               FxNative ''proxy_error_Error'']\<rparr>) of
             (res, s2) \<Rightarrow>
               (case convert sampleWorld (ENStringToString (EVar ''res'')) res of
                  Inl x \<Rightarrow> (Throw x, s2)
                | Inr v \<Rightarrow> (Throw (GoException (MProxy (- 4))), s2))) =
     (Throw (GoException (MProxy (- 4))),
      (sampleState [])\<lparr>effects := [FxIncGoRef 42, FxNative ''proxypkg_Foo_Load'',
                                   FxDestroyRef (- 3), FxIncGoRef (- 4),
                                   FxNative ''proxy_error_Error'']\<rparr>)"
    unfolding s1 by (simp add: sampleWorld_def)
  show ?thesis using h sample_loadWrapper R G fin by simp
qed

section \<open>Callback trampolines\<close>


lemma defaultNativeReturn_eval: "eval W E (defaultNativeReturn T) s = (Val (defaultWire T), s)"
  by (cases T) (auto simp: defaultNativeReturn_def defaultWire_def isBoolKind_def isStringKind_def)

lemma prologue_plain: "list_all plainStmt (trampolinePrologue i f)"
  by (simp add: trampolinePrologue_def list_all_iff emitFromNativeParam_def)

lemma ensure_plain: "list_all plainStmt (emitEnsureRegisteredForReturn T)"
  by (simp add: emitEnsureRegisteredForReturn_def split: option.splits)

lemma managedCall_plain: "list_all plainStmt (managedCall i f)"
  by (simp add: managedCall_def Let_def prologue_plain ensure_plain)

lemma handler_report:
  "exec_block W (SReportUnhandledException nm # rest) (E\<lparr>caught := Some ex\<rparr>) s =
     (case Seq_ReportUnhandledException s ex nm of
        (Next, s2) \<Rightarrow> exec_block W rest (E\<lparr>caught := Some ex\<rparr>) s2
      | (f, s2) \<Rightarrow> (f, E\<lparr>caught := Some ex\<rparr>, s2))"
  by (auto split: prod.splits flow.splits)

lemma try_catch_exec:
  "exec_block W (STryCatch body handler # rest) E s =
     (case exec_block W body E s of
        (Throw ex, E1, s1) \<Rightarrow>
          (case exec_block W handler (E\<lparr>caught := Some ex\<rparr>) s1 of
             (Next, E2, s2) \<Rightarrow> exec_block W rest E2 s2
           | other \<Rightarrow> other)
      | (Next, E1, s1) \<Rightarrow> exec_block W rest E s1
      | other \<Rightarrow> other)"
  by (auto split: prod.splits flow.splits)

lemma handler_goerror:
  "exec_block W [SEnsureRegistered ''error'', SReturn EIncRefNewGoError] (E\<lparr>caught := Some ex\<rparr>) s =
     (case Seq_IncRef_GoError W (addEffect (FxEnsureRegistered ''error'') s) ex of
        (Val r, s2) \<Rightarrow> (Return r, E\<lparr>caught := Some ex\<rparr>, s2)
      | (Exc x, s2) \<Rightarrow> (Throw x, E\<lparr>caught := Some ex\<rparr>, s2)
      | (Stuck, s2) \<Rightarrow> (Ill, E\<lparr>caught := Some ex\<rparr>, s2))"
  by (auto split: prod.splits eres.splits)

lemma handler_goerror_record:
  "outcome (exec_block W [SEnsureRegistered ''error'', SVarDecl ''error'' EIncRefNewGoError,
                  SReturn (ERecord c (defaultNativeReturn T) (EVar ''error''))]
              (E\<lparr>caught := Some ex\<rparr>) s) =
     (case Seq_IncRef_GoError W (addEffect (FxEnsureRegistered ''error'') s) ex of
        (Val r, s2) \<Rightarrow> (Return (WRecord (defaultWire T) r), s2)
      | (Exc x, s2) \<Rightarrow> (Throw x, s2)
      | (Stuck, s2) \<Rightarrow> (Ill, s2))"
  by (auto simp: outcome_def defaultNativeReturn_eval split: prod.splits eres.splits)

lemma nativeValueExpression_env:
  "n \<noteq> ''error'' \<Longrightarrow>
     eval W (E\<lparr>vars := (vars E)(''error'' \<mapsto> v)\<rparr>) (nativeValueExpression n T) s =
     eval W E (nativeValueExpression n T) s"
  by (cases T) (auto simp: nativeValueExpression_def)

lemma block_return_not_next: "fst (exec_block W (Q @ [SReturn e]) E s) \<noteq> Next"
  by (auto simp: exec_block_append split: prod.splits flow.splits eres.splits)

lemma trampoline_void:
  assumes g: "genTrampoline g i f = Some m" and r: "fresults f = []"
  shows "m_body m = [STryCatch (managedCall i f)
                       [SReportUnhandledException (iname i @ ''.'' @ fname f)], SReturnVoid]"
  using g r by (auto simp: genTrampoline_def managedCall_def Let_def split: if_splits)

lemma trampoline_error:
  assumes g: "genTrampoline g i f = Some m" and r: "fresults f = [e]" "isErrorType e"
  shows "m_body m = [STryCatch (managedCall i f @ [SReturn ENullRefNum])
                       [SEnsureRegistered ''error'', SReturn EIncRefNewGoError]]"
  using g r by (auto simp: genTrampoline_def managedCall_def Let_def split: if_splits)

lemma trampoline_value:
  assumes g: "genTrampoline g i f = Some m" and r: "fresults f = [T]" "\<not> isErrorType T"
  shows "m_body m = [STryCatch (managedCall i f @ [SReturn (nativeValueExpression ''result'' T)])
                       [SReportUnhandledException (iname i @ ''.'' @ fname f),
                        SReturn (defaultNativeReturn T)]]"
  using g r
  by (auto simp: genTrampoline_def managedCall_def emitToNativeReturn_def Let_def split: if_splits)

lemma trampoline_value_error:
  assumes g: "genTrampoline g i f = Some m" and r: "fresults f = [T, e]" "isErrorType e"
  shows "m_body m =
           [STryCatch
              (managedCall i f @
               [SVarDecl ''error'' ENullRefNum,
                SReturn (ERecord (cproxyName g (iname i) (fname f))
                           (nativeValueExpression ''value'' T) (EVar ''error''))])
              [SEnsureRegistered ''error'', SVarDecl ''error'' EIncRefNewGoError,
               SReturn (ERecord (cproxyName g (iname i) (fname f)) (defaultNativeReturn T)
                          (EVar ''error''))]]"
  using g r by (auto simp: genTrampoline_def managedCall_def Let_def split: if_splits)

lemma run_void:
  assumes b: "m_body m = [STryCatch B [SReportUnhandledException nm], SReturnVoid]"
  shows "run_method W m E s = trampolineSpec W nm [] (outcome (exec_block W B E s))"
proof -
  obtain f0 E0 s0 where X: "exec_block W B E s = (f0, E0, s0)" by (cases "exec_block W B E s")
  show ?thesis
  proof (cases f0)
    case (Throw ex)
    obtain f2 s2 where r: "Seq_ReportUnhandledException s0 ex nm = (f2, s2)"
      by (cases "Seq_ReportUnhandledException s0 ex nm")
    show ?thesis
      by (cases f2)
        (simp_all add: run_method_def b X Throw r trampolineSpec_def outcome_def hasErrorChannel_def)
  qed (simp_all add: run_method_def b X trampolineSpec_def outcome_def)
qed

lemma run_value:
  assumes b: "m_body m = [STryCatch (Q @ [SReturn e0])
                            [SReportUnhandledException nm, SReturn (defaultNativeReturn T)]]"
    and T: "\<not> isErrorType T"
  shows "run_method W m E s = trampolineSpec W nm [T] (outcome (exec_block W (Q @ [SReturn e0]) E s))"
proof -
  obtain f0 E0 s0 where X: "exec_block W (Q @ [SReturn e0]) E s = (f0, E0, s0)"
    by (cases "exec_block W (Q @ [SReturn e0]) E s")
  have nn: "f0 \<noteq> Next" using block_return_not_next[of W Q e0 E s] X by simp
  show ?thesis
  proof (cases f0)
    case (Throw ex)
    obtain f2 s2 where r: "Seq_ReportUnhandledException s0 ex nm = (f2, s2)"
      by (cases "Seq_ReportUnhandledException s0 ex nm")
    show ?thesis
      by (cases f2)
        (simp_all add: run_method_def b X Throw r trampolineSpec_def outcome_def hasErrorChannel_def
          T defaultNativeReturn_eval)
  qed (use nn in \<open>simp_all add: run_method_def b X trampolineSpec_def outcome_def\<close>)
qed

lemma run_error:
  assumes b: "m_body m = [STryCatch (Q @ [SReturn e0])
                            [SEnsureRegistered ''error'', SReturn EIncRefNewGoError]]"
    and e: "isErrorType e"
  shows "run_method W m E s = trampolineSpec W nm [e] (outcome (exec_block W (Q @ [SReturn e0]) E s))"
proof -
  obtain f0 E0 s0 where X: "exec_block W (Q @ [SReturn e0]) E s = (f0, E0, s0)"
    by (cases "exec_block W (Q @ [SReturn e0]) E s")
  have nn: "f0 \<noteq> Next" using block_return_not_next[of W Q e0 E s] X by simp
  show ?thesis
  proof (cases f0)
    case (Throw ex)
    obtain r2 s2 where r: "Seq_IncRef_GoError W (addEffect (FxEnsureRegistered ''error'') s0) ex = (r2, s2)"
      by (cases "Seq_IncRef_GoError W (addEffect (FxEnsureRegistered ''error'') s0) ex")
    have h: "exec_block W [SEnsureRegistered ''error'', SReturn EIncRefNewGoError]
               (E\<lparr>caught := Some ex\<rparr>) s0 =
             (case r2 of Val v \<Rightarrow> Return v | Exc x \<Rightarrow> Throw x | Stuck \<Rightarrow> Ill, E\<lparr>caught := Some ex\<rparr>, s2)"
      using handler_goerror[where W=W and E=E and ex=ex and s=s0] r by (cases r2) simp_all
    show ?thesis
      using h r
      by (cases r2)
        (simp_all add: run_method_def b X Throw trampolineSpec_def outcome_def hasErrorChannel_def e
          del: exec_block.simps exec_stmt.simps add: try_catch_exec)
  qed (use nn in \<open>simp_all add: run_method_def b X trampolineSpec_def outcome_def\<close>)
qed

lemma run_value_error:
  assumes b: "m_body m = [STryCatch (Q @ [SReturn e0])
              [SEnsureRegistered ''error'', SVarDecl ''error'' EIncRefNewGoError,
               SReturn (ERecord c (defaultNativeReturn T) (EVar ''error''))]]"
    and e: "isErrorType e"
  shows "run_method W m E s =
           trampolineSpec W nm [T, e] (outcome (exec_block W (Q @ [SReturn e0]) E s))"
proof -
  obtain f0 E0 s0 where X: "exec_block W (Q @ [SReturn e0]) E s = (f0, E0, s0)"
    by (cases "exec_block W (Q @ [SReturn e0]) E s")
  have nn: "f0 \<noteq> Next" using block_return_not_next[of W Q e0 E s] X by simp
  let ?H = "[SEnsureRegistered ''error'', SVarDecl ''error'' EIncRefNewGoError,
               SReturn (ERecord c (defaultNativeReturn T) (EVar ''error''))]"
  have hn: "fst (exec_block W ?H E' s') \<noteq> Next" for E' s'
    using block_return_not_next[of W "[SEnsureRegistered ''error'', SVarDecl ''error'' EIncRefNewGoError]"
        "ERecord c (defaultNativeReturn T) (EVar ''error'')" E' s'] by simp
  have run: "run_method W m E s = outcome (exec_block W (m_body m) E s)"
    by (simp add: run_method_def outcome_def split: prod.splits)
  show ?thesis
  proof (cases f0)
    case (Throw ex)
    obtain f2 E2 s2 where H: "exec_block W ?H (E\<lparr>caught := Some ex\<rparr>) s0 = (f2, E2, s2)"
      by (cases "exec_block W ?H (E\<lparr>caught := Some ex\<rparr>) s0")
    have f2: "f2 \<noteq> Next" using hn[of "E\<lparr>caught := Some ex\<rparr>" s0] H by simp
    have "exec_block W (m_body m) E s = (f2, E2, s2)"
      unfolding b try_catch_exec X Throw using f2 H by (cases f2) simp_all
    then have "run_method W m E s = outcome (f2, E2, s2)"
      by (simp only: run)
    also have "\<dots> = outcome (exec_block W ?H (E\<lparr>caught := Some ex\<rparr>) s0)"
      by (simp only: H)
    also have "\<dots> = trampolineSpec W nm [T, e] (Throw ex, s0)"
      unfolding handler_goerror_record
      by (auto simp: trampolineSpec_def hasErrorChannel_def e split: prod.splits eres.splits)
    finally show ?thesis by (simp add: X Throw outcome_def)
  qed (use nn in \<open>simp_all add: run_method_def b X trampolineSpec_def outcome_def\<close>)
qed

lemma try_error:
  "outcome (exec_block W (Q @ [SReturn ENullRefNum]) E s) =
     (case exec_block W Q E s of
        (Next, E0, s0) \<Rightarrow> (Return (WInt NullRefNum), s0)
      | (f, E0, s0) \<Rightarrow> (f, s0))"
  by (auto simp: exec_block_append outcome_def split: prod.splits flow.splits)

lemma try_value:
  "outcome (exec_block W (Q @ [SReturn e0]) E s) =
     (case exec_block W Q E s of
        (Next, E0, s0) \<Rightarrow>
          (case eval W E0 e0 s0 of
             (Val w, s1) \<Rightarrow> (Return w, s1)
           | (Exc x, s1) \<Rightarrow> (Throw x, s1)
           | (Stuck, s1) \<Rightarrow> (Ill, s1))
      | (f, E0, s0) \<Rightarrow> (f, s0))"
  by (auto simp: exec_block_append outcome_def split: prod.splits flow.splits eres.splits)

lemma try_value_error:
  "outcome (exec_block W (Q @ [SVarDecl ''error'' ENullRefNum,
                               SReturn (ERecord c (nativeValueExpression ''value'' T) (EVar ''error''))])
              E s) =
     (case exec_block W Q E s of
        (Next, E0, s0) \<Rightarrow>
          (case eval W E0 (nativeValueExpression ''value'' T) s0 of
             (Val w, s1) \<Rightarrow> (Return (WRecord w (WInt NullRefNum)), s1)
           | (Exc x, s1) \<Rightarrow> (Throw x, s1)
           | (Stuck, s1) \<Rightarrow> (Ill, s1))
      | (f, E0, s0) \<Rightarrow> (f, s0))"
  by (auto simp: exec_block_append outcome_def nativeValueExpression_env
      split: prod.splits flow.splits eres.splits)

lemma report_props:
  "pendingExceptions (snd (Seq_ReportUnhandledException s ex nm)) = pendingExceptions s @ [(ex, nm)] \<and>
   (UnhandledCallbackException s = None \<and> \<not> FailFastOnUnhandledCallbackException s \<longrightarrow>
      Seq_ReportUnhandledException s ex nm =
        (Next, s\<lparr>pendingExceptions := pendingExceptions s @ [(ex, nm)],
                 effects := effects s @ [FxConsoleError ex nm]\<rparr>)) \<and>
   (UnhandledCallbackException s = Some h \<and> h ex nm = None \<and>
    \<not> FailFastOnUnhandledCallbackException s \<longrightarrow>
      Seq_ReportUnhandledException s ex nm =
        (Next, s\<lparr>pendingExceptions := pendingExceptions s @ [(ex, nm)],
                 effects := effects s @ [FxHandler ex nm, FxConsoleError ex nm]\<rparr>)) \<and>
   (UnhandledCallbackException s = Some h \<and> h ex nm = Some x \<longrightarrow>
      fst (Seq_ReportUnhandledException s ex nm) = Throw x) \<and>
   (FailFastOnUnhandledCallbackException s \<and>
    (UnhandledCallbackException s = None \<or> (UnhandledCallbackException s = Some h \<and> h ex nm = None))
      \<longrightarrow> fst (Seq_ReportUnhandledException s ex nm) = Exit \<and>
          last (effects (snd (Seq_ReportUnhandledException s ex nm))) = FxFailFast ex nm)"
  by (auto simp: Seq_ReportUnhandledException_def addEffect_def Let_def split: option.splits)

lemma Inc_tracked:
  assumes inv: "tracker_inv t" and r: "RefTracker_Inc t (Some obj) = (Inr r, t')"
  shows "r \<noteq> NullRefNum \<and> RefTracker_GetRef t' r = Inr (Some obj)"
proof (cases "objectRefs t obj")
  case None
  show ?thesis
  proof (cases "nextRefnum t = int_MaxValue")
    case True
    from Inc_fresh_overflow[OF None True] r show ?thesis by simp
  next
    case False
    from Inc_fresh[OF inv None False] r inv_next[OF inv] show ?thesis
      by (auto simp: RefTracker_GetRef_def RefOffset_def NullRefNum_def)
  qed
next
  case (Some r0)
  from inv_object[OF inv Some] obtain e where e: "refs t r0 = Some e" "Value e = obj" by blast
  from inv_entry[OF inv e(1)] have "r0 \<noteq> NullRefNum" by (simp add: RefOffset_def NullRefNum_def)
  then show ?thesis using Inc_known[OF Some e(1)] r e(2)
    by (auto simp: RefTracker_GetRef_def Ref_Inc_def split: if_splits)
qed

lemma GoError_tracked:
  assumes inv: "tracker_inv (tracker s)" and r: "Seq_IncRef_GoError W s ex = (Val w, s2)"
  shows "\<exists>r. w = WInt r \<and> r \<noteq> NullRefNum \<and>
             RefTracker_GetRef (tracker s2) r = Inr (Some (nextObject s)) \<and>
             goErrors s2 (nextObject s) = Some (Message W ex)"
proof -
  obtain o' t' where i: "RefTracker_Inc (tracker s) (Some (nextObject s)) = (o', t')"
    by (cases "RefTracker_Inc (tracker s) (Some (nextObject s))")
  from r i obtain r0 where o': "o' = Inr r0" and w: "w = WInt r0"
    and s2: "s2 = (s\<lparr>nextObject := Suc (nextObject s),
                     goErrors := (goErrors s)(nextObject s \<mapsto> Message W ex)\<rparr>)\<lparr>tracker := t'\<rparr>"
    by (cases o') (auto simp: Seq_IncRef_GoError_def Seq_IncRef_def)
  from Inc_tracked[OF inv i[unfolded o']] show ?thesis by (simp add: w s2)
qed

text \<open>
  The trampolines for the result shapes the text of lines 1348-1422 is written for. For
  every trampoline \<open>m\<close> the generator prints for a method \<open>f\<close> of an interface \<open>i\<close>,
  with no result, one result, or a value and an error:

  \<^item> the body of \<open>m\<close> starts with a \<^verbatim>\<open>try\<close> whose \<^verbatim>\<open>catch\<close> takes every exception, and
    the look-up of the instance, the conversion of the parameters and the call of the
    managed method are inside it;
  \<^item> running \<open>m\<close> is \<open>trampolineSpec\<close> of how the \<^verbatim>\<open>try\<close> block ended: an exception is
    wrapped in a \<^verbatim>\<open>GoError\<close> whose refnum is returned, alone for \<open>(error)\<close> and as \<open>r1\<close>
    beside the default \<open>r0\<close> for \<open>(T, error)\<close>; for no result and for \<open>(T)\<close> it is reported
    and the default wire value is returned;
  \<^item> the \<^verbatim>\<open>try\<close> block is \<open>trySpec\<close> of the managed call: nothing for no result,
    \<open>NullRefNum\<close> for \<open>(error)\<close>, the marshalled value for \<open>(T)\<close>, the record of the
    marshalled value and \<open>NullRefNum\<close> for \<open>(T, error)\<close>;
  \<^item> reporting always puts the exception and the method name at the end of the pending
    queue; without a hook it then writes to the console and returns; a hook that returns
    is called before the console line; a hook that throws ends the report with its
    exception; with fail-fast set the process is ended;
  \<^item> the refnum of the \<^verbatim>\<open>GoError\<close> is not the sentinel, the tracker resolves it to the new
    error object, and that object holds the message of the exception.
\<close>

lemma trampoline_exception_translation:
  "genTrampoline g i f = Some m \<and> trampolineShape (fresults f) \<longrightarrow>
     (\<exists>handler rest. m_body m = STryCatch (tryBlock m) handler # rest) \<and>
     run_method W m E s =
       trampolineSpec W (iname i @ ''.'' @ fname f) (fresults f)
         (outcome (exec_block W (tryBlock m) E s)) \<and>
     outcome (exec_block W (tryBlock m) E s) =
       trySpec W (fresults f) (exec_block W (managedCall i f) E s) \<and>
     pendingExceptions (snd (Seq_ReportUnhandledException s1 ex nm))
       = pendingExceptions s1 @ [(ex, nm)] \<and>
     (UnhandledCallbackException s1 = None \<and> \<not> FailFastOnUnhandledCallbackException s1 \<longrightarrow>
        Seq_ReportUnhandledException s1 ex nm =
          (Next, s1\<lparr>pendingExceptions := pendingExceptions s1 @ [(ex, nm)],
                    effects := effects s1 @ [FxConsoleError ex nm]\<rparr>)) \<and>
     (UnhandledCallbackException s1 = Some h \<and> h ex nm = None \<and>
      \<not> FailFastOnUnhandledCallbackException s1 \<longrightarrow>
        Seq_ReportUnhandledException s1 ex nm =
          (Next, s1\<lparr>pendingExceptions := pendingExceptions s1 @ [(ex, nm)],
                    effects := effects s1 @ [FxHandler ex nm, FxConsoleError ex nm]\<rparr>)) \<and>
     (UnhandledCallbackException s1 = Some h \<and> h ex nm = Some x \<longrightarrow>
        fst (Seq_ReportUnhandledException s1 ex nm) = Throw x) \<and>
     (FailFastOnUnhandledCallbackException s1 \<and>
      (UnhandledCallbackException s1 = None \<or>
       (UnhandledCallbackException s1 = Some h \<and> h ex nm = None)) \<longrightarrow>
        fst (Seq_ReportUnhandledException s1 ex nm) = Exit \<and>
        last (effects (snd (Seq_ReportUnhandledException s1 ex nm))) = FxFailFast ex nm) \<and>
     (tracker_inv (tracker s1) \<and> Seq_IncRef_GoError W s1 ex = (Val w, s2) \<longrightarrow>
        (\<exists>r. w = WInt r \<and> r \<noteq> NullRefNum \<and>
             RefTracker_GetRef (tracker s2) r = Inr (Some (nextObject s1)) \<and>
             goErrors s2 (nextObject s1) = Some (Message W ex)))"
proof (intro impI)
  assume h: "genTrampoline g i f = Some m \<and> trampolineShape (fresults f)"
  then have gen: "genTrampoline g i f = Some m" by simp
  let ?nm = "iname i @ ''.'' @ fname f"
  have main: "(\<exists>handler rest. m_body m = STryCatch (tryBlock m) handler # rest) \<and>
     run_method W m E s =
       trampolineSpec W ?nm (fresults f) (outcome (exec_block W (tryBlock m) E s)) \<and>
     outcome (exec_block W (tryBlock m) E s) =
       trySpec W (fresults f) (exec_block W (managedCall i f) E s)"
  proof -
    from h consider (void) "fresults f = []"
      | (err) e where "fresults f = [e]" "isErrorType e"
      | (val) T where "fresults f = [T]" "\<not> isErrorType T"
      | (valerr) T e where "fresults f = [T, e]" "isErrorType e"
      by (cases "fresults f" rule: list.exhaust[case_names Nil Cons])
        (auto simp: trampolineShape_def length_Suc_conv)
    then show ?thesis
    proof cases
      case void
      note b = trampoline_void[OF gen void]
      have t: "tryBlock m = managedCall i f" by (simp add: tryBlock_def b)
      have "outcome (exec_block W (managedCall i f) E s) =
              trySpec W [] (exec_block W (managedCall i f) E s)"
        by (auto simp: outcome_def trySpec_def split: prod.splits flow.splits)
      then show ?thesis using run_void[OF b, where W=W and E=E and s=s] by (simp add: t void b)
    next
      case err
      note b = trampoline_error[OF gen err]
      have t: "tryBlock m = managedCall i f @ [SReturn ENullRefNum]" by (simp add: tryBlock_def b)
      have "outcome (exec_block W (tryBlock m) E s) =
              trySpec W [e] (exec_block W (managedCall i f) E s)"
        unfolding t try_error using err(2)
        by (auto simp: trySpec_def split: prod.splits flow.splits)
      then show ?thesis using run_error[OF b err(2), where W=W and E=E and s=s and nm="?nm"] by (simp add: t err b)
    next
      case val
      note b = trampoline_value[OF gen val]
      have t: "tryBlock m = managedCall i f @ [SReturn (nativeValueExpression ''result'' T)]"
        by (simp add: tryBlock_def b)
      have "outcome (exec_block W (tryBlock m) E s) =
              trySpec W [T] (exec_block W (managedCall i f) E s)"
        unfolding t try_value using val(2)
        by (auto simp: trySpec_def split: prod.splits flow.splits eres.splits)
      then show ?thesis using run_value[OF b val(2), where W=W and E=E and s=s] by (simp add: t val b)
    next
      case valerr
      note b = trampoline_value_error[OF gen valerr]
      have t: "tryBlock m = managedCall i f @
               [SVarDecl ''error'' ENullRefNum,
                SReturn (ERecord (cproxyName g (iname i) (fname f))
                           (nativeValueExpression ''value'' T) (EVar ''error''))]"
        by (simp add: tryBlock_def b)
      have "outcome (exec_block W (tryBlock m) E s) =
              trySpec W [T, e] (exec_block W (managedCall i f) E s)"
        unfolding t try_value_error
        by (auto simp: trySpec_def split: prod.splits flow.splits eres.splits)
      moreover have "run_method W m E s =
           trampolineSpec W ?nm [T, e] (outcome (exec_block W (tryBlock m) E s))"
        using run_value_error[where m=m and Q="managedCall i f @ [SVarDecl ''error'' ENullRefNum]"
            and ?e0.0="ERecord (cproxyName g (iname i) (fname f)) (nativeValueExpression ''value'' T)
               (EVar ''error'')"
            and c="cproxyName g (iname i) (fname f)" and T=T and e=e and W=W and nm="?nm"
            and E=E and s=s] b valerr(2)
        by (simp add: t)
      ultimately show ?thesis by (simp add: valerr b t)
    qed
  qed
  show "(\<exists>handler rest. m_body m = STryCatch (tryBlock m) handler # rest) \<and>
     run_method W m E s =
       trampolineSpec W (iname i @ ''.'' @ fname f) (fresults f)
         (outcome (exec_block W (tryBlock m) E s)) \<and>
     outcome (exec_block W (tryBlock m) E s) =
       trySpec W (fresults f) (exec_block W (managedCall i f) E s) \<and>
     pendingExceptions (snd (Seq_ReportUnhandledException s1 ex nm))
       = pendingExceptions s1 @ [(ex, nm)] \<and>
     (UnhandledCallbackException s1 = None \<and> \<not> FailFastOnUnhandledCallbackException s1 \<longrightarrow>
        Seq_ReportUnhandledException s1 ex nm =
          (Next, s1\<lparr>pendingExceptions := pendingExceptions s1 @ [(ex, nm)],
                    effects := effects s1 @ [FxConsoleError ex nm]\<rparr>)) \<and>
     (UnhandledCallbackException s1 = Some h \<and> h ex nm = None \<and>
      \<not> FailFastOnUnhandledCallbackException s1 \<longrightarrow>
        Seq_ReportUnhandledException s1 ex nm =
          (Next, s1\<lparr>pendingExceptions := pendingExceptions s1 @ [(ex, nm)],
                    effects := effects s1 @ [FxHandler ex nm, FxConsoleError ex nm]\<rparr>)) \<and>
     (UnhandledCallbackException s1 = Some h \<and> h ex nm = Some x \<longrightarrow>
        fst (Seq_ReportUnhandledException s1 ex nm) = Throw x) \<and>
     (FailFastOnUnhandledCallbackException s1 \<and>
      (UnhandledCallbackException s1 = None \<or>
       (UnhandledCallbackException s1 = Some h \<and> h ex nm = None)) \<longrightarrow>
        fst (Seq_ReportUnhandledException s1 ex nm) = Exit \<and>
        last (effects (snd (Seq_ReportUnhandledException s1 ex nm))) = FxFailFast ex nm) \<and>
     (tracker_inv (tracker s1) \<and> Seq_IncRef_GoError W s1 ex = (Val w, s2) \<longrightarrow>
        (\<exists>r. w = WInt r \<and> r \<noteq> NullRefNum \<and>
             RefTracker_GetRef (tracker s2) r = Inr (Some (nextObject s1)) \<and>
             goErrors s2 (nextObject s1) = Some (Message W ex)))"
    using main report_props[where s=s1 and ex=ex and nm=nm and h=h and x=x]
      GoError_tracked[where s=s1 and W=W and ex=ex and w=w and ?s2.0=s2]
    by (intro conjI) blast+
qed

text \<open>The trampolines of the sample interface, run on a managed method that throws and on one that returns.\<close>

lemmas tramp_defs = genTrampoline_def managedCall_def trampolinePrologue_def emitFromNativeParam_def
  callArgs_def emitEnsureRegisteredForReturn_def nativeValueExpression_def emitToNativeReturn_def
  defaultNativeReturn_def cproxyName_def Let_def

lemma outcomeD: "outcome r = (f, s) \<Longrightarrow> \<exists>E. r = (f, E, s)"
  by (cases r) (simp add: outcome_def)

lemma sample_pushTrampoline: "genTrampoline samplePkg sinkIface pushMethod = Some pushTrampoline"
  by (simp add: sample_defs emit_defs tramp_defs pushTrampoline_def)

lemma sample_loadTrampoline: "genTrampoline samplePkg sinkIface loadMethod = Some loadTrampoline"
  by (simp add: sample_defs emit_defs tramp_defs loadTrampoline_def)

lemma sample_push_managed:
  "outcome (exec_block sampleWorld (managedCall sinkIface pushMethod) sampleEnv (sampleState [])) =
     (Throw (ManagedException ''boom''), sampleState [])"
  by (simp add: sample_defs emit_defs exec_defs tramp_defs outcome_def Seq_IncRef_def
     RefTracker_GetRef_def tracker_eval)

lemma sample_load_managed:
  "outcome (exec_block sampleWorld (managedCall sinkIface loadMethod) sampleEnv (sampleState [])) =
     (Throw (ManagedException ''boom''), sampleState [])"
  by (simp add: sample_defs emit_defs exec_defs tramp_defs outcome_def Seq_IncRef_def
     RefTracker_GetRef_def tracker_eval)

lemma sample_load_quiet:
  "outcome (exec_block quietWorld (managedCall sinkIface loadMethod) sampleEnv (sampleState [])) =
     (Next, sampleState []) \<and>
   vars (fst (snd (exec_block quietWorld (managedCall sinkIface loadMethod) sampleEnv
     (sampleState [])))) ''value'' = Some (WRef MNull)"
  by (simp add: sample_defs emit_defs exec_defs tramp_defs outcome_def Seq_IncRef_def
     RefTracker_GetRef_def tracker_eval quietWorld_def)

lemma sample_goerror:
  "Seq_IncRef_GoError sampleWorld (addEffect (FxEnsureRegistered ''error'') (sampleState []))
     (ManagedException ''boom'') =
   (Val (WInt 43),
    (sampleState [])\<lparr>tracker := snd (RefTracker_Inc (tracker (sampleState [])) (Some 100)),
      nextObject := 101, goErrors := [100 \<mapsto> ''boom''],
      effects := [FxEnsureRegistered ''error'']\<rparr>)"
  by (simp add: exec_defs Seq_IncRef_GoError_def Seq_IncRef_def tracker_eval sampleMessage_def)

lemma sample_inv: "tracker_inv (tracker (sampleState p))"
proof -
  have "tracker_inv (snd (RefTracker_Inc RefTracker_new (Some 7)))"
    by (simp add: tracker_inv_def tracker_eval RefTracker_new_def RefOffset_def int_MaxValue_def)
  then show ?thesis by (simp add: sampleState_def)
qed

lemma sample_trampolines_run:
  "genTrampoline samplePkg sinkIface pushMethod = Some pushTrampoline \<and>
   trampolineShape (fresults pushMethod) \<and>
   run_method sampleWorld pushTrampoline sampleEnv (sampleState []) =
     (Return WUnit,
      (sampleState [(ManagedException ''boom'', ''Sink.Push'')])
        \<lparr>effects := [FxConsoleError (ManagedException ''boom'') ''Sink.Push'']\<rparr>) \<and>
   genTrampoline samplePkg sinkIface loadMethod = Some loadTrampoline \<and>
   trampolineShape (fresults loadMethod) \<and>
   fst (run_method sampleWorld loadTrampoline sampleEnv (sampleState [])) =
     Return (WRecord (WInt NullRefNum) (WInt 43)) \<and>
   RefTracker_GetRef (tracker (snd (run_method sampleWorld loadTrampoline sampleEnv
     (sampleState [])))) 43 = Inr (Some 100) \<and>
   goErrors (snd (run_method sampleWorld loadTrampoline sampleEnv (sampleState []))) 100 =
     Some ''boom'' \<and>
   pendingExceptions (snd (run_method sampleWorld loadTrampoline sampleEnv (sampleState []))) = [] \<and>
   run_method quietWorld loadTrampoline sampleEnv (sampleState []) =
     (Return (WRecord (WInt NullRefNum) (WInt NullRefNum)), sampleState [])"
proof -
  let ?ex = "ManagedException ''boom''"
  let ?s = "sampleState []"
  let ?s1 = "addEffect (FxEnsureRegistered ''error'') ?s"
  let ?s2 = "?s\<lparr>tracker := snd (RefTracker_Inc (tracker ?s) (Some 100)),
      nextObject := 101, goErrors := [100 \<mapsto> ''boom''],
      effects := [FxEnsureRegistered ''error'']\<rparr>"
  have shp: "trampolineShape (fresults pushMethod)"
    by (simp add: trampolineShape_def pushMethod_def)
  have shl: "trampolineShape (fresults loadMethod)"
    by (simp add: trampolineShape_def loadMethod_def errorType_def isErrorType_def)
  have st: "UnhandledCallbackException ?s = None \<and> \<not> FailFastOnUnhandledCallbackException ?s"
    by (simp add: sampleState_def)
  obtain Ep where xp: "exec_block sampleWorld (managedCall sinkIface pushMethod) sampleEnv ?s =
      (Throw ?ex, Ep, ?s)"
    using outcomeD[OF sample_push_managed] by blast
  from trampoline_exception_translation[where g=samplePkg and i=sinkIface and f=pushMethod
      and m=pushTrampoline and W=sampleWorld and E=sampleEnv and s="?s" and ?s1.0="?s"
      and ex="?ex" and nm="''Sink.Push''"]
    sample_pushTrampoline shp st
  have rp: "run_method sampleWorld pushTrampoline sampleEnv ?s =
        trampolineSpec sampleWorld (iname sinkIface @ ''.'' @ fname pushMethod) (fresults pushMethod)
          (outcome (exec_block sampleWorld (tryBlock pushTrampoline) sampleEnv ?s))"
    and tp: "outcome (exec_block sampleWorld (tryBlock pushTrampoline) sampleEnv ?s) =
        trySpec sampleWorld (fresults pushMethod)
          (exec_block sampleWorld (managedCall sinkIface pushMethod) sampleEnv ?s)"
    and rep: "Seq_ReportUnhandledException ?s ?ex ''Sink.Push'' =
          (Next, ?s\<lparr>pendingExceptions := pendingExceptions ?s @ [(?ex, ''Sink.Push'')],
                    effects := effects ?s @ [FxConsoleError ?ex ''Sink.Push'']\<rparr>)"
    by simp_all
  have push: "run_method sampleWorld pushTrampoline sampleEnv ?s =
     (Return WUnit,
      (sampleState [(?ex, ''Sink.Push'')])\<lparr>effects := [FxConsoleError ?ex ''Sink.Push'']\<rparr>)"
    unfolding rp tp xp
    by (simp add: trySpec_def trampolineSpec_def hasErrorChannel_def pushMethod_def sinkIface_def
        rep[unfolded pushMethod_def sinkIface_def]) (simp add: sampleState_def)
  obtain El where xl: "exec_block sampleWorld (managedCall sinkIface loadMethod) sampleEnv ?s =
      (Throw ?ex, El, ?s)"
    using outcomeD[OF sample_load_managed] by blast
  have inv1: "tracker_inv (tracker ?s1)"
    using sample_inv[of "[]"] by (simp add: addEffect_def)
  from trampoline_exception_translation[where g=samplePkg and i=sinkIface and f=loadMethod
      and m=loadTrampoline and W=sampleWorld and E=sampleEnv and s="?s" and ?s1.0="?s1"
      and ex="?ex" and w="WInt 43" and ?s2.0="?s2"]
    sample_loadTrampoline shl sample_goerror inv1
  have rl: "run_method sampleWorld loadTrampoline sampleEnv ?s =
        trampolineSpec sampleWorld (iname sinkIface @ ''.'' @ fname loadMethod) (fresults loadMethod)
          (outcome (exec_block sampleWorld (tryBlock loadTrampoline) sampleEnv ?s))"
    and tl: "outcome (exec_block sampleWorld (tryBlock loadTrampoline) sampleEnv ?s) =
        trySpec sampleWorld (fresults loadMethod)
          (exec_block sampleWorld (managedCall sinkIface loadMethod) sampleEnv ?s)"
    and ge: "\<exists>r. WInt 43 = WInt r \<and> r \<noteq> NullRefNum \<and>
             RefTracker_GetRef (tracker ?s2) r = Inr (Some (nextObject ?s1)) \<and>
             goErrors ?s2 (nextObject ?s1) = Some (Message sampleWorld ?ex)"
    by simp_all
  have load: "run_method sampleWorld loadTrampoline sampleEnv ?s =
      (Return (WRecord (WInt NullRefNum) (WInt 43)), ?s2)"
    unfolding rl tl xl
    by (simp add: trySpec_def trampolineSpec_def hasErrorChannel_def loadMethod_def
        errorType_def isErrorType_def fooType_def defaultWire_def sample_goerror)
  have no: "nextObject ?s1 = 100" "Message sampleWorld ?ex = ''boom''"
    by (simp_all add: addEffect_def sampleState_def sampleWorld_def sampleMessage_def)
  from ge have tracked: "RefTracker_GetRef (tracker ?s2) 43 = Inr (Some 100) \<and>
      goErrors ?s2 100 = Some ''boom''"
    unfolding no by auto
  have pend: "pendingExceptions ?s2 = []" by (simp add: sampleState_def)
  obtain Eq where xq: "exec_block quietWorld (managedCall sinkIface loadMethod) sampleEnv ?s =
      (Next, Eq, ?s)" and vq: "vars Eq ''value'' = Some (WRef MNull)"
    using outcomeD[OF conjunct1[OF sample_load_quiet]] conjunct2[OF sample_load_quiet]
    by (metis fst_conv snd_conv)
  from trampoline_exception_translation[where g=samplePkg and i=sinkIface and f=loadMethod
      and m=loadTrampoline and W=quietWorld and E=sampleEnv and s="?s"]
    sample_loadTrampoline shl
  have rq: "run_method quietWorld loadTrampoline sampleEnv ?s =
        trampolineSpec quietWorld (iname sinkIface @ ''.'' @ fname loadMethod) (fresults loadMethod)
          (outcome (exec_block quietWorld (tryBlock loadTrampoline) sampleEnv ?s))"
    and tq: "outcome (exec_block quietWorld (tryBlock loadTrampoline) sampleEnv ?s) =
        trySpec quietWorld (fresults loadMethod)
          (exec_block quietWorld (managedCall sinkIface loadMethod) sampleEnv ?s)"
    by simp_all
  have quiet: "run_method quietWorld loadTrampoline sampleEnv ?s =
      (Return (WRecord (WInt NullRefNum) (WInt NullRefNum)), ?s)"
    unfolding rq tq xq
    by (simp add: trySpec_def trampolineSpec_def loadMethod_def errorType_def isErrorType_def
        fooType_def nativeValueExpression_def isRefnumType_def vq Seq_IncRef_def Inc_null)
  show ?thesis
    using sample_pushTrampoline shp push sample_loadTrampoline shl tracked pend quiet
    by (simp add: load)
qed

text \<open>
  C6. Every trampoline is to catch all exceptions of the managed method. For a method
  of two results of which the second is not an error, \<open>Two(n int) (int, int)\<close> of the
  interface \<open>Pair\<close>, which the generator supports, the loop of \<^verbatim>\<open>genInterface\<close> that
  prints the proxy methods gives the method up with a diagnostic, and the loop that
  prints the trampolines does not: the trampoline it prints is a \<^verbatim>\<open>try\<close> block closed
  without a \<^verbatim>\<open>catch\<close>, in which the managed method is not called. That is none of
  the shapes the text is written for, and it is not C#. For a method of three results,
  \<open>Three() (int, int, int)\<close>, the proxy method is printed as well, and the trampoline
  is again a \<^verbatim>\<open>try\<close> block without a \<^verbatim>\<open>catch\<close>.
\<close>

theorem trampoline_without_catch:
  "isSigSupported pairPkg twoMethod \<and>
   fresults twoMethod = [Basic KInt, Basic KInt] \<and>
   \<not> trampolineShape (fresults twoMethod) \<and>
   genProxyMethod pairPkg pairIface twoMethod = None \<and>
   genTrampoline pairPkg pairIface twoMethod = Some twoTrampoline \<and>
   m_body twoTrampoline =
     [STryNoCatch
        [SVarDecl ''instance'' (EGetRef ''Pair''),
         SVarDecl ''nValue'' (ECastManaged (Basic KInt) (EVar ''n''))]] \<and>
   run_method sampleWorld twoTrampoline sampleEnv (sampleState []) = (Ill, sampleState []) \<and>
   isSigSupported pairPkg threeMethod \<and>
   fresults threeMethod = [Basic KInt, Basic KInt, Basic KInt] \<and>
   genProxyMethod pairPkg pairIface threeMethod =
     Some \<lparr>m_name = ''Three'',
           m_body = [SThrowIfDisposed, SThrowIfPendingException, SIncGoRef,
                     SVarDecl ''res'' (ENative ''proxypkg_Pair_Three'' [''refnum''])]\<rparr> \<and>
   genTrampoline pairPkg pairIface threeMethod = Some threeTrampoline \<and>
   m_body threeTrampoline = [STryNoCatch [SVarDecl ''instance'' (EGetRef ''Pair'')]] \<and>
   run_method sampleWorld threeTrampoline sampleEnv (sampleState []) = (Ill, sampleState [])"
  by (simp add: pairPkg_def pairIface_def twoMethod_def threeMethod_def twoTrampoline_def
      threeTrampoline_def sample_defs emit_defs tramp_defs trampolineShape_def run_method_def)

end
